(* ===== verification/Daqdb_Prelude.thy ===== *)
theory Daqdb_Prelude
  imports Main "HOL-Library.Word"
begin

text \<open>
  Shared base of the development: machine integer types, the rule collections the components
  add to, block moves on arrays, and the index arithmetic of circular buffers.

  \<^item> \<open>ring_arith\<close> collects the lemmas about positions of a circular buffer;
  \<^item> \<open>upd_simps\<close> collects the read-after-write equations of the components' stores.
\<close>

named_theorems ring_arith "index arithmetic of circular buffers"
named_theorems upd_simps "read-after-write equations"

type_synonym u8 = "8 word"
type_synonym u16 = "16 word"
type_synonym u32 = "32 word"
type_synonym u64 = "64 word"

text \<open>A byte buffer.\<close>
type_synonym bytes = "u8 list"

section \<open>Arrays and block moves\<close>

text \<open>\<open>memmove\<close> inside one array: \<open>n\<close> cells from \<open>src\<close> to \<open>dst\<close>, regions may overlap.\<close>

definition memmove :: "nat \<Rightarrow> nat \<Rightarrow> nat \<Rightarrow> 'a list \<Rightarrow> 'a list" where
  "memmove dst src n xs = take dst xs @ take n (drop src xs) @ drop (dst + n) xs"

text \<open>\<open>memset\<close> of the first \<open>n\<close> cells, \<open>memcpy\<close> of the first \<open>n\<close> cells of another array.\<close>

definition memset_prefix :: "'a \<Rightarrow> nat \<Rightarrow> 'a list \<Rightarrow> 'a list" where
  "memset_prefix v n xs = replicate n v @ drop n xs"

definition memcpy_prefix :: "'a list \<Rightarrow> nat \<Rightarrow> 'a list \<Rightarrow> 'a list" where
  "memcpy_prefix src n dst = take n src @ drop n dst"

text \<open>\<open>memcpy\<close> of a whole block to offset \<open>off\<close> of a buffer.\<close>

definition blit :: "'a list \<Rightarrow> nat \<Rightarrow> 'a list \<Rightarrow> 'a list" where
  "blit src off dst = take off dst @ src @ drop (off + length src) dst"

lemma length_memmove [simp]:
  "dst + n \<le> length xs \<Longrightarrow> src + n \<le> length xs \<Longrightarrow> length (memmove dst src n xs) = length xs"
  by (simp add: memmove_def)

lemma nth_memmove [upd_simps]:
  assumes "dst + n \<le> length xs" "src + n \<le> length xs" "i < length xs"
  shows "memmove dst src n xs ! i = (if dst \<le> i \<and> i < dst + n then xs ! (src + (i - dst)) else xs ! i)"
proof -
  have "length (take n (drop src xs)) = n" using assms by simp
  then show ?thesis using assms by (auto simp: memmove_def nth_append)
qed

lemma length_memset_prefix [simp]: "n \<le> length xs \<Longrightarrow> length (memset_prefix v n xs) = length xs"
  by (simp add: memset_prefix_def)

lemma nth_memset_prefix [upd_simps]:
  "n \<le> length xs \<Longrightarrow> i < length xs \<Longrightarrow> memset_prefix v n xs ! i = (if i < n then v else xs ! i)"
  by (auto simp: memset_prefix_def nth_append)

lemma length_memcpy_prefix [simp]:
  "n \<le> length src \<Longrightarrow> n \<le> length dst \<Longrightarrow> length (memcpy_prefix src n dst) = length dst"
  by (simp add: memcpy_prefix_def)

lemma nth_memcpy_prefix [upd_simps]:
  "n \<le> length src \<Longrightarrow> n \<le> length dst \<Longrightarrow> i < length dst \<Longrightarrow>
     memcpy_prefix src n dst ! i = (if i < n then src ! i else dst ! i)"
  by (auto simp: memcpy_prefix_def nth_append)

lemma length_blit [simp]: "off + length src \<le> length dst \<Longrightarrow> length (blit src off dst) = length dst"
  by (simp add: blit_def)

lemma take_drop_blit [upd_simps]:
  "off + length src \<le> length dst \<Longrightarrow> take (length src) (drop off (blit src off dst)) = src"
  by (simp add: blit_def)

lemma take_blit [upd_simps]:
  "off + length src \<le> length dst \<Longrightarrow> k \<le> off \<Longrightarrow> take k (blit src off dst) = take k dst"
  by (simp add: blit_def min_def)

section \<open>Positions of a circular buffer\<close>

text \<open>The number of steps from position \<open>t\<close> forward to position \<open>k\<close> in a ring of \<open>m\<close> cells.\<close>

definition ring_dist :: "nat \<Rightarrow> nat \<Rightarrow> nat \<Rightarrow> nat" where
  "ring_dist m t k = (if t \<le> k then k - t else k + m - t)"

lemma ring_next [ring_arith]: "k < m \<Longrightarrow> Suc k mod m = (if Suc k = m then 0 else Suc k)" for k m :: nat
  by auto

lemma ring_pos [ring_arith]:
  "t < m \<Longrightarrow> i \<le> m \<Longrightarrow> (t + i) mod m = (if t + i < m then t + i else t + i - m)" for t m i :: nat
  by (auto simp: mod_if)

lemma ring_dist_pos:
  assumes "t < m" "i < m"
  shows "ring_dist m t ((t + i) mod m) = i"
  using assms by (auto simp: ring_pos ring_dist_def)

lemma ring_dist_less: "t < m \<Longrightarrow> k < m \<Longrightarrow> ring_dist m t k < m"
  by (auto simp: ring_dist_def)

lemma div_mod_unique: "(j div s = k div s \<and> j mod s = k mod s) = (j = k)" for j k s :: nat
  by (metis div_mult_mod_eq)

section \<open>Widening words\<close>

lemma unat_ucast_u32_u64 [simp]: "unat (ucast (x :: u32) :: u64) = unat x"
  using unsigned_less [of x, where ?'a = nat] by (simp add: unsigned_ucast_eq take_bit_nat_eq_self)

lemma ucast_u32_u64_inj: "(ucast (x :: u32) :: u64) = ucast y \<longleftrightarrow> x = y"
  by (metis unat_ucast_u32_u64 word_unat_eq_iff)

lemma unat_ucast_u8_u64 [simp]: "unat (ucast (x :: u8) :: u64) = unat x"
  using unsigned_less [of x, where ?'a = nat] by (simp add: unsigned_ucast_eq take_bit_nat_eq_self)

lemma unat_ucast_u8_u32 [simp]: "unat (ucast (x :: u8) :: u32) = unat x"
  using unsigned_less [of x, where ?'a = nat] by (simp add: unsigned_ucast_eq take_bit_nat_eq_self)

lemma word_eq_of_nat: "unat x = n \<Longrightarrow> x = of_nat n"
  by (auto simp: of_nat_unat)

end
