(* ===== verification/Fifo_Spec.thy ===== *)
theory Fifo_Spec
  imports Daqdb_Prelude
begin

text \<open>
  The contract of a bounded first-in first-out store, as a locale: the pool buckets and the
  bounded request buffers are both used through it. \<open>run_fifo\<close> drives an implementation with a
  sequence of commands and \<open>run_list\<close> is the same sequence on a list; the locale's main fact is
  that the two agree.
\<close>

datatype 'a fifo_cmd = Put 'a | Take

text \<open>The reference: a list, \<open>None\<close> when an element is taken from the empty list.\<close>

fun run_list :: "'a fifo_cmd list \<Rightarrow> 'a list \<Rightarrow> ('a list \<times> 'a list) option" where
  "run_list [] q = Some ([], q)"
| "run_list (Put x # cs) q = run_list cs (q @ [x])"
| "run_list (Take # cs) q =
     (case q of [] \<Rightarrow> None
      | x # q' \<Rightarrow> map_option (\<lambda>(out, r). (x # out, r)) (run_list cs q'))"

fun run_fifo :: "('a \<Rightarrow> 's \<Rightarrow> 'e + 's) \<Rightarrow> ('s \<Rightarrow> 'e + 'a \<times> 's) \<Rightarrow> 'a fifo_cmd list \<Rightarrow> 's \<Rightarrow> 'e + 'a list \<times> 's" where
  "run_fifo put tk [] s = Inr ([], s)"
| "run_fifo put tk (Put x # cs) s = (case put x s of Inl e \<Rightarrow> Inl e | Inr s' \<Rightarrow> run_fifo put tk cs s')"
| "run_fifo put tk (Take # cs) s =
     (case tk s of Inl e \<Rightarrow> Inl e
      | Inr (x, s') \<Rightarrow> map_sum id (\<lambda>(out, r). (x # out, r)) (run_fifo put tk cs s'))"

fun n_puts :: "'a fifo_cmd list \<Rightarrow> nat" where
  "n_puts [] = 0"
| "n_puts (Put x # cs) = Suc (n_puts cs)"
| "n_puts (Take # cs) = n_puts cs"

lemma run_list_puts: "run_list (map Put xs @ cs) q = run_list cs (q @ xs)"
  by (induction xs arbitrary: q) auto

lemma run_list_takes: "run_list (replicate (length xs) Take) (xs @ q) = Some (xs, q)"
  by (induction xs) auto

lemma n_puts_append [simp]: "n_puts (cs @ ds) = n_puts cs + n_puts ds"
  by (induction cs rule: n_puts.induct) auto

lemma n_puts_map_Put [simp]: "n_puts (map Put xs) = length xs"
  by (induction xs) auto

lemma n_puts_takes [simp]: "n_puts (replicate n Take) = 0"
  by (induction n) auto

locale bounded_fifo =
  fixes put :: "'a \<Rightarrow> 's \<Rightarrow> 'e + 's"
    and tk :: "'s \<Rightarrow> 'e + 'a \<times> 's"
    and abs :: "'s \<Rightarrow> 'a list"
    and inv :: "'s \<Rightarrow> bool"
    and cap :: "'s \<Rightarrow> nat"
  assumes put_ok: "inv s \<Longrightarrow> length (abs s) < cap s \<Longrightarrow> \<exists>s'. put x s = Inr s' \<and> inv s' \<and> abs s' = abs s @ [x] \<and> cap s' = cap s"
    and put_full: "inv s \<Longrightarrow> length (abs s) = cap s \<Longrightarrow> \<exists>e. put x s = Inl e"
    and tk_ok: "inv s \<Longrightarrow> abs s \<noteq> [] \<Longrightarrow> \<exists>x s'. tk s = Inr (x, s') \<and> inv s' \<and> abs s = x # abs s' \<and> cap s' = cap s"
begin

lemma run_refines:
  assumes "inv s" and "run_list cs (abs s) = Some (out, q)" and "length (abs s) + n_puts cs \<le> cap s"
  shows "\<exists>s'. run_fifo put tk cs s = Inr (out, s') \<and> inv s' \<and> abs s' = q"
  using assms
proof (induction cs arbitrary: s out rule: n_puts.induct)
  case 1
  then show ?case by simp
next
  case (2 x cs)
  then obtain s' where s': "put x s = Inr s'" "inv s'" "abs s' = abs s @ [x]" "cap s' = cap s"
    using put_ok [of s x] by auto
  then show ?case using 2 by auto
next
  case (3 cs)
  then obtain x q' where q': "abs s = x # q'" by (cases "abs s") auto
  then obtain s' where s': "tk s = Inr (x, s')" "inv s'" "abs s' = q'" "cap s' = cap s"
    using tk_ok [of s] 3 by auto
  then obtain out' where out': "run_list cs (abs s') = Some (out', q)" "out = x # out'"
    using 3 q' by auto
  have "length (abs s') + n_puts cs \<le> cap s'" using 3 s' q' by simp
  from "3.IH" [OF s'(2) out'(1) this] show ?case using s'(1) out'(2) by auto
qed

text \<open>What goes in comes out, in order.\<close>

lemma put_all_take_all:
  assumes "inv s" "abs s = []" "length xs \<le> cap s"
  shows "\<exists>s'. run_fifo put tk (map Put xs @ replicate (length xs) Take) s = Inr (xs, s') \<and> inv s' \<and> abs s' = []"
  using run_refines [of s "map Put xs @ replicate (length xs) Take" xs "[]"] run_list_takes [of xs "[]"] assms
  by (simp add: run_list_puts)

end

end
