(* ===== verification/Pool_Bucket.thy ===== *)
theory Pool_Bucket
  imports Fifo_Spec
begin

text \<open>
  The storage of one pool bucket: \<^verbatim>\<open>lib/common/GeneralPoolBuffer.h\<close>,
  \<^verbatim>\<open>lib/common/GeneralPoolBucket.h\<close> and the allocation strategies. A bucket is a circular
  buffer of object pointers that grows by whole buffers of \<open>MAX_BUFFER_SLOTS\<close> slots. The
  model keeps the array of buffer pointers, both ring indices and both flags; \<open>contents\<close> reads
  the ring as a list, and the operations are shown to be the operations of a first-in
  first-out queue that grows on demand: an interpretation of \<open>bounded_fifo\<close>.

  Object pointers are numbers; a slot holds \<open>None\<close> for the null pointer. The indices are
  \<^verbatim>\<open>unsigned int\<close> in the code; they stay below \<open>MAX_BUCKET_BUFFERS * MAX_BUFFER_SLOTS\<close> (a part
  of the invariant), so no index computation wraps.
\<close>

unbundle bit_operations_syntax

section \<open>Data\<close>

definition MAX_BUFFER_SLOTS :: nat where
  "MAX_BUFFER_SLOTS = 1024"

definition MAX_BUCKET_BUFFERS :: nat where
  "MAX_BUCKET_BUFFERS = 256"

definition BUCKET_SIZE_MASK :: u32 where
  "BUCKET_SIZE_MASK = 0x00FFFFFF"

definition BUCKET_NUMBER_SHIFT :: nat where
  "BUCKET_NUMBER_SHIFT = 24"

definition BUCKET_NUMBER_MASK :: u32 where
  "BUCKET_NUMBER_MASK = 0x000000FF"

type_synonym obj = nat

record pool_buffer =
  slots :: "obj option list"
  buf_bucketNum :: u32

text \<open>The ways a pool operation stops the process.\<close>

datatype pool_error =
    NullSlot \<comment> \<open>null returned from slot: abort\<close>
  | SlotNotNull \<comment> \<open>slot should be null: abort\<close>
  | NoMoreBuffers \<comment> \<open>no more buffers can be allocated: abort\<close>
  | BadBuffer \<comment> \<open>dereference of a buffer pointer that was never set\<close>
  | WrongPool \<comment> \<open>object returned to the wrong pool: abort\<close>
  | BucketOutOfRange \<comment> \<open>bucket number out of range: abort\<close>
  | AssertionFailed \<comment> \<open>an assert of the code does not hold\<close>
  | BadObject \<comment> \<open>read of a stamp outside every allocated object\<close>

record bucket =
  head :: nat
  tail :: nat
  full :: bool
  empty :: bool
  quantInc :: nat
  quantDec :: nat
  numBuffers :: nat
  bucketNum :: u32
  stamp :: u32
  totalMax :: nat
  currentMax :: nat
  objSize :: u32
  buffers :: "pool_buffer option list"

text \<open>The heap the allocator \<open>Alloc::New\<close> takes objects from: the next free address and the
  stamp written behind each object.\<close>

record obj_mem =
  next_obj :: obj
  stamps :: "obj \<rightharpoonup> u32"

record alloc_strategy =
  preallocateCount :: nat
  incrementQuant :: nat
  decrementQuant :: nat
  minIncQuant :: nat
  maxIncQuant :: nat
  minDecQuant :: nat
  maxDecQuant :: nat

definition DefaultAllocStrategy :: alloc_strategy where
  "DefaultAllocStrategy = \<lparr>preallocateCount = 0, incrementQuant = 320, decrementQuant = 0,
     minIncQuant = 4, maxIncQuant = 10, minDecQuant = 0, maxDecQuant = 0\<rparr>"

section \<open>Operations\<close>

subsection \<open>Buffers\<close>

definition new_buffer :: "u32 \<Rightarrow> pool_buffer" where
  "new_buffer n = \<lparr>slots = replicate MAX_BUFFER_SLOTS None, buf_bucketNum = n\<rparr>"

definition rellocate :: "pool_buffer \<Rightarrow> nat \<Rightarrow> pool_buffer \<Rightarrow> pool_buffer" where
  "rellocate src howMany b = b\<lparr>slots := memcpy_prefix (slots src) howMany (slots b)\<rparr>"

definition zeroOut :: "nat \<Rightarrow> pool_buffer \<Rightarrow> pool_buffer" where
  "zeroOut howMany b = b\<lparr>slots := memset_prefix None howMany (slots b)\<rparr>"

subsection \<open>Buckets\<close>

definition new_bucket :: "u32 \<Rightarrow> bucket" where
  "new_bucket objSz = \<lparr>head = 0, tail = 0, full = False, empty = True, quantInc = 0, quantDec = 0,
     numBuffers = 0, bucketNum = 0, stamp = 0,
     totalMax = MAX_BUCKET_BUFFERS * MAX_BUFFER_SLOTS, currentMax = 0, objSize = objSz,
     buffers = replicate MAX_BUCKET_BUFFERS None\<rparr>"

text \<open>\<open>makeBuffer\<close> inserts a buffer at the head position. With no buffer yet the two calls on
  \<^verbatim>\<open>buffers[insert_pos + 1]\<close> move zero slots; the model leaves the array as it is there.\<close>

definition makeBuffer :: "bucket \<Rightarrow> pool_error + bucket" where
  "makeBuffer b =
     (if MAX_BUCKET_BUFFERS \<le> numBuffers b then Inl NoMoreBuffers
      else
        let insert_pos = head b div MAX_BUFFER_SLOTS;
            moved = memmove (insert_pos + 1) insert_pos (numBuffers b - insert_pos) (buffers b);
            new = new_buffer (bucketNum b);
            off = head b mod MAX_BUFFER_SLOTS;
            bufs = (case moved ! (insert_pos + 1) of
                      None \<Rightarrow> moved[insert_pos := Some new]
                    | Some old \<Rightarrow> moved[insert_pos := Some (rellocate old off new),
                                       insert_pos + 1 := Some (zeroOut off old)]);
            cm = currentMax b + MAX_BUFFER_SLOTS
        in Inr (b\<lparr>buffers := bufs, numBuffers := numBuffers b + 1, currentMax := cm,
                  tail := (tail b + MAX_BUFFER_SLOTS) mod cm, full := False\<rparr>))"

text \<open>The assignment \<^verbatim>\<open>buffers[i]->slots[j] = v\<close>.\<close>

definition store_slot :: "nat \<Rightarrow> nat \<Rightarrow> obj option \<Rightarrow> bucket \<Rightarrow> bucket" where
  "store_slot i j v b =
     b\<lparr>buffers := (buffers b)[i := map_option (\<lambda>buf. buf\<lparr>slots := (slots buf)[j := v]\<rparr>) (buffers b ! i)]\<rparr>"

definition putNoLock :: "obj \<Rightarrow> bucket \<Rightarrow> pool_error + bucket" where
  "putNoLock ob b =
     (case (if full b \<or> numBuffers b = 0 then makeBuffer b else Inr b) of
        Inl e \<Rightarrow> Inl e
      | Inr b \<Rightarrow>
         if full b then Inr b
         else
           let buf_idx = head b div MAX_BUFFER_SLOTS;
               slot_idx = head b mod MAX_BUFFER_SLOTS
           in case buffers b ! buf_idx of
                None \<Rightarrow> Inl BadBuffer
              | Some buf \<Rightarrow>
                  if slots buf ! slot_idx \<noteq> None then Inl SlotNotNull
                  else
                    let h = (head b + 1) mod currentMax b
                    in Inr ((store_slot buf_idx slot_idx (Some ob) b)\<lparr>head := h, full := (h = tail b \<or> full b), empty := False\<rparr>))"

text \<open>\<open>Alloc::New\<close> constructs an object at a fresh address; \<open>make\<close> stamps it.\<close>

definition alloc_stamped :: "u32 \<Rightarrow> obj_mem \<Rightarrow> obj \<times> obj_mem" where
  "alloc_stamped st m = (next_obj m, m\<lparr>next_obj := next_obj m + 1, stamps := (stamps m)(next_obj m \<mapsto> st)\<rparr>)"

primrec make :: "nat \<Rightarrow> obj_mem \<Rightarrow> bucket \<Rightarrow> pool_error + obj_mem \<times> bucket" where
  "make 0 m b = Inr (m, b)"
| "make (Suc n) m b =
     (let (tmp_obj, m') = alloc_stamped (stamp b) m
      in case putNoLock tmp_obj b of Inl e \<Rightarrow> Inl e | Inr b' \<Rightarrow> make n m' b')"

definition takeNoLock :: "bucket \<Rightarrow> pool_error + obj \<times> bucket" where
  "takeNoLock b =
     (let buf_idx = tail b div MAX_BUFFER_SLOTS;
          slot_idx = tail b mod MAX_BUFFER_SLOTS
      in case buffers b ! buf_idx of
           None \<Rightarrow> Inl BadBuffer
         | Some buf \<Rightarrow>
             (case slots buf ! slot_idx of
                None \<Rightarrow> Inl NullSlot
              | Some tmp_obj \<Rightarrow>
                  let t = (tail b + 1) mod currentMax b
                  in Inr (tmp_obj, (store_slot buf_idx slot_idx None b)\<lparr>tail := t, empty := (t = head b \<or> empty b), full := False\<rparr>)))"

definition getNoLock :: "obj_mem \<Rightarrow> bucket \<Rightarrow> pool_error + obj \<times> obj_mem \<times> bucket" where
  "getNoLock m b =
     (case (if empty b then make (quantInc b) m b else Inr (m, b)) of
        Inl e \<Rightarrow> Inl e
      | Inr (m, b) \<Rightarrow> (case takeNoLock b of Inl e \<Rightarrow> Inl e | Inr (ob, b) \<Rightarrow> Inr (ob, m, b)))"

definition bucket_size :: "bucket \<Rightarrow> nat" where
  "bucket_size b =
     (if full b then currentMax b
      else if tail b \<le> head b then head b - tail b
      else currentMax b - (tail b - head b))"

definition makeStamp :: "bucket \<Rightarrow> bucket" where
  "makeStamp b = b\<lparr>stamp := push_bit BUCKET_NUMBER_SHIFT (bucketNum b) + objSize b\<rparr>"

definition setBucketNum :: "u32 \<Rightarrow> bucket \<Rightarrow> bucket" where
  "setBucketNum v b = b\<lparr>bucketNum := v\<rparr>"

definition setStrategy :: "alloc_strategy \<Rightarrow> obj_mem \<Rightarrow> bucket \<Rightarrow> pool_error + obj_mem \<times> bucket" where
  "setStrategy strat m b =
     (let sz = unat (objSize b);
          preall = preallocateCount strat div sz;
          qi = incrementQuant strat div sz;
          qi = (if qi \<le> minIncQuant strat then minIncQuant strat else qi);
          qi = (if maxIncQuant strat \<le> qi then maxIncQuant strat else qi);
          qd = decrementQuant strat div sz;
          qd = (if qd \<le> minDecQuant strat then minDecQuant strat else qd);
          qd = (if maxDecQuant strat \<le> qd then maxDecQuant strat else qd)
      in make preall m (b\<lparr>quantInc := qi, quantDec := qd\<rparr>))"

section \<open>The ring read as a list\<close>

definition slot_at :: "bucket \<Rightarrow> nat \<Rightarrow> obj option" where
  "slot_at b k = (case buffers b ! (k div MAX_BUFFER_SLOTS) of
      None \<Rightarrow> None | Some buf \<Rightarrow> slots buf ! (k mod MAX_BUFFER_SLOTS))"

definition contents :: "bucket \<Rightarrow> obj list" where
  "contents b = map (\<lambda>i. the (slot_at b ((tail b + i) mod currentMax b))) [0..<bucket_size b]"

text \<open>The shape of the array of buffers.\<close>

definition bucket_shape :: "bucket \<Rightarrow> bool" where
  "bucket_shape b \<longleftrightarrow>
     numBuffers b \<le> MAX_BUCKET_BUFFERS \<and> length (buffers b) = MAX_BUCKET_BUFFERS \<and>
     (\<forall>i < numBuffers b. \<exists>buf. buffers b ! i = Some buf \<and> length (slots buf) = MAX_BUFFER_SLOTS) \<and>
     (\<forall>i < MAX_BUCKET_BUFFERS. numBuffers b \<le> i \<longrightarrow> buffers b ! i = None) \<and>
     currentMax b = numBuffers b * MAX_BUFFER_SLOTS"

text \<open>The flags and indices agree with the slots: exactly the slots from \<open>tail\<close> on, as many
  as \<open>size()\<close> says, hold an object.\<close>

definition bucket_inv :: "bucket \<Rightarrow> bool" where
  "bucket_inv b \<longleftrightarrow>
     bucket_shape b \<and>
     (numBuffers b = 0 \<longrightarrow> head b = 0 \<and> tail b = 0) \<and>
     (0 < numBuffers b \<longrightarrow> head b < currentMax b \<and> tail b < currentMax b) \<and>
     (full b \<longrightarrow> \<not> empty b \<and> 0 < numBuffers b) \<and>
     (head b = tail b \<longleftrightarrow> full b \<or> empty b) \<and>
     (\<forall>k < currentMax b. (slot_at b k \<noteq> None) = (ring_dist (currentMax b) (tail b) k < bucket_size b))"

lemma slots_pos [simp]: "0 < MAX_BUFFER_SLOTS"
  by (simp add: MAX_BUFFER_SLOTS_def)

lemma slot_at_parts:
  assumes "r < MAX_BUFFER_SLOTS"
  shows "slot_at b (q * MAX_BUFFER_SLOTS + r) = (case buffers b ! q of None \<Rightarrow> None | Some buf \<Rightarrow> slots buf ! r)"
proof -
  have "(q * MAX_BUFFER_SLOTS + r) div MAX_BUFFER_SLOTS = q" "(q * MAX_BUFFER_SLOTS + r) mod MAX_BUFFER_SLOTS = r"
    using assms by auto
  then show ?thesis unfolding slot_at_def by (simp only:)
qed

lemma shape_index:
  assumes "bucket_shape b" "k < currentMax b"
  shows "k div MAX_BUFFER_SLOTS < numBuffers b"
  using assms by (simp add: bucket_shape_def less_mult_imp_div_less)

lemma shape_buffer:
  assumes "bucket_shape b" "k < currentMax b"
  obtains buf where "buffers b ! (k div MAX_BUFFER_SLOTS) = Some buf"
    and "length (slots buf) = MAX_BUFFER_SLOTS" and "slot_at b k = slots buf ! (k mod MAX_BUFFER_SLOTS)"
  using assms shape_index [OF assms] by (auto simp: bucket_shape_def slot_at_def)

lemma store_slot_fields [simp]:
  "head (store_slot i j v b) = head b" "tail (store_slot i j v b) = tail b"
  "full (store_slot i j v b) = full b" "empty (store_slot i j v b) = empty b"
  "numBuffers (store_slot i j v b) = numBuffers b" "currentMax (store_slot i j v b) = currentMax b"
  "stamp (store_slot i j v b) = stamp b" "quantInc (store_slot i j v b) = quantInc b"
  "bucketNum (store_slot i j v b) = bucketNum b" "objSize (store_slot i j v b) = objSize b"
  by (simp_all add: store_slot_def)

lemma slot_at_cong: "buffers b' = buffers b \<Longrightarrow> slot_at b' k = slot_at b k"
  by (simp add: slot_at_def)

lemma shape_cong:
  "buffers b' = buffers b \<Longrightarrow> numBuffers b' = numBuffers b \<Longrightarrow> currentMax b' = currentMax b \<Longrightarrow>
     bucket_shape b' = bucket_shape b"
  by (simp add: bucket_shape_def)

lemma store_slot_shape:
  assumes "bucket_shape b" "k < currentMax b"
  shows "bucket_shape (store_slot (k div MAX_BUFFER_SLOTS) (k mod MAX_BUFFER_SLOTS) v b)"
proof -
  obtain buf where "buffers b ! (k div MAX_BUFFER_SLOTS) = Some buf" "length (slots buf) = MAX_BUFFER_SLOTS"
    using assms by (rule shape_buffer)
  then show ?thesis using assms shape_index [OF assms]
    by (auto simp: bucket_shape_def store_slot_def nth_list_update)
qed

lemma slot_at_store_slot [upd_simps]:
  assumes "bucket_shape b" "k < currentMax b" "j < currentMax b"
  shows "slot_at (store_slot (k div MAX_BUFFER_SLOTS) (k mod MAX_BUFFER_SLOTS) v b) j =
     (if j = k then v else slot_at b j)"
proof -
  obtain buf where "buffers b ! (k div MAX_BUFFER_SLOTS) = Some buf" "length (slots buf) = MAX_BUFFER_SLOTS"
    using assms(1,2) by (rule shape_buffer)
  moreover have "k div MAX_BUFFER_SLOTS < length (buffers b)"
    using shape_index [OF assms(1,2)] assms(1) by (simp add: bucket_shape_def)
  ultimately show ?thesis
    using div_mod_unique [of j MAX_BUFFER_SLOTS k]
    by (auto simp: slot_at_def store_slot_def nth_list_update)
qed

lemma length_contents [simp]: "length (contents b) = bucket_size b"
  by (simp add: contents_def)

lemma nth_contents:
  "i < bucket_size b \<Longrightarrow> contents b ! i = the (slot_at b ((tail b + i) mod currentMax b))"
  by (simp add: contents_def)

lemma bucket_size_le: "bucket_inv b \<Longrightarrow> bucket_size b \<le> currentMax b"
  by (cases "numBuffers b = 0") (auto simp: bucket_inv_def bucket_size_def bucket_shape_def)

lemma bucket_size_zero: "bucket_inv b \<Longrightarrow> (bucket_size b = 0) = empty b"
  by (cases "numBuffers b = 0") (auto simp: bucket_inv_def bucket_size_def bucket_shape_def)

section \<open>Growing keeps the queue\<close>

text \<open>The array of buffers after \<open>makeBuffer\<close>: one buffer more, split at the head slot.\<close>

definition grown_buffers :: "bucket \<Rightarrow> pool_buffer option list" where
  "grown_buffers b =
     (let insert_pos = head b div MAX_BUFFER_SLOTS;
          moved = memmove (insert_pos + 1) insert_pos (numBuffers b - insert_pos) (buffers b);
          new = new_buffer (bucketNum b);
          off = head b mod MAX_BUFFER_SLOTS
      in case moved ! (insert_pos + 1) of
           None \<Rightarrow> moved[insert_pos := Some new]
         | Some old \<Rightarrow> moved[insert_pos := Some (rellocate old off new),
                            insert_pos + 1 := Some (zeroOut off old)])"

lemma makeBuffer_eq:
  "numBuffers b < MAX_BUCKET_BUFFERS \<Longrightarrow>
     makeBuffer b = Inr (b\<lparr>buffers := grown_buffers b, numBuffers := numBuffers b + 1,
       currentMax := currentMax b + MAX_BUFFER_SLOTS,
       tail := (tail b + MAX_BUFFER_SLOTS) mod (currentMax b + MAX_BUFFER_SLOTS), full := False\<rparr>)"
  by (simp add: makeBuffer_def grown_buffers_def Let_def)

lemma grown_buffers_first:
  assumes "bucket_shape b" "numBuffers b = 0" "head b = 0"
  shows "grown_buffers b = (buffers b)[0 := Some (new_buffer (bucketNum b))]"
proof -
  have "buffers b ! 1 = None" using assms(1,2) by (simp add: bucket_shape_def MAX_BUCKET_BUFFERS_def)
  then show ?thesis using assms by (simp add: grown_buffers_def memmove_def)
qed

lemma grown_buffers_nth:
  assumes sh: "bucket_shape b" and n: "numBuffers b < MAX_BUCKET_BUFFERS" and h: "head b < currentMax b"
    and ip: "ip = head b div MAX_BUFFER_SLOTS" and off: "off = head b mod MAX_BUFFER_SLOTS"
    and old: "buffers b ! ip = Some old" and i: "i < MAX_BUCKET_BUFFERS"
  shows "grown_buffers b ! i =
     (if i < ip then buffers b ! i
      else if i = ip then Some (rellocate old off (new_buffer (bucketNum b)))
      else if i = ip + 1 then Some (zeroOut off old)
      else if i \<le> numBuffers b then buffers b ! (i - 1) else None)"
proof -
  let ?moved = "memmove (ip + 1) ip (numBuffers b - ip) (buffers b)"
  have ipn: "ip < numBuffers b" using shape_index [OF sh h] ip by simp
  have len: "length (buffers b) = MAX_BUCKET_BUFFERS" using sh by (simp add: bucket_shape_def)
  have mv: "?moved ! j = (if ip < j \<and> j \<le> numBuffers b then buffers b ! (j - 1) else buffers b ! j)"
    if "j < MAX_BUCKET_BUFFERS" for j
    using that ipn n len by (auto simp: nth_memmove)
  have "?moved ! (ip + 1) = Some old" using mv [of "ip + 1"] ipn n old by simp
  then have g: "grown_buffers b = ?moved[ip := Some (rellocate old off (new_buffer (bucketNum b))), ip + 1 := Some (zeroOut off old)]"
    by (simp add: grown_buffers_def Let_def ip off)
  have lm: "length ?moved = MAX_BUCKET_BUFFERS" using ipn n len by simp
  have none: "buffers b ! j = None" if "numBuffers b < j" "j < MAX_BUCKET_BUFFERS" for j
    using that sh by (simp add: bucket_shape_def)
  show ?thesis using i mv [OF i] lm none [of i] by (auto simp: g nth_list_update)
qed

lemma length_grown_buffers:
  "bucket_shape b \<Longrightarrow> numBuffers b < MAX_BUCKET_BUFFERS \<Longrightarrow> head b div MAX_BUFFER_SLOTS \<le> numBuffers b \<Longrightarrow>
     length (grown_buffers b) = MAX_BUCKET_BUFFERS"
  by (auto simp: grown_buffers_def Let_def bucket_shape_def split: option.split)

text \<open>Seen slot by slot, growing a full bucket inserts \<open>MAX_BUFFER_SLOTS\<close> null slots at the head.\<close>

lemma grown_slot_at:
  assumes sh: "bucket_shape b" and n: "numBuffers b < MAX_BUCKET_BUFFERS" and h: "head b < currentMax b"
    and b': "buffers b' = grown_buffers b" and j: "j < currentMax b + MAX_BUFFER_SLOTS"
  shows "slot_at b' j =
     (if j < head b then slot_at b j
      else if j < head b + MAX_BUFFER_SLOTS then None else slot_at b (j - MAX_BUFFER_SLOTS))"
proof -
  let ?S = MAX_BUFFER_SLOTS
  define ip off q r where defs: "ip = head b div ?S" "off = head b mod ?S" "q = j div ?S" "r = j mod ?S"
  have S: "0 < ?S" by simp
  have hd: "head b = ip * ?S + off" and jd: "j = q * ?S + r" and offS: "off < ?S" and rS: "r < ?S"
    by (simp_all add: defs)
  obtain old where old: "buffers b ! ip = Some old" "length (slots old) = ?S"
    using shape_buffer [OF sh h] unfolding defs by blast
  have qn: "q \<le> numBuffers b"
  proof -
    have "j < (numBuffers b + 1) * ?S" using j sh by (simp add: bucket_shape_def)
    then have "q < numBuffers b + 1" unfolding defs by (rule less_mult_imp_div_less)
    then show ?thesis by simp
  qed
  have g: "grown_buffers b ! q =
     (if q < ip then buffers b ! q
      else if q = ip then Some (rellocate old off (new_buffer (bucketNum b)))
      else if q = ip + 1 then Some (zeroOut off old) else buffers b ! (q - 1))"
    using grown_buffers_nth [OF sh n h defs(1) defs(2) old(1), of q] qn n by simp
  have s: "slot_at b' j = (case grown_buffers b ! q of None \<Rightarrow> None | Some buf \<Rightarrow> slots buf ! r)"
    unfolding slot_at_def b' defs ..
  note parts = slot_at_parts [OF rS, of b]
  consider (lo) "q < ip" | (new) "q = ip" | (split) "q = ip + 1" | (hi) "ip + 1 < q" by linarith
  then show ?thesis
  proof cases
    case lo
    then have "Suc q * ?S \<le> ip * ?S" by (simp only: mult_le_cancel2) simp
    then have "j < head b" using rS hd jd by simp
    then show ?thesis using lo s g parts [of q] jd by simp
  next
    case new
    then have "j < head b \<longleftrightarrow> r < off" and "j < head b + ?S" using hd jd rS by auto
    then show ?thesis using new s g old rS offS parts [of q] jd
      by (simp add: rellocate_def new_buffer_def nth_memcpy_prefix)
  next
    case split
    then have "\<not> j < head b" and "j < head b + ?S \<longleftrightarrow> r < off" and "j - ?S = ip * ?S + r"
      using hd jd rS offS by auto
    then show ?thesis using split s g old rS offS parts [of ip]
      by (simp add: zeroOut_def nth_memset_prefix)
  next
    case hi
    then have "(ip + 2) * ?S \<le> q * ?S" by (simp only: mult_le_cancel2) simp
    then have nj: "\<not> j < head b" "\<not> j < head b + ?S" using hd jd offS by (simp_all add: algebra_simps)
    have "j - ?S = (q - 1) * ?S + r" using jd hi by (simp add: algebra_simps diff_mult_distrib)
    then show ?thesis using hi s g nj parts [of "q - 1"] by simp
  qed
qed

text \<open>The fields no ring operation touches.\<close>

definition same_setup :: "bucket \<Rightarrow> bucket \<Rightarrow> bool" where
  "same_setup b b' \<longleftrightarrow> stamp b' = stamp b \<and> quantInc b' = quantInc b \<and> quantDec b' = quantDec b \<and>
     bucketNum b' = bucketNum b \<and> objSize b' = objSize b \<and> totalMax b' = totalMax b"

lemma same_setup_refl [simp]: "same_setup b b"
  by (simp add: same_setup_def)

lemma same_setup_trans: "same_setup a b \<Longrightarrow> same_setup b c \<Longrightarrow> same_setup a c"
  by (simp add: same_setup_def)

lemma makeBuffer_shape:
  assumes sh: "bucket_shape b" and n: "numBuffers b < MAX_BUCKET_BUFFERS"
    and h: "if numBuffers b = 0 then head b = 0 else head b < currentMax b"
    and b': "buffers b' = grown_buffers b" "numBuffers b' = numBuffers b + 1"
      "currentMax b' = currentMax b + MAX_BUFFER_SLOTS"
  shows "bucket_shape b'"
proof (cases "numBuffers b = 0")
  case True
  then show ?thesis using assms grown_buffers_first [OF sh]
    by (auto simp: bucket_shape_def new_buffer_def nth_list_update)
next
  case False
  define ip off where defs: "ip = head b div MAX_BUFFER_SLOTS" "off = head b mod MAX_BUFFER_SLOTS"
  have h': "head b < currentMax b" using h False by simp
  obtain old where old: "buffers b ! ip = Some old" "length (slots old) = MAX_BUFFER_SLOTS"
    using shape_buffer [OF sh h'] unfolding defs by blast
  have off: "off < MAX_BUFFER_SLOTS" by (simp add: defs)
  have ipn: "ip < numBuffers b" using shape_index [OF sh h'] by (simp add: defs)
  note g = grown_buffers_nth [OF sh n h' defs(1) defs(2) old(1)]
  have len: "length (buffers b') = MAX_BUCKET_BUFFERS"
    using length_grown_buffers [OF sh n] ipn b' by (simp add: defs)
  have "\<exists>buf. buffers b' ! i = Some buf \<and> length (slots buf) = MAX_BUFFER_SLOTS" if "i < numBuffers b + 1" for i
  proof -
    have "i < MAX_BUCKET_BUFFERS" using that n by simp
    moreover have "\<exists>buf. buffers b ! k = Some buf \<and> length (slots buf) = MAX_BUFFER_SLOTS" if "k < numBuffers b" for k
      using sh that by (simp add: bucket_shape_def)
    ultimately show ?thesis using g [of i] b'(1) old(2) off that ipn
      by (auto simp: rellocate_def zeroOut_def new_buffer_def)
  qed
  moreover have "buffers b' ! i = None" if "i < MAX_BUCKET_BUFFERS" "numBuffers b + 1 \<le> i" for i
    using g [of i] that b'(1) ipn by simp
  moreover have "currentMax b' = numBuffers b' * MAX_BUFFER_SLOTS" using sh b' by (simp add: bucket_shape_def)
  ultimately show ?thesis using len n b' by (simp add: bucket_shape_def)
qed

lemma makeBuffer_first:
  assumes inv: "bucket_inv b" and n: "numBuffers b = 0"
  shows "\<exists>b'. makeBuffer b = Inr b' \<and> bucket_inv b' \<and> contents b' = contents b \<and> \<not> full b' \<and>
     numBuffers b' = numBuffers b + 1 \<and> same_setup b b'"
proof -
  have sh: "bucket_shape b" and h: "head b = 0" and cm: "currentMax b = 0" and flags: "empty b" "\<not> full b"
    using inv n by (auto simp: bucket_inv_def bucket_shape_def)
  define b' where "b' = b\<lparr>buffers := grown_buffers b, numBuffers := numBuffers b + 1,
       currentMax := currentMax b + MAX_BUFFER_SLOTS,
       tail := (tail b + MAX_BUFFER_SLOTS) mod (currentMax b + MAX_BUFFER_SLOTS), full := False\<rparr>"
  have m: "makeBuffer b = Inr b'" using n by (simp add: makeBuffer_eq b'_def MAX_BUCKET_BUFFERS_def)
  have fld: "head b' = 0" "tail b' = 0" "\<not> full b'" "empty b'" "currentMax b' = MAX_BUFFER_SLOTS"
    using inv n cm h flags by (auto simp: b'_def bucket_inv_def)
  have shape: "bucket_shape b'"
    by (rule makeBuffer_shape [OF sh]) (use n h in \<open>simp_all add: b'_def MAX_BUCKET_BUFFERS_def\<close>)
  have "slot_at b' k = None" if "k < MAX_BUFFER_SLOTS" for k
  proof -
    have "0 < length (buffers b)" using sh by (simp add: bucket_shape_def MAX_BUCKET_BUFFERS_def)
    then show ?thesis using that grown_buffers_first [OF sh n h]
      by (simp add: b'_def slot_at_def new_buffer_def)
  qed
  then have "bucket_inv b'" using shape fld n by (simp add: bucket_inv_def bucket_size_def b'_def)
  moreover have "contents b' = contents b" using fld flags h inv n by (simp add: contents_def bucket_size_def bucket_inv_def)
  ultimately show ?thesis using m fld by (auto simp: b'_def same_setup_def)
qed

lemma makeBuffer_full:
  assumes inv: "bucket_inv b" and f: "full b" and n: "numBuffers b < MAX_BUCKET_BUFFERS"
  shows "\<exists>b'. makeBuffer b = Inr b' \<and> bucket_inv b' \<and> contents b' = contents b \<and> \<not> full b' \<and>
     numBuffers b' = numBuffers b + 1 \<and> same_setup b b'"
proof -
  let ?S = MAX_BUFFER_SLOTS
  have sh: "bucket_shape b" and pos: "0 < numBuffers b" and h: "head b < currentMax b" and t: "tail b = head b"
    and ne: "\<not> empty b" using inv f by (auto simp: bucket_inv_def)
  define b' where "b' = b\<lparr>buffers := grown_buffers b, numBuffers := numBuffers b + 1,
       currentMax := currentMax b + ?S,
       tail := (tail b + ?S) mod (currentMax b + ?S), full := False\<rparr>"
  have m: "makeBuffer b = Inr b'" using n by (simp add: makeBuffer_eq b'_def)
  have fld: "head b' = head b" "tail b' = head b + ?S" "\<not> full b'" "\<not> empty b'" "currentMax b' = currentMax b + ?S"
    using h t ne by (auto simp: b'_def)
  have shape: "bucket_shape b'" by (rule makeBuffer_shape [OF sh]) (use n h pos in \<open>simp_all add: b'_def\<close>)
  have sz: "bucket_size b = currentMax b" "bucket_size b' = currentMax b"
    using f fld slots_pos by (auto simp: bucket_size_def simp del: slots_pos)
  have old: "slot_at b k \<noteq> None" if "k < currentMax b" for k
    using that inv sz ring_dist_less [of "tail b" "currentMax b" k] h t by (simp add: bucket_inv_def)
  have sl: "slot_at b' k = (if k < head b then slot_at b k
      else if k < head b + ?S then None else slot_at b (k - ?S))" if "k < currentMax b + ?S" for k
    using that grown_slot_at [OF sh n h] by (simp add: b'_def)
  have "(slot_at b' k \<noteq> None) = (ring_dist (currentMax b') (tail b') k < bucket_size b')" if "k < currentMax b'" for k
    using that fld sz h sl [of k] old [of k] old [of "k - ?S"] by (auto simp: ring_dist_def)
  then have "bucket_inv b'" using shape fld h by (simp add: bucket_inv_def b'_def)
  moreover have "contents b' = contents b"
  proof (rule nth_equalityI)
    fix i assume "i < length (contents b')"
    then have i: "i < currentMax b" using sz by simp
    then have "slot_at b' ((tail b' + i) mod currentMax b') = slot_at b ((tail b + i) mod currentMax b)"
    proof (cases "head b + i < currentMax b")
      case False
      moreover have "head b + i - currentMax b < head b" using False h i by linarith
      ultimately show ?thesis using h t i fld sl by (simp add: ring_pos)
    qed (use h t i fld sl in \<open>simp add: ring_pos\<close>)
    then show "contents b' ! i = contents b ! i" using i sz by (simp add: nth_contents)
  qed (simp add: sz)
  ultimately show ?thesis using m fld by (auto simp: b'_def same_setup_def)
qed

lemma makeBuffer_grows:
  assumes "bucket_inv b" "full b \<or> numBuffers b = 0" "numBuffers b < MAX_BUCKET_BUFFERS"
  shows "\<exists>b'. makeBuffer b = Inr b' \<and> bucket_inv b' \<and> contents b' = contents b \<and> \<not> full b' \<and>
     numBuffers b' = numBuffers b + 1 \<and> same_setup b b'"
  using assms makeBuffer_first makeBuffer_full by (cases "numBuffers b = 0") auto

section \<open>Putting and taking\<close>

lemma contents_Nil: "bucket_inv b \<Longrightarrow> (contents b = []) = empty b"
  using bucket_size_zero [of b] by (auto simp: contents_def)

lemma ring_dist_head:
  assumes "bucket_inv b" "\<not> full b" "k < currentMax b"
  shows "ring_dist (currentMax b) (tail b) k = bucket_size b \<longleftrightarrow> k = head b"
  using assms by (cases "numBuffers b = 0") (auto simp: bucket_inv_def bucket_shape_def bucket_size_def ring_dist_def)

lemma put_step:
  assumes inv: "bucket_inv b" and nf: "\<not> full b" and pos: "0 < numBuffers b"
  shows "\<exists>b'. putNoLock ob b = Inr b' \<and> bucket_inv b' \<and> contents b' = contents b @ [ob] \<and>
     numBuffers b' = numBuffers b \<and> same_setup b b'"
proof -
  let ?k = "head b" let ?cm = "currentMax b"
  have sh: "bucket_shape b" and h: "head b < ?cm" and t: "tail b < ?cm" using inv pos by (auto simp: bucket_inv_def)
  obtain buf where buf: "buffers b ! (?k div MAX_BUFFER_SLOTS) = Some buf"
    "slot_at b ?k = slots buf ! (?k mod MAX_BUFFER_SLOTS)" using sh h by (rule shape_buffer)
  have null: "slot_at b ?k = None"
    using inv h ring_dist_head [OF inv nf h] unfolding bucket_inv_def by auto
  define h' where "h' = (head b + 1) mod ?cm"
  define b' where "b' = (store_slot (?k div MAX_BUFFER_SLOTS) (?k mod MAX_BUFFER_SLOTS) (Some ob) b)
       \<lparr>head := h', full := (h' = tail b \<or> full b), empty := False\<rparr>"
  have put: "putNoLock ob b = Inr b'"
    using nf pos buf null by (simp add: putNoLock_def b'_def h'_def Let_def)
  have fld: "head b' = h'" "tail b' = tail b" "full b' = (h' = tail b)" "\<not> empty b'" "currentMax b' = ?cm"
    "numBuffers b' = numBuffers b" using nf by (simp_all add: b'_def)
  have h'_eq: "h' = (if head b + 1 = ?cm then 0 else head b + 1)" using h by (simp add: h'_def ring_arith)
  have sz: "bucket_size b' = bucket_size b + 1"
    using fld(1,2,3,5) h'_eq h t nf by (auto simp: bucket_size_def)
  have shape: "bucket_shape b'"
    using store_slot_shape [OF sh h, of "Some ob"] by (rule shape_cong [THEN iffD2, rotated 3]) (simp_all add: b'_def)
  have sl: "slot_at b' j = (if j = ?k then Some ob else slot_at b j)" if "j < ?cm" for j
    using slot_at_store_slot [OF sh h that, of "Some ob"] by (simp add: b'_def cong: slot_at_cong)
  have occ: "(slot_at b k \<noteq> None) = (ring_dist ?cm (tail b) k < bucket_size b)" if "k < ?cm" for k
    using inv that by (simp add: bucket_inv_def)
  have "(slot_at b' k \<noteq> None) = (ring_dist ?cm (tail b) k < bucket_size b')" if "k < ?cm" for k
    using sl [OF that] ring_dist_head [OF inv nf that] occ [OF that] sz by auto
  then have inv': "bucket_inv b'" using shape fld h t h'_eq pos by (auto simp: bucket_inv_def)
  have "contents b' = contents b @ [ob]"
  proof (rule nth_equalityI)
    fix i assume "i < length (contents b')"
    then have i: "i < bucket_size b + 1" using sz by simp
    moreover have "bucket_size b < ?cm" using sz bucket_size_le [OF inv'] fld by simp
    ultimately have pos: "(tail b + i) mod ?cm < ?cm" "ring_dist ?cm (tail b) ((tail b + i) mod ?cm) = i"
      using t ring_dist_pos [OF t, of i] by auto
    show "contents b' ! i = (contents b @ [ob]) ! i"
      using i sl [OF pos(1)] pos ring_dist_head [OF inv nf pos(1)] sz fld
      by (auto simp: nth_contents nth_append)
  qed (simp add: sz)
  then show ?thesis using put inv' fld by (auto simp: b'_def same_setup_def store_slot_def)
qed

lemma put_spec:
  assumes inv: "bucket_inv b" and room: "bucket_size b < MAX_BUCKET_BUFFERS * MAX_BUFFER_SLOTS"
  shows "\<exists>b'. putNoLock ob b = Inr b' \<and> bucket_inv b' \<and> contents b' = contents b @ [ob] \<and> same_setup b b'"
proof (cases "full b \<or> numBuffers b = 0")
  case True
  have "numBuffers b < MAX_BUCKET_BUFFERS"
    using True room inv by (auto simp: bucket_size_def bucket_inv_def bucket_shape_def MAX_BUCKET_BUFFERS_def)
  then obtain b1 where b1: "makeBuffer b = Inr b1" "bucket_inv b1" "contents b1 = contents b" "\<not> full b1"
    "numBuffers b1 = numBuffers b + 1" "same_setup b b1" using makeBuffer_grows [OF inv True] by blast
  then obtain b2 where "putNoLock ob b1 = Inr b2" "bucket_inv b2" "contents b2 = contents b1 @ [ob]" "same_setup b1 b2"
    using put_step [of b1 ob] by auto
  moreover from this(1) have "putNoLock ob b = Inr b2" using True b1 by (simp add: putNoLock_def)
  ultimately show ?thesis using b1 same_setup_trans [OF b1(6)] by auto
next
  case False
  then show ?thesis using put_step [OF inv] by auto
qed

text \<open>A bucket that holds the maximal number of objects stops the process on the next put.\<close>

lemma put_overflow:
  assumes inv: "bucket_inv b" and sz: "bucket_size b = MAX_BUCKET_BUFFERS * MAX_BUFFER_SLOTS"
  shows "putNoLock ob b = Inl NoMoreBuffers"
proof -
  have "numBuffers b = MAX_BUCKET_BUFFERS"
    using bucket_size_le [OF inv] inv sz by (auto simp: bucket_inv_def bucket_shape_def dest: le_antisym)
  then have "currentMax b = bucket_size b" using inv sz by (auto simp: bucket_inv_def bucket_shape_def)
  moreover have "0 < bucket_size b" by (simp add: sz MAX_BUCKET_BUFFERS_def)
  ultimately have "full b" using inv by (auto simp: bucket_size_def bucket_inv_def split: if_splits)
  then show ?thesis using \<open>numBuffers b = MAX_BUCKET_BUFFERS\<close> by (simp add: putNoLock_def makeBuffer_def)
qed

lemma take_spec:
  assumes inv: "bucket_inv b" and ne: "\<not> empty b"
  shows "\<exists>ob b'. takeNoLock b = Inr (ob, b') \<and> bucket_inv b' \<and> contents b = ob # contents b' \<and> same_setup b b'"
proof -
  let ?k = "tail b" let ?cm = "currentMax b"
  have pos: "0 < numBuffers b" using inv ne by (auto simp: bucket_inv_def)
  then have sh: "bucket_shape b" and h: "head b < ?cm" and t: "tail b < ?cm" using inv by (auto simp: bucket_inv_def)
  have eq: "head b = tail b \<longleftrightarrow> full b" using inv ne by (auto simp: bucket_inv_def)
  have sz0: "0 < bucket_size b" using bucket_size_zero [OF inv] ne by simp
  obtain buf where buf: "buffers b ! (?k div MAX_BUFFER_SLOTS) = Some buf"
    "slot_at b ?k = slots buf ! (?k mod MAX_BUFFER_SLOTS)" using sh t by (rule shape_buffer)
  have "slot_at b ?k \<noteq> None" using inv t sz0 by (simp add: bucket_inv_def ring_dist_def)
  then obtain ob where ob: "slot_at b ?k = Some ob" and slot: "slots buf ! (?k mod MAX_BUFFER_SLOTS) = Some ob"
    using buf(2) by auto
  define t' where "t' = (tail b + 1) mod ?cm"
  define b' where "b' = (store_slot (?k div MAX_BUFFER_SLOTS) (?k mod MAX_BUFFER_SLOTS) None b)
       \<lparr>tail := t', empty := (t' = head b \<or> empty b), full := False\<rparr>"
  have take: "takeNoLock b = Inr (ob, b')" using buf(1) slot by (simp add: takeNoLock_def b'_def t'_def Let_def)
  have fld: "tail b' = t'" "head b' = head b" "empty b' = (t' = head b)" "\<not> full b'" "currentMax b' = ?cm"
    "numBuffers b' = numBuffers b" using ne by (simp_all add: b'_def)
  have t'_eq: "t' = (if tail b + 1 = ?cm then 0 else tail b + 1)" using t by (simp add: t'_def ring_arith)
  have sz: "bucket_size b = bucket_size b' + 1"
    using fld(1,2,4,5) t'_eq h t ne eq by (auto simp: bucket_size_def)
  have shape: "bucket_shape b'"
    using store_slot_shape [OF sh t, of None] by (rule shape_cong [THEN iffD2, rotated 3]) (simp_all add: b'_def)
  have sl: "slot_at b' j = (if j = ?k then None else slot_at b j)" if "j < ?cm" for j
    using slot_at_store_slot [OF sh t that, of None] by (simp add: b'_def cong: slot_at_cong)
  have dist: "ring_dist ?cm (tail b) k = (if k = tail b then 0 else ring_dist ?cm t' k + 1)"
    "k = tail b \<Longrightarrow> ring_dist ?cm t' k = ?cm - 1" if "k < ?cm" for k
    using that t t'_eq by (auto simp: ring_dist_def)
  have occ: "(slot_at b k \<noteq> None) = (ring_dist ?cm (tail b) k < bucket_size b)" if "k < ?cm" for k
    using inv that by (simp add: bucket_inv_def)
  have "(slot_at b' k \<noteq> None) = (ring_dist ?cm t' k < bucket_size b')" if "k < ?cm" for k
    using sl [OF that] dist [OF that] occ [OF that] sz bucket_size_le [OF inv] by auto
  then have inv': "bucket_inv b'" using shape fld h t t'_eq pos by (auto simp: bucket_inv_def)
  have "contents b = ob # contents b'"
  proof (rule nth_equalityI)
    fix i assume "i < length (contents b)"
    then have i: "i < bucket_size b" by simp
    show "contents b ! i = (ob # contents b') ! i"
    proof (cases i)
      case 0
      then show ?thesis using i t ob by (simp add: nth_contents)
    next
      case (Suc j)
      have jcm: "j + 1 < ?cm" using i Suc bucket_size_le [OF inv] by simp
      have p: "(t' + j) mod ?cm = (tail b + i) mod ?cm" unfolding t'_def Suc by (simp add: mod_add_left_eq)
      have "ring_dist ?cm (tail b) ((tail b + i) mod ?cm) = i" using ring_dist_pos [OF t, of i] jcm Suc by simp
      then have "(tail b + i) mod ?cm \<noteq> tail b" using Suc by (auto simp: ring_dist_def)
      moreover have "(tail b + i) mod ?cm < ?cm" using t by simp
      ultimately have "slot_at b' ((t' + j) mod ?cm) = slot_at b ((tail b + i) mod ?cm)" using sl p by simp
      then show ?thesis using i Suc sz fld by (simp add: nth_contents)
    qed
  qed (simp add: sz)
  then show ?thesis using take inv' by (auto simp: b'_def same_setup_def store_slot_def)
qed

interpretation bucket_fifo: bounded_fifo putNoLock takeNoLock contents bucket_inv
    "\<lambda>_. MAX_BUCKET_BUFFERS * MAX_BUFFER_SLOTS"
proof (unfold_locales, goal_cases)
  case (1 b ob)
  then show ?case using put_spec [of b ob] by auto
next
  case (2 b ob)
  then show ?case using put_overflow [of b ob] by simp
next
  case (3 b)
  then show ?case using take_spec [of b] contents_Nil [of b] by auto
qed

section \<open>Making and getting objects\<close>

lemma make_spec:
  assumes "bucket_inv b" "bucket_size b + n \<le> MAX_BUCKET_BUFFERS * MAX_BUFFER_SLOTS"
  shows "\<exists>m' b'. make n m b = Inr (m', b') \<and> bucket_inv b' \<and> same_setup b b' \<and>
     contents b' = contents b @ [next_obj m..<next_obj m + n] \<and> next_obj m' = next_obj m + n \<and>
     (\<forall>a. stamps m' a = (if next_obj m \<le> a \<and> a < next_obj m + n then Some (stamp b) else stamps m a))"
  using assms
proof (induction n arbitrary: m b)
  case 0
  then show ?case by auto
next
  case (Suc n)
  let ?ob = "next_obj m"
  define m1 where "m1 = snd (alloc_stamped (stamp b) m)"
  obtain b1 where b1: "putNoLock ?ob b = Inr b1" "bucket_inv b1" "contents b1 = contents b @ [?ob]" "same_setup b b1"
    using put_spec [OF Suc.prems(1), of ?ob] Suc.prems(2) by auto
  have "bucket_size b1 + n \<le> MAX_BUCKET_BUFFERS * MAX_BUFFER_SLOTS"
    using arg_cong [OF b1(3), of length] Suc.prems(2) by simp
  with Suc.IH [OF b1(2), of m1] obtain m' b' where step:
    "make n m1 b1 = Inr (m', b')" "bucket_inv b'" "same_setup b1 b'"
    "contents b' = contents b1 @ [next_obj m1..<next_obj m1 + n]" "next_obj m' = next_obj m1 + n"
    "\<forall>a. stamps m' a = (if next_obj m1 \<le> a \<and> a < next_obj m1 + n then Some (stamp b1) else stamps m1 a)"
    by blast
  have "make (Suc n) m b = Inr (m', b')" using step(1) b1(1) by (simp add: alloc_stamped_def m1_def)
  moreover have "contents b' = contents b @ [next_obj m..<next_obj m + Suc n]"
    using step(4) b1(3) by (simp add: m1_def alloc_stamped_def upt_conv_Cons)
  moreover have "same_setup b b'" using b1(4) step(3) by (rule same_setup_trans)
  moreover have "next_obj m' = next_obj m + Suc n" using step(5) by (simp add: m1_def alloc_stamped_def)
  moreover have "stamps m' a = (if next_obj m \<le> a \<and> a < next_obj m + Suc n then Some (stamp b) else stamps m a)" for a
    using step(6) b1(4) by (auto simp: m1_def alloc_stamped_def same_setup_def)
  ultimately show ?case using step(2) by blast
qed

lemma get_nonempty:
  assumes inv: "bucket_inv b" and ne: "contents b \<noteq> []"
  shows "\<exists>ob b'. getNoLock m b = Inr (ob, m, b') \<and> bucket_inv b' \<and> same_setup b b' \<and> contents b = ob # contents b'"
proof -
  have e: "\<not> empty b" using contents_Nil [OF inv] ne by simp
  obtain ob b' where b': "takeNoLock b = Inr (ob, b')" "bucket_inv b'" "contents b = ob # contents b'" "same_setup b b'"
    using take_spec [OF inv e] by blast
  have "getNoLock m b = Inr (ob, m, b')" using e b'(1) by (simp add: getNoLock_def)
  then show ?thesis using b' by blast
qed

lemma get_empty:
  assumes inv: "bucket_inv b" and e: "contents b = []"
    and q: "0 < quantInc b" "quantInc b \<le> MAX_BUCKET_BUFFERS * MAX_BUFFER_SLOTS"
  shows "\<exists>m' b'. getNoLock m b = Inr (next_obj m, m', b') \<and> bucket_inv b' \<and> same_setup b b' \<and>
     contents b' = [Suc (next_obj m)..<next_obj m + quantInc b] \<and> next_obj m' = next_obj m + quantInc b \<and>
     (\<forall>a. stamps m' a = (if next_obj m \<le> a \<and> a < next_obj m + quantInc b then Some (stamp b) else stamps m a))"
proof -
  have "empty b" using contents_Nil [OF inv] e by simp
  moreover have "bucket_size b = 0" using bucket_size_zero [OF inv] calculation by simp
  ultimately obtain m1 b1 where b1: "make (quantInc b) m b = Inr (m1, b1)" "bucket_inv b1" "same_setup b b1"
    "contents b1 = [next_obj m..<next_obj m + quantInc b]" "next_obj m1 = next_obj m + quantInc b"
    "\<forall>a. stamps m1 a = (if next_obj m \<le> a \<and> a < next_obj m + quantInc b then Some (stamp b) else stamps m a)"
    using make_spec [OF inv, of "quantInc b" m] q e by auto
  have c1: "contents b1 = next_obj m # [Suc (next_obj m)..<next_obj m + quantInc b]"
    using b1(4) q(1) by (simp add: upt_conv_Cons)
  then have "\<not> empty b1" using contents_Nil [OF b1(2)] by simp
  from take_spec [OF b1(2) this] obtain ob b2 where b2:
    "takeNoLock b1 = Inr (ob, b2)" "bucket_inv b2" "contents b1 = ob # contents b2" "same_setup b1 b2"
    by blast
  have ob: "ob = next_obj m" and c2: "contents b2 = [Suc (next_obj m)..<next_obj m + quantInc b]"
    using b2(3) c1 by auto
  have "getNoLock m b = Inr (next_obj m, m1, b2)" using \<open>empty b\<close> b1(1) b2(1) ob by (simp add: getNoLock_def)
  moreover have "same_setup b b2" using b1(3) b2(4) by (rule same_setup_trans)
  ultimately show ?thesis using b1(5,6) b2(2) c2 by blast
qed

lemma new_bucket_inv: "bucket_inv (new_bucket sz)" "contents (new_bucket sz) = []"
  by (simp_all add: new_bucket_def bucket_inv_def bucket_shape_def contents_def bucket_size_def)

section \<open>Properties\<close>

text \<open>A bucket of \<open>n\<close> full buffers, for the boundary cases.\<close>

definition full_bucket :: "nat \<Rightarrow> bucket" where
  "full_bucket n = (new_bucket 64)\<lparr>full := True, empty := False, numBuffers := n, currentMax := n * MAX_BUFFER_SLOTS,
     buffers := replicate n (Some \<lparr>slots = replicate MAX_BUFFER_SLOTS (Some 7), buf_bucketNum = 0\<rparr>) @
       replicate (MAX_BUCKET_BUFFERS - n) None\<rparr>"

lemma full_bucket_inv:
  assumes "0 < n" "n \<le> MAX_BUCKET_BUFFERS"
  shows "bucket_inv (full_bucket n)" "bucket_size (full_bucket n) = n * MAX_BUFFER_SLOTS"
    "numBuffers (full_bucket n) = n" "full (full_bucket n)"
proof -
  show sz: "bucket_size (full_bucket n) = n * MAX_BUFFER_SLOTS" "numBuffers (full_bucket n) = n" "full (full_bucket n)"
    by (simp_all add: full_bucket_def bucket_size_def)
  have "slot_at (full_bucket n) k = Some 7" if "k < n * MAX_BUFFER_SLOTS" for k
    using that by (simp add: slot_at_def full_bucket_def nth_append less_mult_imp_div_less)
  then show "bucket_inv (full_bucket n)"
    using assms sz by (auto simp: bucket_inv_def bucket_shape_def full_bucket_def new_bucket_def nth_append ring_dist_def)
qed

text \<open>C4. A bucket is a first-in first-out queue. For every sequence of puts and takes that a list
  can serve, \<open>putNoLock\<close> and the taking half of \<open>getNoLock\<close> return the objects a list would
  return, in the same order, leave the invariant true and the queue equal to the list, however
  often the bucket wraps around or grows in between.\<close>

theorem bucket_refines_queue:
  assumes "bucket_inv b" and "run_list cs (contents b) = Some (out, q)"
    and "bucket_size b + n_puts cs \<le> MAX_BUCKET_BUFFERS * MAX_BUFFER_SLOTS"
  shows "\<exists>b'. run_fifo putNoLock takeNoLock cs b = Inr (out, b') \<and> bucket_inv b' \<and> contents b' = q"
  using bucket_fifo.run_refines [of b cs out q] assms by simp

theorem bucket_refines_queue_witness:
  "bucket_inv (new_bucket 64) \<and>
   (\<exists>b'. run_fifo putNoLock takeNoLock [Put 5, Put 6, Take, Put 7, Take] (new_bucket 64) = Inr ([5, 6], b') \<and>
      bucket_inv b' \<and> contents b' = [7])"
proof -
  have "bucket_size (new_bucket 64) = 0" by (simp add: new_bucket_def bucket_size_def)
  then show ?thesis
    using bucket_refines_queue [of "new_bucket 64" "[Put 5, Put 6, Take, Put 7, Take]" "[5, 6]" "[7]"]
    by (simp add: new_bucket_inv MAX_BUCKET_BUFFERS_def MAX_BUFFER_SLOTS_def)
qed

text \<open>C13. Growing a full bucket by one buffer, which splits the buffer at the head, moves slots
  and shifts \<open>tail\<close>, keeps the queue and the invariant and leaves room for \<open>MAX_BUFFER_SLOTS\<close>
  more objects.\<close>

theorem makeBuffer_keeps_queue:
  assumes "bucket_inv b" "full b" "numBuffers b < MAX_BUCKET_BUFFERS"
  shows "\<exists>b'. makeBuffer b = Inr b' \<and> bucket_inv b' \<and> contents b' = contents b \<and> \<not> full b' \<and>
     currentMax b' = bucket_size b' + MAX_BUFFER_SLOTS"
proof -
  obtain b' where b': "makeBuffer b = Inr b'" "bucket_inv b'" "contents b' = contents b" "\<not> full b'"
    "numBuffers b' = numBuffers b + 1" using makeBuffer_full [OF assms] by blast
  have "bucket_size b' = currentMax b"
    using b'(3) length_contents [of b'] length_contents [of b] assms(2) by (simp add: bucket_size_def)
  moreover have "currentMax b' = currentMax b + MAX_BUFFER_SLOTS"
    using b'(2,5) assms(1) by (simp add: bucket_inv_def bucket_shape_def)
  ultimately show ?thesis using b' by auto
qed

theorem makeBuffer_keeps_queue_witness:
  "full (full_bucket 2) \<and> (\<exists>b'. makeBuffer (full_bucket 2) = Inr b' \<and> bucket_inv b' \<and>
     contents b' = contents (full_bucket 2) \<and> \<not> full b' \<and> currentMax b' = bucket_size b' + MAX_BUFFER_SLOTS)"
proof -
  have two: "0 < (2::nat)" "2 \<le> MAX_BUCKET_BUFFERS" "(2::nat) < MAX_BUCKET_BUFFERS" by (simp_all add: MAX_BUCKET_BUFFERS_def)
  show ?thesis using makeBuffer_keeps_queue [of "full_bucket 2"] full_bucket_inv [OF two(1,2)] two(3) by simp
qed

text \<open>C37. The only way a put fails on a well-formed bucket is the bucket holding
  \<open>MAX_BUCKET_BUFFERS * MAX_BUFFER_SLOTS\<close> objects, where the code gives up in \<open>makeBuffer\<close>;
  otherwise the object is appended to the queue.\<close>

theorem putNoLock_fails_only_when_exhausted:
  assumes "bucket_inv b"
  shows "(bucket_size b = MAX_BUCKET_BUFFERS * MAX_BUFFER_SLOTS \<and> putNoLock ob b = Inl NoMoreBuffers) \<or>
     (bucket_size b < MAX_BUCKET_BUFFERS * MAX_BUFFER_SLOTS \<and>
       (\<exists>b'. putNoLock ob b = Inr b' \<and> bucket_inv b' \<and> contents b' = contents b @ [ob]))"
proof -
  have "currentMax b \<le> MAX_BUCKET_BUFFERS * MAX_BUFFER_SLOTS"
    using assms by (simp add: bucket_inv_def bucket_shape_def)
  then have "bucket_size b \<le> MAX_BUCKET_BUFFERS * MAX_BUFFER_SLOTS" using bucket_size_le [OF assms] by simp
  then consider "bucket_size b = MAX_BUCKET_BUFFERS * MAX_BUFFER_SLOTS" | "bucket_size b < MAX_BUCKET_BUFFERS * MAX_BUFFER_SLOTS"
    by linarith
  then show ?thesis using put_overflow [OF assms] put_spec [OF assms, of ob] by cases auto
qed

theorem putNoLock_fails_only_when_exhausted_witness:
  "bucket_inv (full_bucket MAX_BUCKET_BUFFERS) \<and> putNoLock 9 (full_bucket MAX_BUCKET_BUFFERS) = Inl NoMoreBuffers"
proof -
  have "0 < MAX_BUCKET_BUFFERS" by (simp add: MAX_BUCKET_BUFFERS_def)
  from full_bucket_inv [OF this order_refl] show ?thesis
    using putNoLock_fails_only_when_exhausted [of "full_bucket MAX_BUCKET_BUFFERS" 9] by simp
qed

end
