(* ===== verification/Resource_Spec.thy ===== *)
theory Resource_Spec
  imports Daqdb_Prelude
begin

text \<open>
  The contract of a supply of resources, as a locale: the object pools and the allocator of disk
  blocks are both used through it. What is got is not in use, and what is put back becomes free.
  \<open>run_supply\<close> drives an implementation with a client that returns only what it holds; the
  locale's main fact is that the client never holds a resource twice.
\<close>

text \<open>A client step takes a resource or returns the \<open>k\<close>-th of those it holds.\<close>

datatype supply_cmd = Acquire | Release nat

fun run_supply :: "('s \<Rightarrow> 'e + 'o \<times> 's) \<Rightarrow> ('o \<Rightarrow> 's \<Rightarrow> 'e + 's) \<Rightarrow> supply_cmd list \<Rightarrow> 'o list \<Rightarrow> 's \<Rightarrow> 'e + 'o list \<times> 's" where
  "run_supply get put [] out s = Inr (out, s)"
| "run_supply get put (Acquire # cs) out s =
     (case get s of Inl e \<Rightarrow> Inl e | Inr (ob, s) \<Rightarrow> run_supply get put cs (ob # out) s)"
| "run_supply get put (Release k # cs) out s =
     (if k < length out
      then (case put (out ! k) s of Inl e \<Rightarrow> Inl e | Inr s \<Rightarrow> run_supply get put cs (remove1 (out ! k) out) s)
      else run_supply get put cs out s)"

locale resource_supply =
  fixes get :: "'s \<Rightarrow> 'e + 'o \<times> 's" and put :: "'o \<Rightarrow> 's \<Rightarrow> 'e + 's"
    and inv :: "'o list \<Rightarrow> 's \<Rightarrow> bool" and exhausted :: "'e set"
  assumes get_fresh: "inv out s \<Longrightarrow> (\<exists>e \<in> exhausted. get s = Inl e) \<or> (\<exists>ob s'. get s = Inr (ob, s') \<and> inv (ob # out) s')"
    and put_back: "inv out s \<Longrightarrow> ob \<in> set out \<Longrightarrow>
      (\<exists>e \<in> exhausted. put ob s = Inl e) \<or> (\<exists>s'. put ob s = Inr s' \<and> inv (remove1 ob out) s')"
    and in_use_once: "inv out s \<Longrightarrow> distinct out"
begin

lemma run_supply_safe:
  "inv out s \<Longrightarrow> (\<exists>e \<in> exhausted. run_supply get put cs out s = Inl e) \<or>
     (\<exists>out' s'. run_supply get put cs out s = Inr (out', s') \<and> inv out' s' \<and> distinct out')"
proof (induction cs arbitrary: out s)
  case Nil
  then show ?case by (simp add: in_use_once)
next
  case (Cons c cs)
  show ?case
  proof (cases c)
    case Acquire
    then show ?thesis using get_fresh [OF Cons.prems] Cons.IH by fastforce
  next
    case (Release k)
    then show ?thesis using put_back [OF Cons.prems, of "out ! k"] Cons.IH Cons.prems by fastforce
  qed
qed

end

end
