(* ===== verification/General_Pool.thy ===== *)
theory General_Pool
  imports Pool_Bucket Resource_Spec "HOL-Library.Multiset"
begin

text \<open>
  Object pools: \<^verbatim>\<open>lib/common/GeneralPool.h\<close> over the buckets of \<open>Pool_Bucket\<close>, and the registry
  of pools (\<^verbatim>\<open>GeneralPoolBase\<close>, \<^verbatim>\<open>PoolManager\<close>). Every object carries a stamp, the number of its bucket and its size in one
  word; \<open>put\<close> reads it to find the bucket to return the object to. The invariant \<open>pool_inv\<close>
  follows every object, in a bucket or handed out, so that a pool never hands out an object twice.
\<close>

unbundle bit_operations_syntax

section \<open>Pools\<close>

definition MAX_POOL_BUCKETS :: nat where
  "MAX_POOL_BUCKETS = 64"

record pool =
  counter :: u32
  pool_objSize :: u32
  buckets :: "bucket list"

text \<open>The bodies of the constructor's loop and the loop itself, over the remaining buckets.\<close>

definition setup_bucket :: "alloc_strategy \<Rightarrow> nat \<Rightarrow> obj_mem \<Rightarrow> bucket \<Rightarrow> pool_error + obj_mem \<times> bucket" where
  "setup_bucket strat cnt m b = setStrategy strat m (makeStamp (setBucketNum (of_nat cnt) b))"

fun setup_buckets :: "alloc_strategy \<Rightarrow> nat \<Rightarrow> obj_mem \<Rightarrow> bucket list \<Rightarrow> pool_error + obj_mem \<times> bucket list" where
  "setup_buckets strat cnt m [] = Inr (m, [])"
| "setup_buckets strat cnt m (b # bs) =
     (case setup_bucket strat cnt m b of Inl e \<Rightarrow> Inl e
      | Inr (m, b) \<Rightarrow>
         (case setup_buckets strat (cnt + 1) m bs of Inl e \<Rightarrow> Inl e | Inr (m, bs) \<Rightarrow> Inr (m, b # bs)))"

definition GeneralPool :: "alloc_strategy \<Rightarrow> u32 \<Rightarrow> obj_mem \<Rightarrow> pool_error + obj_mem \<times> pool" where
  "GeneralPool strat objSz m =
     (case setup_buckets strat 0 m (replicate MAX_POOL_BUCKETS (new_bucket objSz)) of
        Inl e \<Rightarrow> Inl e
      | Inr (m, bs) \<Rightarrow> Inr (m, \<lparr>counter = 0, pool_objSize = objSz, buckets = bs\<rparr>))"

definition pool_get :: "obj_mem \<Rightarrow> pool \<Rightarrow> pool_error + obj \<times> obj_mem \<times> pool" where
  "pool_get m p =
     (let local_counter = counter p;
          p = p\<lparr>counter := local_counter + 1\<rparr>;
          i = unat local_counter mod MAX_POOL_BUCKETS
      in case getNoLock m (buckets p ! i) of
           Inl e \<Rightarrow> Inl e
         | Inr (tmp_obj, m, b) \<Rightarrow> Inr (tmp_obj, m, p\<lparr>buckets := (buckets p)[i := b]\<rparr>))"

definition pool_get_from :: "nat \<Rightarrow> obj_mem \<Rightarrow> pool \<Rightarrow> pool_error + obj \<times> obj_mem \<times> pool" where
  "pool_get_from i m p =
     (if \<not> i < MAX_POOL_BUCKETS then Inl AssertionFailed
      else case getNoLock m (buckets p ! i) of
             Inl e \<Rightarrow> Inl e
           | Inr (tmp_obj, m, b) \<Rightarrow> Inr (tmp_obj, m, p\<lparr>buckets := (buckets p)[i := b]\<rparr>))"

definition stamp_size :: "u32 \<Rightarrow> u32" where
  "stamp_size st = st AND BUCKET_SIZE_MASK"

definition stamp_bucket :: "u32 \<Rightarrow> u32" where
  "stamp_bucket st = drop_bit BUCKET_NUMBER_SHIFT st AND BUCKET_NUMBER_MASK"

definition pool_put :: "obj \<Rightarrow> obj_mem \<Rightarrow> pool \<Rightarrow> pool_error + pool" where
  "pool_put ob m p =
     (case stamps m ob of
        None \<Rightarrow> Inl BadObject
      | Some st \<Rightarrow>
         (let bucket_size = stamp_size st; bucket_number = unat (stamp_bucket st)
          in if bucket_size \<noteq> pool_objSize p then Inl WrongPool
             else if MAX_POOL_BUCKETS \<le> bucket_number then Inl BucketOutOfRange
             else case putNoLock ob (buckets p ! bucket_number) of
                    Inl e \<Rightarrow> Inl e
                  | Inr b \<Rightarrow> Inr (p\<lparr>buckets := (buckets p)[bucket_number := b]\<rparr>)))"

definition pool_put_to :: "obj \<Rightarrow> nat \<Rightarrow> obj_mem \<Rightarrow> pool \<Rightarrow> pool_error + pool" where
  "pool_put_to ob i m p = (if \<not> i < MAX_POOL_BUCKETS then Inl AssertionFailed else pool_put ob m p)"

section \<open>The registry of pools\<close>

text \<open>\<open>idGener\<close> is a 16-bit counter; \<open>insert\<close> of the map keeps an entry that is already there.\<close>

record pool_registry =
  idGener :: u16
  pools :: "u16 \<rightharpoonup> nat" \<comment> \<open>pool id to pool\<close>

definition new_registry :: pool_registry where
  "new_registry = \<lparr>idGener = 1, pools = Map.empty\<rparr>"

definition registerPool :: "u16 \<Rightarrow> nat \<Rightarrow> pool_registry \<Rightarrow> pool_registry" where
  "registerPool i p r = (if pools r i = None then r\<lparr>pools := (pools r)(i \<mapsto> p)\<rparr> else r)"

definition unregisterPool :: "u16 \<Rightarrow> pool_registry \<Rightarrow> pool_registry" where
  "unregisterPool i r = (if pools r i \<noteq> None then r\<lparr>pools := (pools r)(i := None)\<rparr> else r)"

definition GeneralPoolBase :: "nat \<Rightarrow> pool_registry \<Rightarrow> u16 \<times> pool_registry" where
  "GeneralPoolBase p r = (let i = idGener r in (i, registerPool i p (r\<lparr>idGener := i + 1\<rparr>)))"

section \<open>Stamps\<close>

definition mk_stamp :: "nat \<Rightarrow> u32 \<Rightarrow> u32" where
  "mk_stamp i sz = push_bit BUCKET_NUMBER_SHIFT (of_nat i) + sz"

lemma stamp_arith:
  fixes st :: u32
  shows "unat (stamp_size st) = unat st mod 2 ^ 24" and "unat (stamp_bucket st) = unat st div 2 ^ 24"
proof -
  have m: "BUCKET_SIZE_MASK = mask 24" "BUCKET_NUMBER_MASK = mask 8"
    by (simp_all add: BUCKET_SIZE_MASK_def BUCKET_NUMBER_MASK_def mask_eq_exp_minus_1)
  have tb: "stamp_size st = take_bit 24 st" "stamp_bucket st = take_bit 8 (drop_bit 24 st)"
    unfolding stamp_size_def stamp_bucket_def m take_bit_eq_mask BUCKET_NUMBER_SHIFT_def by (rule refl)+
  show "unat (stamp_size st) = unat st mod 2 ^ 24"
    unfolding tb by (simp only: unsigned_take_bit_eq) (simp add: take_bit_eq_mod)
  have "unat (stamp_bucket st) = (unat st div 2 ^ 24) mod 2 ^ 8"
    unfolding tb by (simp only: unsigned_take_bit_eq unat_drop_bit_eq) (simp add: take_bit_eq_mod drop_bit_eq_div)
  moreover have "unat st div 2 ^ 24 < 2 ^ 8" using unsigned_less [of st, where ?'a = nat] by (simp add: less_mult_imp_div_less)
  ultimately show "unat (stamp_bucket st) = unat st div 2 ^ 24" by simp
qed

lemma unat_mk_stamp:
  assumes "i < 256" "unat sz < 2 ^ 24"
  shows "unat (mk_stamp i sz) = i * 2 ^ 24 + unat sz"
proof -
  have u: "unat (push_bit 24 (of_nat i) :: u32) = i * 2 ^ 24"
    using assms(1) by (simp add: push_bit_eq_mult unat_word_ariths unat_of_nat)
  show ?thesis using assms u by (simp add: mk_stamp_def BUCKET_NUMBER_SHIFT_def unat_word_ariths)
qed

lemma stamp_decode:
  assumes "i < 256" "unat sz < 2 ^ 24"
  shows "stamp_size (mk_stamp i sz) = sz" and "unat (stamp_bucket (mk_stamp i sz)) = i"
  using assms by (simp_all add: stamp_arith unat_mk_stamp word_unat_eq_iff)

section \<open>Following every object\<close>

definition BUCKET_CAPACITY :: nat where
  "BUCKET_CAPACITY = MAX_BUCKET_BUFFERS * MAX_BUFFER_SLOTS"

definition bucket_ok :: "u32 \<Rightarrow> nat \<Rightarrow> bucket \<Rightarrow> bool" where
  "bucket_ok sz i b \<longleftrightarrow> bucket_inv b \<and> stamp b = mk_stamp i sz \<and> 0 < quantInc b \<and> quantInc b \<le> BUCKET_CAPACITY"

definition pooled :: "pool \<Rightarrow> obj list" where
  "pooled p = concat (map contents (buckets p))"

text \<open>\<open>out\<close> lists the objects handed out and not yet returned.\<close>

definition pool_inv :: "obj list \<Rightarrow> obj_mem \<Rightarrow> pool \<Rightarrow> bool" where
  "pool_inv out m p \<longleftrightarrow>
     length (buckets p) = MAX_POOL_BUCKETS \<and> unat (pool_objSize p) < 2 ^ 24 \<and>
     (\<forall>i < MAX_POOL_BUCKETS. bucket_ok (pool_objSize p) i (buckets p ! i)) \<and>
     (\<forall>i < MAX_POOL_BUCKETS. \<forall>a \<in> set (contents (buckets p ! i)). stamps m a = Some (mk_stamp i (pool_objSize p))) \<and>
     (\<forall>a \<in> set out. \<exists>i < MAX_POOL_BUCKETS. stamps m a = Some (mk_stamp i (pool_objSize p))) \<and>
     (\<forall>a. stamps m a \<noteq> None \<longrightarrow> a < next_obj m) \<and>
     distinct (pooled p @ out)"

lemma bucket_ok_setup: "bucket_ok sz i b \<Longrightarrow> same_setup b b' \<Longrightarrow> bucket_inv b' \<Longrightarrow> bucket_ok sz i b'"
  by (simp add: bucket_ok_def same_setup_def)

lemma mset_concat_update:
  "i < length xs \<Longrightarrow> mset (concat (map f (xs[i := y]))) + mset (f (xs ! i)) = mset (concat (map f xs)) + mset (f y)"
proof (induction xs arbitrary: i)
  case (Cons x xs)
  then show ?case by (cases i) (auto simp: ac_simps)
qed simp

lemma mset_pooled_update:
  "i < length (buckets p) \<Longrightarrow>
     mset (pooled (p\<lparr>buckets := (buckets p)[i := b]\<rparr>)) + mset (contents (buckets p ! i)) = mset (pooled p) + mset (contents b)"
  by (simp add: pooled_def mset_concat_update)

lemma set_pooled: "set (pooled p) = (\<Union>i < length (buckets p). set (contents (buckets p ! i)))"
proof -
  have "set (buckets p) = (!) (buckets p) ` {..<length (buckets p)}"
    by (simp add: lessThan_atLeast0 set_conv_nth image_def) auto
  then show ?thesis by (simp add: pooled_def)
qed

lemma pooled_counter [simp]: "pooled (p\<lparr>counter := c\<rparr>) = pooled p"
  by (simp add: pooled_def)

lemma pool_inv_counter [simp]: "pool_inv out m (p\<lparr>counter := c\<rparr>) = pool_inv out m p"
  by (simp add: pool_inv_def)

lemma pool_inv_old: "pool_inv out m p \<Longrightarrow> a \<in> set (pooled p) \<union> set out \<Longrightarrow> a < next_obj m"
  by (fastforce simp: pool_inv_def set_pooled)

text \<open>Replacing one bucket and the list of handed-out objects keeps the invariant when the
  objects are the same, together with fresh ones.\<close>

lemma pool_inv_update:
  assumes inv: "pool_inv out m p" and i: "i < MAX_POOL_BUCKETS"
    and b: "bucket_ok (pool_objSize p) i b"
    and st: "\<And>a. stamps m a \<noteq> None \<Longrightarrow> stamps m' a = stamps m a"
      "\<And>a. stamps m' a \<noteq> None \<Longrightarrow> a < next_obj m'"
    and new: "\<And>a. a \<in> set (contents b) \<Longrightarrow> stamps m' a = Some (mk_stamp i (pool_objSize p))"
      "\<And>a. a \<in> set out' \<Longrightarrow> a \<in> set out \<or> stamps m' a = Some (mk_stamp i (pool_objSize p))"
    and d: "mset (contents b) + mset out' = mset (contents (buckets p ! i)) + mset out + mset fresh"
      "distinct fresh" "\<And>a. a \<in> set fresh \<Longrightarrow> next_obj m \<le> a"
  shows "pool_inv out' m' (p\<lparr>buckets := (buckets p)[i := b]\<rparr>)"
proof -
  let ?p = "p\<lparr>buckets := (buckets p)[i := b]\<rparr>"
  have len: "length (buckets p) = MAX_POOL_BUCKETS" using inv by (simp add: pool_inv_def)
  have "mset (pooled ?p @ out') + mset (contents (buckets p ! i)) = mset (pooled p) + (mset (contents b) + mset out')"
    using mset_pooled_update [of i p b] i len by (simp add: ac_simps)
  then have "mset (pooled ?p @ out') = mset ((pooled p @ out) @ fresh)"
    unfolding d(1) by (simp add: ac_simps)
  moreover have "distinct ((pooled p @ out) @ fresh)"
    using inv d(2,3) pool_inv_old [OF inv] by (fastforce simp: pool_inv_def)
  ultimately have dist: "distinct (pooled ?p @ out')" using mset_eq_imp_distinct_iff by blast
  have out: "\<exists>j < MAX_POOL_BUCKETS. stamps m' a = Some (mk_stamp j (pool_objSize p))" if "a \<in> set out'" for a
  proof (cases "a \<in> set out")
    case True
    then obtain j where "j < MAX_POOL_BUCKETS" "stamps m a = Some (mk_stamp j (pool_objSize p))"
      using inv by (auto simp: pool_inv_def)
    then show ?thesis using st(1) [of a] by auto
  qed (use new(2) [OF that] i in auto)
  have inb: "stamps m' a = Some (mk_stamp j (pool_objSize p))"
    if "j < MAX_POOL_BUCKETS" "a \<in> set (contents ((buckets p)[i := b] ! j))" for j a
  proof (cases "j = i")
    case False
    then have "stamps m a = Some (mk_stamp j (pool_objSize p))" using that inv by (simp add: pool_inv_def)
    then show ?thesis using st(1) [of a] by simp
  qed (use that new(1) i len in auto)
  show ?thesis using inv b i st(2) dist out inb by (simp add: pool_inv_def nth_list_update)
qed

lemma bucket_ok_size: "bucket_ok sz i b \<Longrightarrow> bucket_size b \<le> BUCKET_CAPACITY"
  using bucket_size_le [of b]
  by (auto simp: bucket_ok_def bucket_inv_def bucket_shape_def BUCKET_CAPACITY_def intro: order_trans)

definition get_post :: "nat \<Rightarrow> obj list \<Rightarrow> obj_mem \<Rightarrow> pool \<Rightarrow> obj \<Rightarrow> obj_mem \<Rightarrow> pool \<Rightarrow> bool" where
  "get_post i out m p ob m' p' \<longleftrightarrow> pool_inv (ob # out) m' p' \<and>
     stamps m' ob = Some (mk_stamp i (pool_objSize p)) \<and> pool_objSize p' = pool_objSize p \<and>
     (\<forall>a. stamps m a \<noteq> None \<longrightarrow> stamps m' a = stamps m a) \<and> next_obj m \<le> next_obj m' \<and>
     bucket_size (buckets p' ! i) < BUCKET_CAPACITY"

lemma bucket_get_spec:
  assumes inv: "pool_inv out m p" and i: "i < MAX_POOL_BUCKETS"
  shows "\<exists>ob m' b'. getNoLock m (buckets p ! i) = Inr (ob, m', b') \<and>
     get_post i out m p ob m' (p\<lparr>buckets := (buckets p)[i := b']\<rparr>)"
proof -
  let ?b = "buckets p ! i"
  have ok: "bucket_ok (pool_objSize p) i ?b" and fresh: "\<And>a. stamps m a \<noteq> None \<Longrightarrow> a < next_obj m"
    and stm: "\<And>a. a \<in> set (contents ?b) \<Longrightarrow> stamps m a = Some (mk_stamp i (pool_objSize p))"
    and len: "length (buckets p) = MAX_POOL_BUCKETS"
    using inv i by (auto simp: pool_inv_def)
  then have binv: "bucket_inv ?b" and stb: "stamp ?b = mk_stamp i (pool_objSize p)"
    and q: "0 < quantInc ?b" "quantInc ?b \<le> MAX_BUCKET_BUFFERS * MAX_BUFFER_SLOTS"
    by (simp_all add: bucket_ok_def BUCKET_CAPACITY_def)
  show ?thesis
  proof (cases "contents ?b = []")
    case False
    obtain ob b' where g: "getNoLock m ?b = Inr (ob, m, b')" "bucket_inv b'" "same_setup ?b b'"
      "contents ?b = ob # contents b'" using get_nonempty [OF binv False] by blast
    have "pool_inv (ob # out) m (p\<lparr>buckets := (buckets p)[i := b']\<rparr>)"
      by (rule pool_inv_update [OF inv i bucket_ok_setup [OF ok g(3,2)], where fresh = "[]"])
        (use g(4) stm fresh in auto)
    moreover have "bucket_size b' < BUCKET_CAPACITY"
      using bucket_ok_size [OF ok] length_contents [of b'] length_contents [of ?b] g(4) by simp
    ultimately show ?thesis using g stm i len by (auto simp: get_post_def)
  next
    case True
    let ?n = "next_obj m"
    obtain m' b' where g: "getNoLock m ?b = Inr (?n, m', b')" "bucket_inv b'" "same_setup ?b b'"
      "contents b' = [Suc ?n..<?n + quantInc ?b]" "next_obj m' = ?n + quantInc ?b"
      "\<forall>a. stamps m' a = (if ?n \<le> a \<and> a < ?n + quantInc ?b then Some (stamp ?b) else stamps m a)"
      using get_empty [OF binv True q] by blast
    have fr: "distinct (?n # contents b')" "\<And>a. a \<in> set (?n # contents b') \<Longrightarrow> ?n \<le> a" using g(4) by auto
    have old: "stamps m' a = stamps m a" "a < next_obj m'" if "stamps m a \<noteq> None" for a
      using g(5,6) fresh [OF that] by auto
    have new: "a < next_obj m'" if "stamps m' a \<noteq> None" for a
      using g(5,6) that old(2) [of a] by (auto split: if_splits)
    have stn: "stamps m' a = Some (mk_stamp i (pool_objSize p))" if "a \<in> set (?n # contents b')" for a
      using g(4,6) that stb q(1) by auto
    have "pool_inv (?n # out) m' (p\<lparr>buckets := (buckets p)[i := b']\<rparr>)"
      by (rule pool_inv_update [OF inv i bucket_ok_setup [OF ok g(3,2)], where fresh = "?n # contents b'"])
        (use fr True old new stn in auto)
    moreover have "bucket_size b' < BUCKET_CAPACITY"
      using q length_contents [of b'] g(4) by (simp add: BUCKET_CAPACITY_def)
    moreover have "\<forall>a. stamps m a \<noteq> None \<longrightarrow> stamps m' a = stamps m a" using old by blast
    ultimately show ?thesis using g(1,5) stn [of ?n] i len by (simp add: get_post_def)
  qed
qed

lemma pool_get_from_spec:
  assumes inv: "pool_inv out m p" and i: "i < MAX_POOL_BUCKETS"
  shows "\<exists>ob m' p'. pool_get_from i m p = Inr (ob, m', p') \<and> get_post i out m p ob m' p' \<and> counter p' = counter p"
  using bucket_get_spec [OF assms] i by (fastforce simp: pool_get_from_def)

lemma pool_get_alt:
  "pool_get m p = pool_get_from (unat (counter p) mod MAX_POOL_BUCKETS) m (p\<lparr>counter := counter p + 1\<rparr>)"
  by (simp add: pool_get_def pool_get_from_def Let_def MAX_POOL_BUCKETS_def)

lemma pool_get_spec:
  assumes "pool_inv out m p"
  shows "\<exists>ob m' p'. pool_get m p = Inr (ob, m', p') \<and>
     get_post (unat (counter p) mod MAX_POOL_BUCKETS) out m p ob m' p' \<and> counter p' = counter p + 1"
  using pool_get_from_spec [of out m "p\<lparr>counter := counter p + 1\<rparr>" "unat (counter p) mod MAX_POOL_BUCKETS"] assms
  by (simp add: pool_get_alt MAX_POOL_BUCKETS_def get_post_def)

text \<open>The bucket a handed-out object belongs to, read from its stamp as \<open>put\<close> does.\<close>

definition home_bucket :: "obj_mem \<Rightarrow> obj \<Rightarrow> nat" where
  "home_bucket m ob = (case stamps m ob of None \<Rightarrow> 0 | Some st \<Rightarrow> unat (stamp_bucket st))"

lemma pool_put_spec:
  assumes inv: "pool_inv out m p" and ob: "ob \<in> set out"
    and room: "bucket_size (buckets p ! home_bucket m ob) < BUCKET_CAPACITY"
  shows "\<exists>p'. pool_put ob m p = Inr p' \<and> pool_inv (remove1 ob out) m p' \<and>
     contents (buckets p' ! home_bucket m ob) = contents (buckets p ! home_bucket m ob) @ [ob] \<and>
     (\<forall>j. j \<noteq> home_bucket m ob \<longrightarrow> buckets p' ! j = buckets p ! j)"
proof -
  obtain i where i: "i < MAX_POOL_BUCKETS" "stamps m ob = Some (mk_stamp i (pool_objSize p))"
    using inv ob by (auto simp: pool_inv_def)
  have sz: "unat (pool_objSize p) < 2 ^ 24" and len: "length (buckets p) = MAX_POOL_BUCKETS"
    using inv by (simp_all add: pool_inv_def)
  have i256: "i < 256" using i(1) by (simp add: MAX_POOL_BUCKETS_def)
  have home: "home_bucket m ob = i" using i(2) stamp_decode [OF i256 sz] by (simp add: home_bucket_def)
  let ?b = "buckets p ! i"
  have ok: "bucket_ok (pool_objSize p) i ?b" and fresh: "\<And>a. stamps m a \<noteq> None \<Longrightarrow> a < next_obj m"
    and stm: "\<And>a. a \<in> set (contents ?b) \<Longrightarrow> stamps m a = Some (mk_stamp i (pool_objSize p))"
    using inv i(1) by (auto simp: pool_inv_def)
  then have binv: "bucket_inv ?b" by (simp add: bucket_ok_def)
  obtain b' where b': "putNoLock ob ?b = Inr b'" "bucket_inv b'" "contents b' = contents ?b @ [ob]" "same_setup ?b b'"
    using put_spec [OF binv] room home by (auto simp: BUCKET_CAPACITY_def)
  have "pool_inv (remove1 ob out) m (p\<lparr>buckets := (buckets p)[i := b']\<rparr>)"
    by (rule pool_inv_update [OF inv i(1) bucket_ok_setup [OF ok b'(4,2)], where fresh = "[]"])
      (use b'(3) stm fresh i(2) ob in \<open>auto dest: set_mp [OF set_remove1_subset]\<close>)
  moreover have "pool_put ob m p = Inr (p\<lparr>buckets := (buckets p)[i := b']\<rparr>)"
    using b'(1) i stamp_decode [OF i256 sz] by (simp add: pool_put_def Let_def)
  ultimately show ?thesis using home b'(3) i(1) len by auto
qed

section \<open>Constructing a pool\<close>

text \<open>A strategy fits an object size when the quanta it gives fit a bucket.\<close>

definition strategy_ok :: "alloc_strategy \<Rightarrow> u32 \<Rightarrow> bool" where
  "strategy_ok strat sz \<longleftrightarrow> 0 < unat sz \<and> unat sz < 2 ^ 24 \<and> preallocateCount strat div unat sz \<le> BUCKET_CAPACITY \<and>
     0 < minIncQuant strat \<and> minIncQuant strat \<le> maxIncQuant strat \<and> maxIncQuant strat \<le> BUCKET_CAPACITY"

definition mem_ok :: "obj_mem \<Rightarrow> bool" where
  "mem_ok m \<longleftrightarrow> (\<forall>a. stamps m a \<noteq> None \<longrightarrow> a < next_obj m)"

lemma bucket_inv_setup:
  "bucket_inv b \<Longrightarrow> bucket_inv (b\<lparr>bucketNum := n, stamp := st, quantInc := qi, quantDec := qd\<rparr>)"
  "contents (b\<lparr>bucketNum := n, stamp := st, quantInc := qi, quantDec := qd\<rparr>) = contents b"
proof -
  have s: "slot_at (b\<lparr>bucketNum := n, stamp := st, quantInc := qi, quantDec := qd\<rparr>) = slot_at b"
    by (rule ext) (simp add: slot_at_def)
  have z: "bucket_size (b\<lparr>bucketNum := n, stamp := st, quantInc := qi, quantDec := qd\<rparr>) = bucket_size b"
    by (simp add: bucket_size_def)
  show "bucket_inv b \<Longrightarrow> bucket_inv (b\<lparr>bucketNum := n, stamp := st, quantInc := qi, quantDec := qd\<rparr>)"
    unfolding bucket_inv_def bucket_shape_def s z by auto
  show "contents (b\<lparr>bucketNum := n, stamp := st, quantInc := qi, quantDec := qd\<rparr>) = contents b"
    by (simp add: contents_def s z)
qed

definition fresh_batch :: "obj_mem \<Rightarrow> u32 \<Rightarrow> nat \<Rightarrow> obj_mem \<Rightarrow> bool" where
  "fresh_batch m st n m' \<longleftrightarrow> next_obj m' = next_obj m + n \<and>
     (\<forall>a. stamps m' a = (if next_obj m \<le> a \<and> a < next_obj m + n then Some st else stamps m a))"

lemma setup_bucket_spec:
  assumes "strategy_ok strat sz"
  defines "n \<equiv> preallocateCount strat div unat sz"
  shows "\<exists>m' b'. setup_bucket strat i m (new_bucket sz) = Inr (m', b') \<and> bucket_ok sz i b' \<and>
     contents b' = [next_obj m..<next_obj m + n] \<and> fresh_batch m (mk_stamp i sz) n m'"
proof -
  define qi where "qi = (let q = incrementQuant strat div unat sz; q = (if q \<le> minIncQuant strat then minIncQuant strat else q)
    in if maxIncQuant strat \<le> q then maxIncQuant strat else q)"
  define qd where "qd = (let q = decrementQuant strat div unat sz; q = (if q \<le> minDecQuant strat then minDecQuant strat else q)
    in if maxDecQuant strat \<le> q then maxDecQuant strat else q)"
  define b where "b = (new_bucket sz)\<lparr>bucketNum := of_nat i, stamp := mk_stamp i sz, quantInc := qi, quantDec := qd\<rparr>"
  have q: "0 < qi" "qi \<le> BUCKET_CAPACITY" using assms(1) by (auto simp: qi_def Let_def strategy_ok_def)
  have b: "bucket_inv b" "contents b = []" "stamp b = mk_stamp i sz" "quantInc b = qi"
    using new_bucket_inv [of sz] by (simp_all add: b_def bucket_inv_setup)
  have "bucket_size b = 0" using b(2) length_contents [of b] by simp
  then have "bucket_size b + n \<le> MAX_BUCKET_BUFFERS * MAX_BUFFER_SLOTS"
    using assms(1) by (simp add: n_def strategy_ok_def BUCKET_CAPACITY_def)
  then obtain m' b' where mk: "Pool_Bucket.make n m b = Inr (m', b')" "bucket_inv b'" "same_setup b b'"
    "contents b' = contents b @ [next_obj m..<next_obj m + n]" "next_obj m' = next_obj m + n"
    "\<forall>a. stamps m' a = (if next_obj m \<le> a \<and> a < next_obj m + n then Some (stamp b) else stamps m a)"
    using make_spec [OF b(1)] by blast
  have "setup_bucket strat i m (new_bucket sz) = Pool_Bucket.make n m b"
    by (simp add: setup_bucket_def setStrategy_def makeStamp_def setBucketNum_def b_def qi_def qd_def n_def
        new_bucket_def mk_stamp_def Let_def)
  moreover have "bucket_ok sz i b'" using mk(2,3) b q by (simp add: bucket_ok_def same_setup_def)
  ultimately show ?thesis using mk b by (auto simp: fresh_batch_def)
qed

lemma setup_buckets_spec:
  assumes "strategy_ok strat sz" "mem_ok m"
  shows "\<exists>m' bs. setup_buckets strat c m (replicate k (new_bucket sz)) = Inr (m', bs) \<and> length bs = k \<and> mem_ok m' \<and>
     (\<forall>j < k. bucket_ok sz (c + j) (bs ! j)) \<and>
     (\<forall>j < k. \<forall>a \<in> set (contents (bs ! j)). stamps m' a = Some (mk_stamp (c + j) sz)) \<and>
     (\<forall>a. a < next_obj m \<longrightarrow> stamps m' a = stamps m a) \<and> next_obj m \<le> next_obj m' \<and>
     distinct (concat (map contents bs)) \<and>
     (\<forall>a \<in> set (concat (map contents bs)). next_obj m \<le> a \<and> a < next_obj m')"
  using assms(2)
proof (induction k arbitrary: c m)
  case (Suc k)
  let ?n = "preallocateCount strat div unat sz"
  obtain m1 b where b: "setup_bucket strat c m (new_bucket sz) = Inr (m1, b)" "bucket_ok sz c b"
    "contents b = [next_obj m..<next_obj m + ?n]" "fresh_batch m (mk_stamp c sz) ?n m1"
    using setup_bucket_spec [OF assms(1)] by blast
  have m1: "mem_ok m1" "next_obj m1 = next_obj m + ?n"
    "\<And>a. a < next_obj m \<Longrightarrow> stamps m1 a = stamps m a"
    "\<And>a. a \<in> set (contents b) \<Longrightarrow> stamps m1 a = Some (mk_stamp c sz) \<and> a < next_obj m1 \<and> next_obj m \<le> a"
    using b(3,4) Suc.prems by (auto simp: fresh_batch_def mem_ok_def trans_less_add1 split: if_splits)
  obtain m2 bs where r: "setup_buckets strat (c + 1) m1 (replicate k (new_bucket sz)) = Inr (m2, bs)" "length bs = k"
    "mem_ok m2" "\<forall>j < k. bucket_ok sz (c + 1 + j) (bs ! j)"
    "\<forall>j < k. \<forall>a \<in> set (contents (bs ! j)). stamps m2 a = Some (mk_stamp (c + 1 + j) sz)"
    "\<forall>a. a < next_obj m1 \<longrightarrow> stamps m2 a = stamps m1 a" "next_obj m1 \<le> next_obj m2"
    "distinct (concat (map contents bs))"
    "\<forall>a \<in> set (concat (map contents bs)). next_obj m1 \<le> a \<and> a < next_obj m2"
    using Suc.IH [OF m1(1)] by blast
  have "bucket_ok sz (c + j) ((b # bs) ! j) \<and>
      (\<forall>a \<in> set (contents ((b # bs) ! j)). stamps m2 a = Some (mk_stamp (c + j) sz))" if "j < Suc k" for j
    using that b(2) m1(4) r(4-6) by (cases j) auto
  moreover have "distinct (concat (map contents (b # bs)))"
    using b(3) r(8,9) m1(4) by (fastforce simp del: set_concat)
  moreover have "\<forall>a \<in> set (concat (map contents (b # bs))). next_obj m \<le> a \<and> a < next_obj m2"
    using m1(2,4) r(7,9) by (fastforce simp del: set_concat)
  moreover have "\<forall>a. a < next_obj m \<longrightarrow> stamps m2 a = stamps m a" using m1(2,3) r(6) by simp
  ultimately show ?case using b(1) r(1,2,3,7) m1(2) by auto
qed simp

lemma GeneralPool_spec:
  assumes "strategy_ok strat sz" "mem_ok m"
  shows "\<exists>m' p. GeneralPool strat sz m = Inr (m', p) \<and> pool_inv [] m' p \<and> counter p = 0 \<and> pool_objSize p = sz \<and>
     (\<forall>a. stamps m a \<noteq> None \<longrightarrow> stamps m' a = stamps m a)"
  using setup_buckets_spec [OF assms, of 0 MAX_POOL_BUCKETS] assms
  by (fastforce simp: GeneralPool_def pool_inv_def pooled_def strategy_ok_def mem_ok_def)

section \<open>Clients of a pool\<close>

definition pool_sys_get :: "obj_mem \<times> pool \<Rightarrow> pool_error + obj \<times> obj_mem \<times> pool" where
  "pool_sys_get = (\<lambda>(m, p). pool_get m p)"

definition pool_sys_put :: "obj \<Rightarrow> obj_mem \<times> pool \<Rightarrow> pool_error + obj_mem \<times> pool" where
  "pool_sys_put ob = (\<lambda>(m, p). map_sum id (Pair m) (pool_put ob m p))"

lemma pool_put_full:
  assumes inv: "pool_inv out m p" and ob: "ob \<in> set out"
    and full: "bucket_size (buckets p ! home_bucket m ob) = BUCKET_CAPACITY"
  shows "pool_put ob m p = Inl NoMoreBuffers"
proof -
  obtain i where i: "i < MAX_POOL_BUCKETS" "stamps m ob = Some (mk_stamp i (pool_objSize p))"
    using inv ob by (auto simp: pool_inv_def)
  have sz: "unat (pool_objSize p) < 2 ^ 24" and ok: "bucket_inv (buckets p ! i)"
    using inv i(1) by (simp_all add: pool_inv_def bucket_ok_def)
  have i256: "i < 256" using i(1) by (simp add: MAX_POOL_BUCKETS_def)
  have "putNoLock ob (buckets p ! i) = Inl NoMoreBuffers"
    using put_overflow [OF ok] full i(2) stamp_decode [OF i256 sz] by (simp add: home_bucket_def BUCKET_CAPACITY_def)
  then show ?thesis using i stamp_decode [OF i256 sz] by (simp add: pool_put_def Let_def)
qed

lemma home_in_range:
  assumes "pool_inv out m p" "ob \<in> set out"
  shows "home_bucket m ob < MAX_POOL_BUCKETS" "bucket_size (buckets p ! home_bucket m ob) \<le> BUCKET_CAPACITY"
proof -
  obtain i where i: "i < MAX_POOL_BUCKETS" "stamps m ob = Some (mk_stamp i (pool_objSize p))"
    using assms by (auto simp: pool_inv_def)
  have sz: "unat (pool_objSize p) < 2 ^ 24" and b: "bucket_inv (buckets p ! i)"
    using assms(1) i(1) by (simp_all add: pool_inv_def bucket_ok_def)
  have i256: "i < 256" using i(1) by (simp add: MAX_POOL_BUCKETS_def)
  then have home: "home_bucket m ob = i" using i(2) stamp_decode [OF i256 sz] by (simp add: home_bucket_def)
  show "home_bucket m ob < MAX_POOL_BUCKETS" using home i(1) by simp
  have "numBuffers (buckets p ! i) * MAX_BUFFER_SLOTS \<le> BUCKET_CAPACITY"
    using b by (simp add: bucket_inv_def bucket_shape_def BUCKET_CAPACITY_def)
  then show "bucket_size (buckets p ! home_bucket m ob) \<le> BUCKET_CAPACITY"
    using bucket_size_le [OF b] b home by (simp add: bucket_inv_def bucket_shape_def)
qed

interpretation general_pool: resource_supply pool_sys_get pool_sys_put "\<lambda>out (m, p). pool_inv out m p"
    "{NoMoreBuffers}"
proof (unfold_locales, goal_cases)
  case (1 out s)
  then show ?case using pool_get_spec [of out "fst s" "snd s"]
    by (auto simp: pool_sys_get_def get_post_def split: prod.splits)
next
  case (2 out s ob)
  obtain m p where s: "s = (m, p)" by fastforce
  then have inv: "pool_inv out m p" using 2 by simp
  show ?case
  proof (cases "bucket_size (buckets p ! home_bucket m ob) < BUCKET_CAPACITY")
    case True
    then show ?thesis using pool_put_spec [OF inv 2(2)] s by (auto simp: pool_sys_put_def)
  next
    case False
    then show ?thesis using pool_put_full [OF inv 2(2)] home_in_range(2) [OF inv 2(2)] s by (simp add: pool_sys_put_def)
  qed
next
  case (3 out s)
  then show ?case by (auto simp: pool_inv_def split: prod.splits)
qed

section \<open>Properties\<close>

definition no_objects :: obj_mem where
  "no_objects = \<lparr>next_obj = 0, stamps = Map.empty\<rparr>"

lemma default_strategy_ok: "strategy_ok DefaultAllocStrategy 64" "mem_ok no_objects"
  by (simp_all add: strategy_ok_def DefaultAllocStrategy_def BUCKET_CAPACITY_def MAX_BUCKET_BUFFERS_def
      MAX_BUFFER_SLOTS_def mem_ok_def no_objects_def)

text \<open>C6. A pool never hands out an object that is in use. From the constructor on, after every
  sequence of \<open>get\<close> and \<open>put\<close> calls of a client that returns only what it holds, the objects
  in use are pairwise different, none of them is in a bucket, and each carries the stamp of one
  of the pool's buckets; the only failure is a bucket that is exhausted.\<close>

theorem pool_never_shares_objects:
  assumes "strategy_ok strat sz" "mem_ok m"
  shows "\<exists>m0 p0. GeneralPool strat sz m = Inr (m0, p0) \<and>
     (\<forall>cs. run_supply pool_sys_get pool_sys_put cs [] (m0, p0) = Inl NoMoreBuffers \<or>
        (\<exists>out m' p'. run_supply pool_sys_get pool_sys_put cs [] (m0, p0) = Inr (out, m', p') \<and>
           distinct (pooled p' @ out) \<and> pool_inv out m' p'))"
proof -
  obtain m0 p0 where g: "GeneralPool strat sz m = Inr (m0, p0)" "pool_inv [] m0 p0"
    using GeneralPool_spec [OF assms] by blast
  have "run_supply pool_sys_get pool_sys_put cs [] (m0, p0) = Inl NoMoreBuffers \<or>
        (\<exists>out m' p'. run_supply pool_sys_get pool_sys_put cs [] (m0, p0) = Inr (out, m', p') \<and>
           distinct (pooled p' @ out) \<and> pool_inv out m' p')" for cs
    using general_pool.run_supply_safe [of "[]" "(m0, p0)" cs] g(2) by (auto simp: pool_inv_def)
  then show ?thesis using g(1) by blast
qed

theorem pool_never_shares_objects_witness:
  "strategy_ok DefaultAllocStrategy 64 \<and> (\<exists>m0 p0. GeneralPool DefaultAllocStrategy 64 no_objects = Inr (m0, p0) \<and>
     (\<forall>cs. run_supply pool_sys_get pool_sys_put cs [] (m0, p0) = Inl NoMoreBuffers \<or>
        (\<exists>out m' p'. run_supply pool_sys_get pool_sys_put cs [] (m0, p0) = Inr (out, m', p') \<and>
           distinct (pooled p' @ out) \<and> pool_inv out m' p')))"
  using pool_never_shares_objects [OF default_strategy_ok] default_strategy_ok by blast

text \<open>C25. \<open>get\<close> always succeeds with an object not in use, and giving that object back with
  \<open>put\<close> finds its bucket from the stamp and succeeds: the pool is again one with the same
  objects in use as before.\<close>

theorem pool_get_put:
  assumes "pool_inv out m p"
  shows "\<exists>ob m' p' p''. pool_get m p = Inr (ob, m', p') \<and> ob \<notin> set out \<and>
     pool_put ob m' p' = Inr p'' \<and> pool_inv out m' p'' \<and> ob \<in> set (pooled p'') \<and>
     home_bucket m' ob = unat (counter p) mod MAX_POOL_BUCKETS"
proof -
  let ?i = "unat (counter p) mod MAX_POOL_BUCKETS"
  obtain ob m' p' where g: "pool_get m p = Inr (ob, m', p')" "get_post ?i out m p ob m' p'"
    using pool_get_spec [OF assms] by blast
  have i: "?i < 256" "?i < MAX_POOL_BUCKETS" by (simp_all add: MAX_POOL_BUCKETS_def)
  have inv: "pool_inv (ob # out) m' p'" and st: "stamps m' ob = Some (mk_stamp ?i (pool_objSize p))"
    and sz: "unat (pool_objSize p) < 2 ^ 24" and room: "bucket_size (buckets p' ! ?i) < BUCKET_CAPACITY"
    using g(2) assms by (auto simp: get_post_def pool_inv_def)
  have home: "home_bucket m' ob = ?i" using st stamp_decode [OF i(1) sz] by (simp add: home_bucket_def)
  obtain p'' where p'': "pool_put ob m' p' = Inr p''" "pool_inv (remove1 ob (ob # out)) m' p''"
    "contents (buckets p'' ! ?i) = contents (buckets p' ! ?i) @ [ob]"
    using pool_put_spec [OF inv, of ob] room home by auto
  have len: "length (buckets p'') = MAX_POOL_BUCKETS" using p''(2) by (simp add: pool_inv_def)
  have "ob \<in> set (contents (buckets p'' ! ?i))" by (simp only: p''(3)) simp
  then have "ob \<in> set (pooled p'')" using i(2) len by (auto simp: set_pooled)
  moreover have "ob \<notin> set out" using inv by (simp add: pool_inv_def)
  moreover have "pool_inv out m' p''" using p''(2) by simp
  ultimately show ?thesis using g(1) p''(1) home by blast
qed

theorem pool_get_put_witness:
  "\<exists>m p ob m' p' p''. GeneralPool DefaultAllocStrategy 64 no_objects = Inr (m, p) \<and>
     pool_inv [] m p \<and> pool_get m p = Inr (ob, m', p') \<and> pool_put ob m' p' = Inr p'' \<and> pool_inv [] m' p''"
proof -
  obtain m p where mp: "GeneralPool DefaultAllocStrategy 64 no_objects = Inr (m, p)" "pool_inv [] m p"
    using GeneralPool_spec [OF default_strategy_ok] by blast
  from pool_get_put [OF mp(2)] mp show ?thesis by blast
qed

text \<open>The stamp a bucket writes into its objects determines both the size of the objects and
  the bucket: decoding it as \<open>put\<close> and \<open>putMem\<close> do gives back what \<open>makeStamp\<close> packed.\<close>

theorem stamp_roundtrip:
  assumes "i < 256" "unat (objSize b) < 2 ^ 24"
  shows "stamp_size (stamp (makeStamp (setBucketNum (of_nat i) b))) = objSize b \<and>
     unat (stamp_bucket (stamp (makeStamp (setBucketNum (of_nat i) b)))) = i"
  using stamp_decode [OF assms] by (simp add: makeStamp_def setBucketNum_def mk_stamp_def)

theorem stamp_roundtrip_witness:
  "unat (objSize (new_bucket 1024)) < 2 ^ 24 \<and>
   stamp_size (stamp (makeStamp (setBucketNum (of_nat 63) (new_bucket 1024)))) = objSize (new_bucket 1024) \<and>
   unat (stamp_bucket (stamp (makeStamp (setBucketNum (of_nat 63) (new_bucket 1024))))) = 63"
  using stamp_roundtrip [of 63 "new_bucket 1024"] by (simp add: new_bucket_def)

text \<open>An object of a pool with another object size is never accepted: \<open>put\<close> reports it, and
  reports a bucket number out of range, before it touches a bucket.\<close>

theorem pool_put_rejects_foreign:
  assumes "stamps m ob = Some (mk_stamp i sz)" "i < 256" "unat sz < 2 ^ 24"
    and "sz \<noteq> pool_objSize p \<or> MAX_POOL_BUCKETS \<le> i"
  shows "pool_put ob m p = Inl (if sz \<noteq> pool_objSize p then WrongPool else BucketOutOfRange)"
  using assms stamp_decode [OF assms(2,3)] by (auto simp: pool_put_def Let_def)

theorem pool_put_rejects_foreign_witness:
  "pool_put 3 \<lparr>next_obj = 4, stamps = [3 \<mapsto> mk_stamp 2 64]\<rparr> \<lparr>counter = 0, pool_objSize = 128, buckets = []\<rparr> = Inl WrongPool"
  using pool_put_rejects_foreign [of "\<lparr>next_obj = 4, stamps = [3 \<mapsto> mk_stamp 2 64]\<rparr>" 3 2 64
      "\<lparr>counter = 0, pool_objSize = 128, buckets = []\<rparr>"] by simp

end
