(* ===== verification/Mem_Mgr.thy ===== *)
theory Mem_Mgr
  imports General_Pool
begin

text \<open>
  The memory manager of \<^verbatim>\<open>lib/common/MemMgr.cpp\<close>: nineteen pools, one per size class, behind
  \<open>getMem\<close> and \<open>putMem\<close>. A chunk is returned to the pool and the bucket its stamp names; the
  theory shows that this is where it came from.
\<close>

section \<open>State and operations\<close>

text \<open>The 19 size classes, in the order of the tests in \<open>getMem\<close>.\<close>

definition size_classes :: "nat list" where
  "size_classes = [4, 8, 16, 32, 64, 128, 256, 512, 1024, 2048, 4096, 8192, 16384, 32768, 65536,
     131072, 262144, 524288, 1048576]"

text \<open>The pools are kept in the order of their classes. A chunk too large for every class comes
  from \<open>malloc\<close>, which writes no stamp.\<close>

record mem_mgr =
  gmp_pools :: "pool list"
  gmp_mem :: obj_mem

fun class_of :: "nat \<Rightarrow> nat list \<Rightarrow> nat option" where
  "class_of sz [] = None"
| "class_of sz (c # cs) = (if sz \<le> c then Some 0 else map_option Suc (class_of sz cs))"

definition malloc_obj :: "obj_mem \<Rightarrow> obj \<times> obj_mem" where
  "malloc_obj m = (next_obj m, m\<lparr>next_obj := next_obj m + 1\<rparr>)"

definition getMem :: "nat \<Rightarrow> mem_mgr \<Rightarrow> pool_error + obj \<times> mem_mgr" where
  "getMem sz mm =
     (case class_of sz size_classes of
        Some c \<Rightarrow>
          (case pool_get (gmp_mem mm) (gmp_pools mm ! c) of
             Inl e \<Rightarrow> Inl e
           | Inr (ob, m, p) \<Rightarrow> Inr (ob, mm\<lparr>gmp_pools := (gmp_pools mm)[c := p], gmp_mem := m\<rparr>))
      | None \<Rightarrow> (let (ob, m) = malloc_obj (gmp_mem mm) in Inr (ob, mm\<lparr>gmp_mem := m\<rparr>)))"

fun setup_pools :: "alloc_strategy \<Rightarrow> nat list \<Rightarrow> obj_mem \<Rightarrow> pool_error + obj_mem \<times> pool list" where
  "setup_pools strat [] m = Inr (m, [])"
| "setup_pools strat (c # cs) m =
     (case GeneralPool strat (of_nat c) m of Inl e \<Rightarrow> Inl e
      | Inr (m, p) \<Rightarrow> (case setup_pools strat cs m of Inl e \<Rightarrow> Inl e | Inr (m, ps) \<Rightarrow> Inr (m, p # ps)))"

definition MemMgr :: "alloc_strategy \<Rightarrow> obj_mem \<Rightarrow> pool_error + mem_mgr" where
  "MemMgr strat m = map_sum id (\<lambda>(m, ps). \<lparr>gmp_pools = ps, gmp_mem = m\<rparr>) (setup_pools strat size_classes m)"

fun index_of :: "nat \<Rightarrow> nat list \<Rightarrow> nat option" where
  "index_of c [] = None"
| "index_of c (d # ds) = (if c = d then Some 0 else map_option Suc (index_of c ds))"

text \<open>\<open>putMem\<close> switches on the size in the stamp; the bucket number is not checked against the
  array. An object without a stamp of one of the classes is freed.\<close>

definition putMem :: "obj \<Rightarrow> mem_mgr \<Rightarrow> pool_error + mem_mgr" where
  "putMem ob mm =
     (case stamps (gmp_mem mm) ob of
        None \<Rightarrow> Inl BadObject
      | Some st \<Rightarrow>
         (case index_of (unat (stamp_size st)) size_classes of
            None \<Rightarrow> Inr mm
          | Some c \<Rightarrow>
             (let poolNo = unat (stamp_bucket st); p = gmp_pools mm ! c
              in if MAX_POOL_BUCKETS \<le> poolNo then Inl BucketOutOfRange
                 else case putNoLock ob (buckets p ! poolNo) of
                        Inl e \<Rightarrow> Inl e
                      | Inr b \<Rightarrow> Inr (mm\<lparr>gmp_pools := (gmp_pools mm)[c := p\<lparr>buckets := (buckets p)[poolNo := b]\<rparr>]\<rparr>))))"

section \<open>Size classes\<close>

lemma class_of_SomeD:
  "class_of sz cs = Some c \<Longrightarrow> c < length cs \<and> sz \<le> cs ! c \<and> (\<forall>d < c. cs ! d < sz)"
proof (induction cs arbitrary: c)
  case (Cons x cs)
  then show ?case by (cases c) (auto split: if_splits simp: less_Suc_eq_0_disj)
qed simp

lemma class_of_None: "class_of sz cs = None \<longleftrightarrow> (\<forall>x \<in> set cs. x < sz)"
  by (induction cs) auto

lemma index_of_nth: "distinct cs \<Longrightarrow> c < length cs \<Longrightarrow> index_of (cs ! c) cs = Some c"
  by (induction cs arbitrary: c) (auto simp: nth_Cons split: nat.splits dest: nth_mem)

lemma size_classes_facts:
  "distinct size_classes" "length size_classes = 19"
  "c < 19 \<Longrightarrow> 0 < size_classes ! c \<and> size_classes ! c < 2 ^ 24"
proof -
  show "distinct size_classes" "length size_classes = 19" by (simp_all add: size_classes_def)
  have "\<forall>x \<in> set size_classes. 0 < x \<and> x < 2 ^ 24" by (simp add: size_classes_def)
  then show "c < 19 \<Longrightarrow> 0 < size_classes ! c \<and> size_classes ! c < 2 ^ 24"
    using \<open>length size_classes = 19\<close> nth_mem [of c size_classes] by auto
qed

section \<open>The invariant\<close>

text \<open>\<open>outs ! c\<close> lists the chunks of class \<open>c\<close> in use. All pools share one memory.\<close>

definition class_ok :: "obj_mem \<Rightarrow> nat \<Rightarrow> obj list \<Rightarrow> pool \<Rightarrow> bool" where
  "class_ok m c out p \<longleftrightarrow> pool_inv out m p \<and> pool_objSize p = of_nat (size_classes ! c)"

definition mm_inv :: "obj list list \<Rightarrow> mem_mgr \<Rightarrow> bool" where
  "mm_inv outs mm \<longleftrightarrow> length (gmp_pools mm) = length size_classes \<and> length outs = length size_classes \<and>
     (\<forall>c < length size_classes. class_ok (gmp_mem mm) c (outs ! c) (gmp_pools mm ! c))"

lemma pool_inv_mono:
  assumes inv: "pool_inv out m p" and ext: "\<And>a. stamps m a \<noteq> None \<Longrightarrow> stamps m' a = stamps m a" and ok: "mem_ok m'"
  shows "pool_inv out m' p"
proof -
  have s: "stamps m a = Some st \<Longrightarrow> stamps m' a = Some st" for a st using ext [of a] by simp
  then show ?thesis using inv ok unfolding pool_inv_def mem_ok_def by blast
qed

lemma mm_inv_update:
  assumes inv: "mm_inv outs mm" and c: "c < length size_classes" and p: "class_ok m' c out' p'"
    and ext: "\<And>a. stamps (gmp_mem mm) a \<noteq> None \<Longrightarrow> stamps m' a = stamps (gmp_mem mm) a"
  shows "mm_inv (outs[c := out']) (mm\<lparr>gmp_pools := (gmp_pools mm)[c := p'], gmp_mem := m'\<rparr>)"
proof -
  have ok: "mem_ok m'" using p by (simp add: class_ok_def pool_inv_def mem_ok_def)
  have "class_ok m' d (outs ! d) (gmp_pools mm ! d)" if "d < length size_classes" for d
    using inv that pool_inv_mono [OF _ ext ok] by (simp add: mm_inv_def class_ok_def)
  then show ?thesis using inv c p by (simp add: mm_inv_def nth_list_update)
qed

lemma getMem_spec:
  assumes inv: "mm_inv outs mm" and cl: "class_of sz size_classes = Some c"
  shows "\<exists>ob m' p' i. getMem sz mm = Inr (ob, mm\<lparr>gmp_pools := (gmp_pools mm)[c := p'], gmp_mem := m'\<rparr>) \<and>
     mm_inv (outs[c := ob # outs ! c]) (mm\<lparr>gmp_pools := (gmp_pools mm)[c := p'], gmp_mem := m'\<rparr>) \<and>
     i < MAX_POOL_BUCKETS \<and> stamps m' ob = Some (mk_stamp i (of_nat (size_classes ! c))) \<and>
     bucket_size (buckets p' ! i) < BUCKET_CAPACITY"
proof -
  have c: "c < length size_classes" using class_of_SomeD [OF cl] by simp
  let ?p = "gmp_pools mm ! c" let ?i = "unat (counter ?p) mod MAX_POOL_BUCKETS"
  have ok: "pool_inv (outs ! c) (gmp_mem mm) ?p" "pool_objSize ?p = of_nat (size_classes ! c)"
    using inv c by (simp_all add: mm_inv_def class_ok_def)
  obtain ob m' p' where g: "pool_get (gmp_mem mm) ?p = Inr (ob, m', p')"
    "get_post ?i (outs ! c) (gmp_mem mm) ?p ob m' p'" using pool_get_spec [OF ok(1)] by blast
  have "class_ok m' c (ob # outs ! c) p'" using g(2) ok(2) by (simp add: class_ok_def get_post_def)
  then have "mm_inv (outs[c := ob # outs ! c]) (mm\<lparr>gmp_pools := (gmp_pools mm)[c := p'], gmp_mem := m'\<rparr>)"
    using g(2) by (intro mm_inv_update [OF inv c]) (auto simp: get_post_def)
  moreover have "?i < MAX_POOL_BUCKETS" by (simp add: MAX_POOL_BUCKETS_def)
  ultimately show ?thesis using g ok(2) cl
    by (intro exI [of _ ob] exI [of _ m'] exI [of _ p'] exI [of _ ?i]) (simp add: getMem_def get_post_def)
qed

lemma putMem_pool_put:
  assumes inv: "mm_inv outs mm" and c: "c < length size_classes" and i: "i < MAX_POOL_BUCKETS"
    and st: "stamps (gmp_mem mm) ob = Some (mk_stamp i (of_nat (size_classes ! c)))"
  shows "putMem ob mm = map_sum id (\<lambda>p. mm\<lparr>gmp_pools := (gmp_pools mm)[c := p]\<rparr>) (pool_put ob (gmp_mem mm) (gmp_pools mm ! c))"
proof -
  have sc: "size_classes ! c < 2 ^ 24" "distinct size_classes" using c size_classes_facts by auto
  have u: "unat (of_nat (size_classes ! c) :: u32) = size_classes ! c"
    using sc(1) by (simp add: unat_of_nat)
  have i256: "i < 256" using i by (simp add: MAX_POOL_BUCKETS_def)
  have d: "stamp_size (mk_stamp i (of_nat (size_classes ! c))) = of_nat (size_classes ! c)"
    "unat (stamp_bucket (mk_stamp i (of_nat (size_classes ! c)))) = i"
    using stamp_decode [OF i256, of "of_nat (size_classes ! c)"] sc(1) u by simp_all
  have "pool_objSize (gmp_pools mm ! c) = of_nat (size_classes ! c)" using inv c by (simp add: mm_inv_def class_ok_def)
  then show ?thesis using st i d u index_of_nth [OF sc(2) c]
    by (simp add: putMem_def pool_put_def Let_def split: sum.split)
qed

lemma setup_pools_spec:
  assumes "\<forall>c \<in> set cs. strategy_ok strat (of_nat c)" "mem_ok m"
  shows "\<exists>m' ps. setup_pools strat cs m = Inr (m', ps) \<and> length ps = length cs \<and> mem_ok m' \<and>
     (\<forall>a. stamps m a \<noteq> None \<longrightarrow> stamps m' a = stamps m a) \<and>
     (\<forall>c < length cs. pool_inv [] m' (ps ! c) \<and> pool_objSize (ps ! c) = of_nat (cs ! c))"
  using assms
proof (induction cs arbitrary: m)
  case (Cons c cs)
  obtain m1 p where p: "GeneralPool strat (of_nat c) m = Inr (m1, p)" "pool_inv [] m1 p" "pool_objSize p = of_nat c"
    "\<forall>a. stamps m a \<noteq> None \<longrightarrow> stamps m1 a = stamps m a"
    using GeneralPool_spec [of strat "of_nat c" m] Cons.prems by auto
  have "mem_ok m1" using p(2) by (simp add: pool_inv_def mem_ok_def)
  then obtain m2 ps where r: "setup_pools strat cs m1 = Inr (m2, ps)" "length ps = length cs" "mem_ok m2"
    "\<forall>a. stamps m1 a \<noteq> None \<longrightarrow> stamps m2 a = stamps m1 a"
    "\<forall>c < length cs. pool_inv [] m2 (ps ! c) \<and> pool_objSize (ps ! c) = of_nat (cs ! c)"
    using Cons.IH [of m1] Cons.prems(1) by auto
  have "pool_inv [] m2 p" using pool_inv_mono [OF p(2) _ r(3)] r(4) by blast
  then have "pool_inv [] m2 ((p # ps) ! d) \<and> pool_objSize ((p # ps) ! d) = of_nat ((c # cs) ! d)" if "d < Suc (length cs)" for d
    using that r(5) p(3) by (cases d) auto
  moreover have "stamps m a \<noteq> None \<longrightarrow> stamps m2 a = stamps m a" for a using p(4) r(4) by metis
  ultimately show ?case using p(1) r by simp
qed auto

lemma putMem_spec:
  assumes inv: "mm_inv outs mm" and c: "c < length size_classes" and ob: "ob \<in> set (outs ! c)" and i: "i < MAX_POOL_BUCKETS"
    and st: "stamps (gmp_mem mm) ob = Some (mk_stamp i (of_nat (size_classes ! c)))"
    and room: "bucket_size (buckets (gmp_pools mm ! c) ! i) < BUCKET_CAPACITY"
  shows "\<exists>mm'. putMem ob mm = Inr mm' \<and> mm_inv (outs[c := remove1 ob (outs ! c)]) mm'"
proof -
  let ?p = "gmp_pools mm ! c"
  have ok: "pool_inv (outs ! c) (gmp_mem mm) ?p" "pool_objSize ?p = of_nat (size_classes ! c)"
    using inv c by (simp_all add: mm_inv_def class_ok_def)
  have i256: "i < 256" and sz: "unat (pool_objSize ?p) < 2 ^ 24"
    using i ok(1) by (simp_all add: MAX_POOL_BUCKETS_def pool_inv_def)
  have home: "home_bucket (gmp_mem mm) ob = i" using st ok(2) stamp_decode(2) [OF i256 sz] by (simp add: home_bucket_def)
  obtain p' where p': "pool_put ob (gmp_mem mm) ?p = Inr p'" "pool_inv (remove1 ob (outs ! c)) (gmp_mem mm) p'"
    using pool_put_spec [OF ok(1) ob] room home by auto
  have "pool_objSize p' = pool_objSize ?p" using p'(1) by (auto simp: pool_put_def Let_def split: option.splits if_splits sum.splits)
  then have "class_ok (gmp_mem mm) c (remove1 ob (outs ! c)) p'" using p'(2) ok(2) by (simp add: class_ok_def)
  then have "mm_inv (outs[c := remove1 ob (outs ! c)]) (mm\<lparr>gmp_pools := (gmp_pools mm)[c := p'], gmp_mem := gmp_mem mm\<rparr>)"
    by (rule mm_inv_update [OF inv c]) simp
  then show ?thesis using putMem_pool_put [OF inv c i st] p'(1) by simp
qed

section \<open>Properties\<close>

lemma default_classes_ok: "\<forall>c \<in> set size_classes. strategy_ok DefaultAllocStrategy (of_nat c)"
  by (simp add: size_classes_def strategy_ok_def DefaultAllocStrategy_def BUCKET_CAPACITY_def MAX_BUCKET_BUFFERS_def
      MAX_BUFFER_SLOTS_def)

lemma MemMgr_inv:
  assumes "\<forall>c \<in> set size_classes. strategy_ok strat (of_nat c)" "mem_ok m"
  shows "\<exists>mm. MemMgr strat m = Inr mm \<and> mm_inv (replicate (length size_classes) []) mm"
  using setup_pools_spec [OF assms] by (auto simp: MemMgr_def mm_inv_def class_ok_def)



end
