(* ===== verification/Io_Buf.thy ===== *)
theory Io_Buf
  imports General_Pool
begin

text \<open>
  Buffers for device input and output, \<^verbatim>\<open>lib/spdk/SpdkIoBuf.cpp\<close> and \<^verbatim>\<open>lib/spdk/SpdkIoBuf.h\<close>: eight size
  classes with a pool for writing and one for reading each, over the pools of \<open>General_Pool\<close>, and
  single buffers for larger requests. A pooled buffer gets its DMA memory when it is handed out for
  the first time and keeps it. The allocator of DMA memory is a parameter.
\<close>

section \<open>State and operations\<close>

text \<open>A buffer is named by its pool and its object there; \<open>Single\<close> is one made with \<open>new\<close>.\<close>

datatype direction = WritePool | ReadPool
datatype buf_ref = Pooled direction nat obj | Single nat

definition blockSize :: nat where
  "blockSize = 8"

record SpdkIoBufMgr =
  bufPools :: "direction \<Rightarrow> (obj_mem \<times> pool) list"
  spdkDmaBuf :: "buf_ref \<Rightarrow> bytes option"
  backIdx :: "buf_ref \<Rightarrow> int"
  singles :: nat

type_synonym zmalloc_fn = "nat \<Rightarrow> bytes option"

definition getPoolBuf :: "direction \<Rightarrow> nat \<Rightarrow> SpdkIoBufMgr \<Rightarrow> pool_error + buf_ref \<times> SpdkIoBufMgr" where
  "getPoolBuf d i m =
     (case pool_sys_get (bufPools m d ! i) of
        Inl e \<Rightarrow> Inl e
      | Inr (ob, s) \<Rightarrow> Inr (Pooled d i ob, m\<lparr>bufPools := (bufPools m)(d := (bufPools m d)[i := s])\<rparr>))"

definition setSpdkDmaBuf :: "buf_ref \<Rightarrow> bytes option \<Rightarrow> SpdkIoBufMgr \<Rightarrow> SpdkIoBufMgr" where
  "setSpdkDmaBuf r bs m = m\<lparr>spdkDmaBuf := (spdkDmaBuf m)(r := bs)\<rparr>"

definition setIdx :: "buf_ref \<Rightarrow> int \<Rightarrow> SpdkIoBufMgr \<Rightarrow> SpdkIoBufMgr" where
  "setIdx r i m = m\<lparr>backIdx := (backIdx m)(r := i)\<rparr>"

definition newSingle :: "zmalloc_fn \<Rightarrow> u32 \<Rightarrow> SpdkIoBufMgr \<Rightarrow> buf_ref \<times> SpdkIoBufMgr" where
  "newSingle zm ioSize m =
     (let r = Single (singles m)
      in (r, setSpdkDmaBuf r (zm (unat ioSize)) (setIdx r (- 1) (m\<lparr>singles := singles m + 1\<rparr>))))"

definition getIoWriteBuf :: "zmalloc_fn \<Rightarrow> u32 \<Rightarrow> SpdkIoBufMgr \<Rightarrow> pool_error + buf_ref \<times> SpdkIoBufMgr" where
  "getIoWriteBuf zm ioSize m =
     (let bufIdx = unat ioSize div 4096
      in if bufIdx < blockSize
         then (case getPoolBuf WritePool bufIdx m of
                 Inl e \<Rightarrow> Inl e
               | Inr (r, m) \<Rightarrow> Inr (r, if spdkDmaBuf m r = None then setSpdkDmaBuf r (zm (unat ioSize)) m else m))
         else Inr (newSingle zm ioSize m))"

definition getIoReadBuf :: "zmalloc_fn \<Rightarrow> u32 \<Rightarrow> SpdkIoBufMgr \<Rightarrow> pool_error + buf_ref \<times> SpdkIoBufMgr" where
  "getIoReadBuf zm ioSize m =
     (let bufIdx = unat ioSize div 4096
      in if bufIdx < blockSize
         then (case getPoolBuf ReadPool bufIdx m of
                 Inl e \<Rightarrow> Inl e
               | Inr (r, m) \<Rightarrow>
                  (let m = setIdx r (int bufIdx) m
                   in Inr (r, if spdkDmaBuf m r = None then setSpdkDmaBuf r (zm (unat ioSize)) m else m)))
         else Inr (newSingle zm ioSize m))"

text \<open>Returning a buffer: \<open>d\<close> is the pool the call names. The pool of the other direction has no
  object of this one, which \<open>pool_put\<close> answers with \<open>WrongPool\<close>. A deleted buffer has no memory.\<close>

definition putPoolBuf :: "direction \<Rightarrow> buf_ref \<Rightarrow> SpdkIoBufMgr \<Rightarrow> pool_error + SpdkIoBufMgr" where
  "putPoolBuf d r m =
     (if backIdx m r \<noteq> - 1
      then (case r of
              Single k \<Rightarrow> Inl WrongPool
            | Pooled d' i ob \<Rightarrow>
               (if d' \<noteq> d then Inl WrongPool
                else case pool_sys_put ob (bufPools m d ! i) of
                       Inl e \<Rightarrow> Inl e
                     | Inr s \<Rightarrow> Inr (m\<lparr>bufPools := (bufPools m)(d := (bufPools m d)[i := s])\<rparr>)))
      else Inr (setSpdkDmaBuf r None m))"

definition putIoWriteBuf :: "buf_ref \<Rightarrow> SpdkIoBufMgr \<Rightarrow> pool_error + SpdkIoBufMgr" where
  "putIoWriteBuf = putPoolBuf WritePool"

definition putIoReadBuf :: "buf_ref \<Rightarrow> SpdkIoBufMgr \<Rightarrow> pool_error + SpdkIoBufMgr" where
  "putIoReadBuf = putPoolBuf ReadPool"

text \<open>The manager over the static pools.\<close>

definition new_SpdkIoBufMgr :: "(direction \<Rightarrow> (obj_mem \<times> pool) list) \<Rightarrow> SpdkIoBufMgr" where
  "new_SpdkIoBufMgr ps = \<lparr>bufPools = ps, spdkDmaBuf = (\<lambda>_. None), backIdx = (\<lambda>_. 0), singles = 0\<rparr>"

section \<open>Invariant\<close>

text \<open>The objects of one pool among the buffers in use.\<close>

fun objs_of :: "direction \<Rightarrow> nat \<Rightarrow> buf_ref list \<Rightarrow> obj list" where
  "objs_of d i [] = []"
| "objs_of d i (Pooled d' i' ob # rs) = (if d' = d \<and> i' = i then ob # objs_of d i rs else objs_of d i rs)"
| "objs_of d i (Single k # rs) = objs_of d i rs"

definition dma_ok :: "SpdkIoBufMgr \<Rightarrow> bool" where
  "dma_ok m \<longleftrightarrow> (\<forall>d i ob bs. spdkDmaBuf m (Pooled d i ob) = Some bs \<longrightarrow> length bs = 4096 * i)"

fun ref_ok :: "nat \<Rightarrow> buf_ref \<Rightarrow> bool" where
  "ref_ok n (Pooled d i ob) \<longleftrightarrow> i < blockSize"
| "ref_ok n (Single k) \<longleftrightarrow> k < n"

definition mgr_inv :: "buf_ref list \<Rightarrow> SpdkIoBufMgr \<Rightarrow> bool" where
  "mgr_inv out m \<longleftrightarrow>
     (\<forall>d. length (bufPools m d) = blockSize) \<and>
     (\<forall>d. \<forall>i < blockSize. case bufPools m d ! i of (om, p) \<Rightarrow> pool_inv (objs_of d i out) om p) \<and>
     (\<forall>r \<in> set out. ref_ok (singles m) r) \<and>
     distinct [r \<leftarrow> out. \<exists>k. r = Single k] \<and> (\<forall>k. k < singles m \<longrightarrow> backIdx m (Single k) = - 1) \<and>
     (\<forall>d i ob. backIdx m (Pooled d i ob) \<noteq> - 1) \<and> dma_ok m"

lemma mem_objs_of: "ob \<in> set (objs_of d i out) \<longleftrightarrow> Pooled d i ob \<in> set out"
  by (induction d i out rule: objs_of.induct) auto

lemma objs_of_remove: "objs_of d i (remove1 (Pooled d i ob) out) = remove1 ob (objs_of d i out)"
  by (induction d i out rule: objs_of.induct) auto

lemma objs_of_remove_other: "\<not> (\<exists>ob. r = Pooled d i ob) \<Longrightarrow> objs_of d i (remove1 r out) = objs_of d i out"
  by (induction d i out rule: objs_of.induct) auto

lemma distinct_split:
  assumes "\<And>d i. distinct (objs_of d i out)" "distinct [r \<leftarrow> out. \<exists>k. r = Single k]"
  shows "distinct out"
  using assms
proof (induction out)
  case (Cons r out)
  have d: "distinct out"
  proof (rule Cons.IH)
    show "distinct (objs_of d i out)" for d i using Cons.prems(1) [of d i] by (cases r) (auto split: if_splits)
    show "distinct [r \<leftarrow> out. \<exists>k. r = Single k]" using Cons.prems(2) by (auto split: if_splits)
  qed
  moreover have "r \<notin> set out"
  proof (cases r)
    case (Pooled d i ob)
    then show ?thesis using Cons.prems(1) [of d i] by (simp add: mem_objs_of)
  next
    case (Single k)
    then show ?thesis using Cons.prems(2) by auto
  qed
  ultimately show ?case by simp
qed simp

lemma mgr_inv_distinct: "mgr_inv out m \<Longrightarrow> distinct out"
proof (rule distinct_split)
  assume inv: "mgr_inv out m"
  show "distinct [r \<leftarrow> out. \<exists>k. r = Single k]" using inv by (simp add: mgr_inv_def)
  fix d i
  show "distinct (objs_of d i out)"
  proof (cases "i < blockSize")
    case True
    then have "case bufPools m d ! i of (om, p) \<Rightarrow> pool_inv (objs_of d i out) om p" using inv by (simp add: mgr_inv_def)
    then show ?thesis unfolding pool_inv_def by (simp split: prod.splits)
  next
    case False
    have bound: "\<forall>r \<in> set out. ref_ok (singles m) r"
      using inv unfolding mgr_inv_def by blast
    have "ob \<notin> set (objs_of d i out)" for ob
      using bspec [OF bound, of "Pooled d i ob"] False by (auto simp: mem_objs_of)
    then have "objs_of d i out = []" by (meson last_in_set)
    then show ?thesis by simp
  qed
qed

section \<open>Handing out and returning\<close>

lemma mgr_inv_pool:
  assumes inv: "mgr_inv out m" and i: "i < blockSize" and s: "case s of (om, p) \<Rightarrow> pool_inv os om p"
    and out: "objs_of d i out' = os" "\<And>d' i'. (d', i') \<noteq> (d, i) \<Longrightarrow> objs_of d' i' out' = objs_of d' i' out"
    and bound: "\<forall>r \<in> set out'. ref_ok (singles m) r"
    and single: "[r \<leftarrow> out'. \<exists>k. r = Single k] = [r \<leftarrow> out. \<exists>k. r = Single k]"
  shows "mgr_inv out' (m\<lparr>bufPools := (bufPools m)(d := (bufPools m d)[i := s])\<rparr>)"
proof -
  let ?ps = "(bufPools m)(d := (bufPools m d)[i := s])"
  have len: "length (bufPools m e) = blockSize" for e using inv by (simp add: mgr_inv_def)
  have "case ?ps e ! j of (om, p) \<Rightarrow> pool_inv (objs_of e j out') om p" if "j < blockSize" for e j
  proof (cases "e = d \<and> j = i")
    case True
    then show ?thesis using s out(1) len i by simp
  next
    case False
    then have "?ps e ! j = bufPools m e ! j" "objs_of e j out' = objs_of e j out" using out(2) by auto
    then show ?thesis using inv that by (simp add: mgr_inv_def)
  qed
  then show ?thesis using inv bound single len unfolding mgr_inv_def dma_ok_def by simp
qed

lemma getPoolBuf_spec:
  assumes inv: "mgr_inv out m" and i: "i < blockSize"
  shows "getPoolBuf d i m = Inl NoMoreBuffers \<or>
     (\<exists>ob m'. getPoolBuf d i m = Inr (Pooled d i ob, m') \<and> mgr_inv (Pooled d i ob # out) m' \<and>
        spdkDmaBuf m' = spdkDmaBuf m \<and> singles m' = singles m)"
proof -
  have p: "case bufPools m d ! i of (om, p) \<Rightarrow> pool_inv (objs_of d i out) om p" using inv i by (simp add: mgr_inv_def)
  from general_pool.get_fresh [OF p] show ?thesis
  proof (elim disjE bexE exE conjE)
    fix ob s assume g: "pool_sys_get (bufPools m d ! i) = Inr (ob, s)" "case s of (om, p) \<Rightarrow> pool_inv (ob # objs_of d i out) om p"
    have "mgr_inv (Pooled d i ob # out) (m\<lparr>bufPools := (bufPools m)(d := (bufPools m d)[i := s])\<rparr>)"
      by (rule mgr_inv_pool [OF inv i g(2)]) (use inv i in \<open>auto simp: mgr_inv_def\<close>)
    then show ?thesis using g(1) by (simp add: getPoolBuf_def)
  qed (simp add: getPoolBuf_def)
qed

lemma mgr_inv_dma:
  assumes "mgr_inv out m" "\<And>d i ob b. r = Pooled d i ob \<Longrightarrow> bs = Some b \<Longrightarrow> length b = 4096 * i"
  shows "mgr_inv out (setSpdkDmaBuf r bs m)"
proof -
  have "dma_ok (setSpdkDmaBuf r bs m)"
    using assms unfolding mgr_inv_def dma_ok_def setSpdkDmaBuf_def by auto
  then show ?thesis using assms(1) unfolding mgr_inv_def setSpdkDmaBuf_def by simp
qed

lemma mgr_inv_idx: "mgr_inv out m \<Longrightarrow> mgr_inv out (setIdx (Pooled d i ob) (int n) m)"
  unfolding mgr_inv_def dma_ok_def setIdx_def by simp

definition zmalloc_ok :: "zmalloc_fn \<Rightarrow> bool" where
  "zmalloc_ok zm \<longleftrightarrow> (\<forall>n bs. zm n = Some bs \<longrightarrow> length bs = n)"

definition get_buf_post :: "buf_ref list \<Rightarrow> SpdkIoBufMgr \<Rightarrow> u32 \<Rightarrow> buf_ref \<Rightarrow> SpdkIoBufMgr \<Rightarrow> bool" where
  "get_buf_post out m ioSize r m' \<longleftrightarrow>
     mgr_inv (r # out) m' \<and> (\<forall>bs. spdkDmaBuf m' r = Some bs \<longrightarrow> length bs = unat ioSize) \<and>
     (\<forall>r'. r' \<noteq> r \<longrightarrow> spdkDmaBuf m' r' = spdkDmaBuf m r')"

lemma newSingle_spec:
  assumes "mgr_inv out m" "zmalloc_ok zm" "newSingle zm ioSize m = (r, m')"
  shows "get_buf_post out m ioSize r m'"
proof -
  have r: "r = Single (singles m)" "m' = setSpdkDmaBuf r (zm (unat ioSize)) (setIdx r (- 1) (m\<lparr>singles := singles m + 1\<rparr>))"
    using assms(3) by (auto simp: newSingle_def Let_def)
  have "Single (singles m) \<notin> set out" using assms(1) by (fastforce simp: mgr_inv_def)
  moreover have "ref_ok (Suc (singles m)) q" if "q \<in> set out" for q
  proof -
    have "ref_ok (singles m) q" using assms(1) that unfolding mgr_inv_def by blast
    then show ?thesis by (cases q) auto
  qed
  ultimately have "mgr_inv (r # out) m'"
    using assms(1) unfolding mgr_inv_def dma_ok_def r setSpdkDmaBuf_def setIdx_def by (simp add: less_Suc_eq)
  then show ?thesis using assms(2) by (simp add: get_buf_post_def r setSpdkDmaBuf_def setIdx_def zmalloc_ok_def)
qed

lemma pooled_buf_spec:
  assumes "mgr_inv (Pooled d i ob # out) m" "zmalloc_ok zm" "unat ioSize = 4096 * i"
  shows "get_buf_post out m ioSize (Pooled d i ob)
     (if spdkDmaBuf m (Pooled d i ob) = None then setSpdkDmaBuf (Pooled d i ob) (zm (unat ioSize)) m else m)"
proof (cases "spdkDmaBuf m (Pooled d i ob)")
  case None
  have "mgr_inv (Pooled d i ob # out) (setSpdkDmaBuf (Pooled d i ob) (zm (unat ioSize)) m)"
    by (rule mgr_inv_dma [OF assms(1)]) (use assms(2,3) in \<open>auto simp: zmalloc_ok_def\<close>)
  then show ?thesis using None assms(2) by (simp add: get_buf_post_def setSpdkDmaBuf_def zmalloc_ok_def)
next
  case (Some bs)
  then have "length bs = unat ioSize" using assms(1,3) by (simp add: mgr_inv_def dma_ok_def)
  then show ?thesis using Some assms(1) by (simp add: get_buf_post_def)
qed

lemma size_class: "4096 dvd unat ioSize \<Longrightarrow> unat (ioSize :: u32) = 4096 * (unat ioSize div 4096)"
  by simp

lemma getIoWriteBuf_spec:
  assumes "mgr_inv out m" "zmalloc_ok zm" "4096 dvd unat ioSize"
  shows "getIoWriteBuf zm ioSize m = Inl NoMoreBuffers \<or>
     (\<exists>r m'. getIoWriteBuf zm ioSize m = Inr (r, m') \<and> get_buf_post out m ioSize r m')"
proof (cases "unat ioSize div 4096 < blockSize")
  case True
  from getPoolBuf_spec [OF assms(1) True, of WritePool] show ?thesis
  proof (elim disjE exE conjE)
    fix ob m' assume g: "getPoolBuf WritePool (unat ioSize div 4096) m = Inr (Pooled WritePool (unat ioSize div 4096) ob, m')"
      "mgr_inv (Pooled WritePool (unat ioSize div 4096) ob # out) m'" "spdkDmaBuf m' = spdkDmaBuf m"
    show ?thesis using pooled_buf_spec [OF g(2) assms(2) size_class [OF assms(3)]] g(1,3) True
      by (simp add: getIoWriteBuf_def get_buf_post_def Let_def)
  qed (use True in \<open>simp add: getIoWriteBuf_def\<close>)
next
  case False
  then show ?thesis using newSingle_spec [OF assms(1,2)] by (cases "newSingle zm ioSize m") (simp add: getIoWriteBuf_def)
qed

lemma getIoReadBuf_spec:
  assumes "mgr_inv out m" "zmalloc_ok zm" "4096 dvd unat ioSize"
  shows "getIoReadBuf zm ioSize m = Inl NoMoreBuffers \<or>
     (\<exists>r m'. getIoReadBuf zm ioSize m = Inr (r, m') \<and> get_buf_post out m ioSize r m')"
proof (cases "unat ioSize div 4096 < blockSize")
  case True
  from getPoolBuf_spec [OF assms(1) True, of ReadPool] show ?thesis
  proof (elim disjE exE conjE)
    fix ob m' assume g: "getPoolBuf ReadPool (unat ioSize div 4096) m = Inr (Pooled ReadPool (unat ioSize div 4096) ob, m')"
      "mgr_inv (Pooled ReadPool (unat ioSize div 4096) ob # out) m'" "spdkDmaBuf m' = spdkDmaBuf m"
    let ?m = "setIdx (Pooled ReadPool (unat ioSize div 4096) ob) (int (unat ioSize div 4096)) m'"
    have "spdkDmaBuf ?m = spdkDmaBuf m" using g(3) by (simp add: setIdx_def)
    then show ?thesis using g(1) True
        pooled_buf_spec [OF mgr_inv_idx [OF g(2), of ReadPool "unat ioSize div 4096" ob "unat ioSize div 4096"] assms(2) size_class [OF assms(3)]]
      by (simp add: getIoReadBuf_def get_buf_post_def Let_def)
  qed (use True in \<open>simp add: getIoReadBuf_def\<close>)
next
  case False
  then show ?thesis using newSingle_spec [OF assms(1,2)] by (cases "newSingle zm ioSize m") (simp add: getIoReadBuf_def)
qed

lemma putPoolBuf_spec:
  assumes inv: "mgr_inv out m" and r: "r \<in> set out" and d: "case r of Pooled d' i ob \<Rightarrow> d' = d | Single k \<Rightarrow> True"
  shows "putPoolBuf d r m = Inl NoMoreBuffers \<or>
     (\<exists>m'. putPoolBuf d r m = Inr m' \<and> mgr_inv (remove1 r out) m' \<and> (\<forall>r'. r' \<noteq> r \<longrightarrow> spdkDmaBuf m' r' = spdkDmaBuf m r'))"
proof (cases r)
  case (Pooled d' i ob)
  then have pd: "r = Pooled d i ob" using d by simp
  have i: "i < blockSize" and b: "backIdx m r \<noteq> - 1" using inv r pd by (auto simp: mgr_inv_def)
  have "case bufPools m d ! i of (om, p) \<Rightarrow> pool_inv (objs_of d i out) om p" using inv i by (simp add: mgr_inv_def)
  moreover have "ob \<in> set (objs_of d i out)" using r pd by (simp add: mem_objs_of)
  ultimately have "(\<exists>e \<in> {NoMoreBuffers}. pool_sys_put ob (bufPools m d ! i) = Inl e) \<or>
      (\<exists>s. pool_sys_put ob (bufPools m d ! i) = Inr s \<and> (case s of (om, p) \<Rightarrow> pool_inv (remove1 ob (objs_of d i out)) om p))"
    by (rule general_pool.put_back)
  then show ?thesis
  proof (elim disjE bexE exE conjE)
    fix s assume s: "pool_sys_put ob (bufPools m d ! i) = Inr s" "case s of (om, p) \<Rightarrow> pool_inv (remove1 ob (objs_of d i out)) om p"
    have ro: "\<forall>q \<in> set out. ref_ok (singles m) q" using inv unfolding mgr_inv_def by blast
    have "mgr_inv (remove1 r out) (m\<lparr>bufPools := (bufPools m)(d := (bufPools m d)[i := s])\<rparr>)"
    proof (rule mgr_inv_pool [OF inv i s(2)])
      show "objs_of d i (remove1 r out) = remove1 ob (objs_of d i out)" by (simp add: pd objs_of_remove)
      show "objs_of d' i' (remove1 r out) = objs_of d' i' out" if "(d', i') \<noteq> (d, i)" for d' i'
        using that by (intro objs_of_remove_other) (auto simp: pd)
      show "\<forall>r' \<in> set (remove1 r out). ref_ok (singles m) r'" using ro notin_set_remove1 by metis
      show "[r' \<leftarrow> remove1 r out. \<exists>k. r' = Single k] = [r' \<leftarrow> out. \<exists>k. r' = Single k]"
        by (simp add: pd filter_remove1 remove1_idem)
    qed
    then show ?thesis using s(1) b by (simp add: putPoolBuf_def pd)
  qed (use b in \<open>simp add: putPoolBuf_def pd\<close>)
next
  case (Single k)
  have b: "backIdx m r = - 1" using inv r Single by (fastforce simp: mgr_inv_def)
  have ro: "\<forall>q \<in> set out. ref_ok (singles m) q" using inv unfolding mgr_inv_def by blast
  have "\<forall>q \<in> set (remove1 r out). ref_ok (singles m) q" using ro notin_set_remove1 by metis
  moreover have "objs_of d' i (remove1 r out) = objs_of d' i out" for d' i by (rule objs_of_remove_other) (simp add: Single)
  ultimately have "mgr_inv (remove1 r out) m"
    using inv unfolding mgr_inv_def by (simp add: filter_remove1 distinct_remove1)
  then have "mgr_inv (remove1 r out) (setSpdkDmaBuf r None m)" by (rule mgr_inv_dma) simp
  then show ?thesis using b by (simp add: putPoolBuf_def setSpdkDmaBuf_def)
qed

section \<open>Clients\<close>

text \<open>A client holds buffers with the sizes it asked for and returns the \<open>k\<close>-th of them to the pool of
  its direction.\<close>

datatype buf_cmd = GetWrite u32 | GetRead u32 | PutBuf nat

definition put_buf :: "buf_ref \<Rightarrow> SpdkIoBufMgr \<Rightarrow> pool_error + SpdkIoBufMgr" where
  "put_buf r = (case r of Pooled WritePool i ob \<Rightarrow> putIoWriteBuf r | Pooled ReadPool i ob \<Rightarrow> putIoReadBuf r | Single k \<Rightarrow> putIoWriteBuf r)"

fun run_bufs :: "zmalloc_fn \<Rightarrow> buf_cmd list \<Rightarrow> (buf_ref \<times> u32) list \<Rightarrow> SpdkIoBufMgr \<Rightarrow> pool_error + (buf_ref \<times> u32) list \<times> SpdkIoBufMgr" where
  "run_bufs zm [] hs m = Inr (hs, m)"
| "run_bufs zm (GetWrite n # cs) hs m =
     (case getIoWriteBuf zm n m of Inl e \<Rightarrow> Inl e | Inr (r, m) \<Rightarrow> run_bufs zm cs ((r, n) # hs) m)"
| "run_bufs zm (GetRead n # cs) hs m =
     (case getIoReadBuf zm n m of Inl e \<Rightarrow> Inl e | Inr (r, m) \<Rightarrow> run_bufs zm cs ((r, n) # hs) m)"
| "run_bufs zm (PutBuf k # cs) hs m =
     (if k < length hs
      then (case put_buf (fst (hs ! k)) m of Inl e \<Rightarrow> Inl e | Inr m \<Rightarrow> run_bufs zm cs (take k hs @ drop (Suc k) hs) m)
      else run_bufs zm cs hs m)"

fun cmd_aligned :: "buf_cmd \<Rightarrow> bool" where
  "cmd_aligned (GetWrite n) \<longleftrightarrow> 4096 dvd unat n"
| "cmd_aligned (GetRead n) \<longleftrightarrow> 4096 dvd unat n"
| "cmd_aligned (PutBuf k) \<longleftrightarrow> True"

definition held_ok :: "(buf_ref \<times> u32) list \<Rightarrow> SpdkIoBufMgr \<Rightarrow> bool" where
  "held_ok hs m \<longleftrightarrow> mgr_inv (map fst hs) m \<and>
     (\<forall>(r, n) \<in> set hs. \<forall>bs. spdkDmaBuf m r = Some bs \<longrightarrow> length bs = unat n)"

lemma held_get:
  assumes "held_ok hs m" "get_buf_post (map fst hs) m n r m'"
  shows "held_ok ((r, n) # hs) m'"
proof -
  have "r \<notin> fst ` set hs" using assms(2) mgr_inv_distinct [of "r # map fst hs" m'] by (simp add: get_buf_post_def)
  then have "spdkDmaBuf m' q = spdkDmaBuf m q" if "(q, k) \<in> set hs" for q k
    using that assms(2) unfolding get_buf_post_def by force
  then show ?thesis using assms unfolding held_ok_def get_buf_post_def by auto
qed

lemma remove1_nth: "distinct xs \<Longrightarrow> k < length xs \<Longrightarrow> remove1 (xs ! k) xs = take k xs @ drop (Suc k) xs"
proof (induction xs arbitrary: k)
  case (Cons x xs)
  then show ?case by (cases k) auto
qed simp

lemma held_put:
  assumes held: "held_ok hs m" and k: "k < length hs"
  shows "put_buf (fst (hs ! k)) m = Inl NoMoreBuffers \<or>
    (\<exists>m'. put_buf (fst (hs ! k)) m = Inr m' \<and> held_ok (take k hs @ drop (Suc k) hs) m')"
proof -
  let ?r = "fst (hs ! k)" and ?hs = "take k hs @ drop (Suc k) hs"
  have inv: "mgr_inv (map fst hs) m" using held by (simp add: held_ok_def)
  have dist: "distinct (map fst hs)" by (rule mgr_inv_distinct [OF inv])
  have rem: "remove1 ?r (map fst hs) = map fst ?hs"
    using remove1_nth [OF dist, of k] k by (simp add: take_map drop_map)
  obtain d where d: "put_buf ?r = putPoolBuf d ?r" "case ?r of Pooled d' i ob \<Rightarrow> d' = d | Single k \<Rightarrow> True"
  proof (cases ?r)
    case (Pooled e i ob)
    then have "put_buf ?r = putPoolBuf e ?r" by (cases e) (simp_all add: put_buf_def putIoWriteBuf_def putIoReadBuf_def)
    then show ?thesis using that [of e] Pooled by simp
  qed (use that [of WritePool] in \<open>simp add: put_buf_def putIoWriteBuf_def\<close>)
  have "?r \<in> set (map fst hs)" using k by (auto intro!: imageI)
  from putPoolBuf_spec [OF inv this d(2)] show ?thesis
  proof (elim disjE exE conjE)
    fix m' assume p: "putPoolBuf d ?r m = Inr m'" "mgr_inv (remove1 ?r (map fst hs)) m'"
      "\<forall>r'. r' \<noteq> ?r \<longrightarrow> spdkDmaBuf m' r' = spdkDmaBuf m r'"
    have "q \<noteq> ?r \<and> (q, n) \<in> set hs" if "(q, n) \<in> set ?hs" for q n
    proof -
      have "q \<in> set (remove1 ?r (map fst hs))" using that by (force simp: rem)
      then have "q \<noteq> ?r" using dist by simp
      moreover have "(q, n) \<in> set hs" using that set_take_subset [of k hs] set_drop_subset [of "Suc k" hs] by auto
      ultimately show ?thesis by simp
    qed
    then have "held_ok ?hs m'" using held p(2,3) unfolding held_ok_def rem by fastforce
    then show ?thesis using p(1) d(1) by simp
  qed (simp add: d(1))
qed

lemma run_bufs_ok:
  assumes "zmalloc_ok zm"
  shows "held_ok hs m \<Longrightarrow> \<forall>c \<in> set cs. cmd_aligned c \<Longrightarrow>
    run_bufs zm cs hs m = Inl NoMoreBuffers \<or> (\<exists>hs' m'. run_bufs zm cs hs m = Inr (hs', m') \<and> held_ok hs' m')"
proof (induction cs arbitrary: hs m)
  case (Cons c cs)
  have inv: "mgr_inv (map fst hs) m" using Cons.prems(1) by (simp add: held_ok_def)
  show ?case
  proof (cases c)
    case (GetWrite n)
    then show ?thesis using getIoWriteBuf_spec [OF inv assms, of n] Cons.prems Cons.IH [OF held_get [OF Cons.prems(1)]] by fastforce
  next
    case (GetRead n)
    then show ?thesis using getIoReadBuf_spec [OF inv assms, of n] Cons.prems Cons.IH [OF held_get [OF Cons.prems(1)]] by fastforce
  next
    case (PutBuf k)
    then show ?thesis using held_put [OF Cons.prems(1), of k] Cons by fastforce
  qed
qed simp

text \<open>The static pools, each made by its own constructor for objects of \<open>objSz\<close> bytes.\<close>

definition io_pools :: "alloc_strategy \<Rightarrow> u32 \<Rightarrow> direction \<Rightarrow> (obj_mem \<times> pool) list" where
  "io_pools strat objSz d = (case GeneralPool strat objSz no_objects of Inl e \<Rightarrow> [] | Inr s \<Rightarrow> replicate blockSize s)"

lemma new_mgr_inv: "strategy_ok strat sz \<Longrightarrow> mgr_inv [] (new_SpdkIoBufMgr (io_pools strat sz))"
proof -
  assume a: "strategy_ok strat sz"
  obtain m p where "GeneralPool strat sz no_objects = Inr (m, p)" "pool_inv [] m p"
    using GeneralPool_spec [OF a default_strategy_ok(2)] by blast
  then show ?thesis by (simp add: mgr_inv_def new_SpdkIoBufMgr_def io_pools_def dma_ok_def)
qed

section \<open>Properties\<close>

text \<open>C16. However a client gets and returns buffers for sizes that are multiples of 4096, as the device
  asks for, the buffers in use are pairwise different and the memory of each has exactly the size
  the client asked for, although pooled buffers keep the memory of their first use. The only failure
  is an exhausted pool.\<close>

theorem io_buffers_fit:
  assumes "strategy_ok strat sz" "zmalloc_ok zm" "\<forall>c \<in> set cs. cmd_aligned c"
  shows "run_bufs zm cs [] (new_SpdkIoBufMgr (io_pools strat sz)) = Inl NoMoreBuffers \<or>
    (\<exists>hs m. run_bufs zm cs [] (new_SpdkIoBufMgr (io_pools strat sz)) = Inr (hs, m) \<and> distinct (map fst hs) \<and>
       (\<forall>(r, n) \<in> set hs. \<forall>bs. spdkDmaBuf m r = Some bs \<longrightarrow> length bs = unat n))"
proof -
  have "held_ok [] (new_SpdkIoBufMgr (io_pools strat sz))" using new_mgr_inv [OF assms(1)] by (simp add: held_ok_def)
  from run_bufs_ok [OF assms(2) this assms(3)] show ?thesis
    using mgr_inv_distinct unfolding held_ok_def by blast
qed

definition zeros :: zmalloc_fn where
  "zeros n = Some (replicate n 0)"

theorem io_buffers_fit_witness:
  "let s = new_SpdkIoBufMgr (io_pools DefaultAllocStrategy 64); cs = [GetWrite 8192, GetRead 40960, PutBuf 1, GetWrite 8192]
   in run_bufs zeros cs [] s = Inl NoMoreBuffers \<or>
    (\<exists>hs m. run_bufs zeros cs [] s = Inr (hs, m) \<and> distinct (map fst hs) \<and>
       (\<forall>(r, n) \<in> set hs. \<forall>bs. spdkDmaBuf m r = Some bs \<longrightarrow> length bs = unat n))"
  unfolding Let_def by (rule io_buffers_fit [OF default_strategy_ok(1)]) (simp_all add: zmalloc_ok_def zeros_def)

end
