(* ===== verification/Free_List.thy ===== *)
theory Free_List
  imports Resource_Spec
begin

text \<open>
  The persistent list of free disk blocks, \<^verbatim>\<open>lib/offload/OffloadFreeList.cpp\<close>: linked nodes in
  persistent memory, with a queue for single blocks and one queue per size slot. An entry
  \<open>k \<ge> 0\<close> is one free block; an entry \<open>- k < 0\<close> stands for all blocks \<open>k .. maxLba - 1\<close> and
  block 0. The allocator of persistent memory is a parameter, of which the theorems assume that
  it returns an address not in use; a transaction that aborts leaves the memory as it was.
\<close>

section \<open>State\<close>

type_synonym addr = nat

record FreeLba =
  next_lba :: "addr option"
  lba :: int

type_synonym lba_heap = "addr \<rightharpoonup> FreeLba"

definition numSlots :: nat where
  "numSlots = 8"

record OffloadFreeList =
  fl_nodes :: lba_heap
  fl_head :: "addr option"
  fl_tail :: "addr option"
  fl_heads :: "addr option list"
  fl_tails :: "addr option list"
  maxLba :: u64

datatype tx_error = Abort_EINVAL | AllocFailed | BadPointer

type_synonym allocator = "lba_heap \<Rightarrow> addr option"

text \<open>What the code relies on of the persistent-memory allocator.\<close>

definition fresh_allocator :: "allocator \<Rightarrow> bool" where
  "fresh_allocator alloc \<longleftrightarrow> (\<forall>h a. alloc h = Some a \<longrightarrow> h a = None)"

definition new_free_list :: "u64 \<Rightarrow> OffloadFreeList" where
  "new_free_list n = \<lparr>fl_nodes = Map.empty, fl_head = None, fl_tail = None,
     fl_heads = replicate numSlots None, fl_tails = replicate numSlots None, maxLba = n\<rparr>"

section \<open>Operations\<close>

text \<open>The common body of \<open>push\<close> and \<open>pushBlock\<close>: append a node to the queue between two pointers.\<close>

definition push_node :: "allocator \<Rightarrow> int \<Rightarrow> lba_heap \<Rightarrow> addr option \<Rightarrow> addr option \<Rightarrow>
    tx_error + lba_heap \<times> addr option \<times> addr option" where
  "push_node alloc v h hp tp =
     (case alloc h of
        None \<Rightarrow> Inl AllocFailed
      | Some n \<Rightarrow>
         (let h = h(n \<mapsto> \<lparr>next_lba = None, lba = v\<rparr>)
          in if hp = None \<and> tp = None then Inr (h, Some n, Some n)
             else case tp of
                    None \<Rightarrow> Inl BadPointer
                  | Some t \<Rightarrow>
                     (case h t of
                        None \<Rightarrow> Inl BadPointer
                      | Some nd \<Rightarrow> Inr (h(t \<mapsto> nd\<lparr>next_lba := Some n\<rparr>), hp, Some n))))"

definition push :: "allocator \<Rightarrow> int \<Rightarrow> OffloadFreeList \<Rightarrow> tx_error + OffloadFreeList" where
  "push alloc v fl = map_sum id (\<lambda>(h, hp, tp). fl\<lparr>fl_nodes := h, fl_head := hp, fl_tail := tp\<rparr>)
     (push_node alloc v (fl_nodes fl) (fl_head fl) (fl_tail fl))"

definition pushBlock :: "allocator \<Rightarrow> int \<Rightarrow> nat \<Rightarrow> OffloadFreeList \<Rightarrow> tx_error + OffloadFreeList" where
  "pushBlock alloc v slot fl =
     map_sum id (\<lambda>(h, hp, tp). fl\<lparr>fl_nodes := h, fl_heads := (fl_heads fl)[slot := hp], fl_tails := (fl_tails fl)[slot := tp]\<rparr>)
       (push_node alloc v (fl_nodes fl) (fl_heads fl ! slot) (fl_tails fl ! slot))"

definition get_lba :: "OffloadFreeList \<Rightarrow> tx_error + int \<times> OffloadFreeList" where
  "get_lba fl =
     (case fl_head fl of
        None \<Rightarrow> Inl Abort_EINVAL
      | Some a \<Rightarrow>
         (if maxLba fl = 0 then Inl Abort_EINVAL
          else case fl_nodes fl a of
                 None \<Rightarrow> Inl BadPointer
               | Some nd \<Rightarrow>
                  (let ret = lba nd
                   in if 0 \<le> ret
                      then let n = next_lba nd
                           in Inr (ret, fl\<lparr>fl_nodes := (fl_nodes fl)(a := None), fl_head := n,
                                    fl_tail := (if n = None then None else fl_tail fl)\<rparr>)
                      else let ret = \<bar>ret\<bar>
                           in if ret < int (unat (maxLba fl - 1))
                              then Inr (ret, fl\<lparr>fl_nodes := (fl_nodes fl)(a \<mapsto> nd\<lparr>lba := lba nd - 1\<rparr>)\<rparr>)
                              else if ret = int (unat (maxLba fl - 1))
                              then Inr (ret, fl\<lparr>fl_nodes := (fl_nodes fl)(a \<mapsto> nd\<lparr>lba := 0\<rparr>)\<rparr>)
                              else Inl Abort_EINVAL)))"

text \<open>\<open>getBlock\<close>. The first loop takes queue entries; \<open>ret\<close> is read before it and never again, so
  every turn stores the first entry. \<open>k\<close> counts the free places of the caller's array.\<close>

fun block_pop :: "int \<Rightarrow> nat \<Rightarrow> lba_heap \<Rightarrow> addr \<Rightarrow> tx_error + int list \<times> lba_heap \<times> addr option" where
  "block_pop ret 0 h a = Inr ([], h, Some a)"
| "block_pop ret (Suc k) h a =
     (if ret < 0 then Inr ([], h, Some a)
      else case h a of
             None \<Rightarrow> Inl BadPointer
           | Some nd \<Rightarrow>
              (let h = h(a := None)
               in case next_lba nd of
                    None \<Rightarrow> Inr ([ret], h, None)
                  | Some n \<Rightarrow> map_sum id (\<lambda>(ls, r). (ret # ls, r)) (block_pop ret k h n)))"

text \<open>The second loop steps the marker. It gives the numbers stored; leaving it at zero stores a
  number that is not counted.\<close>

fun block_step :: "int \<Rightarrow> nat \<Rightarrow> int \<Rightarrow> int list \<times> int" where
  "block_step stp 0 m = ([], m)"
| "block_step stp (Suc k) m =
     (let m = m - stp; ret = \<bar>m\<bar>
      in if ret = 0 then ([], m) else (case block_step stp k m of (ls, m) \<Rightarrow> (ret # ls, m)))"

definition getBlock :: "nat \<Rightarrow> nat \<Rightarrow> OffloadFreeList \<Rightarrow> tx_error + int list \<times> OffloadFreeList" where
  "getBlock lbasSize slot fl =
     (case fl_heads fl ! slot of
        None \<Rightarrow> Inl Abort_EINVAL
      | Some a \<Rightarrow>
         (if maxLba fl = 0 then Inl Abort_EINVAL
          else case fl_nodes fl a of
                 None \<Rightarrow> Inl BadPointer
               | Some nd \<Rightarrow>
                  (case block_pop (lba nd) lbasSize (fl_nodes fl) a of
                     Inl e \<Rightarrow> Inl e
                   | Inr (ls, h, hp) \<Rightarrow>
                      (let fl' = fl\<lparr>fl_nodes := h, fl_heads := (fl_heads fl)[slot := hp],
                                 fl_tails := (if hp = None then (fl_tails fl)[slot := None] else fl_tails fl)\<rparr>
                       in case hp of
                            None \<Rightarrow> Inr (ls, fl')
                          | Some a' \<Rightarrow>
                             (if length ls < lbasSize \<and> lba nd < 0
                              then if nat \<bar>lba nd\<bar> \<le> unat (maxLba fl - of_nat (slot + 1))
                                   then case h a' of
                                          None \<Rightarrow> Inl BadPointer
                                        | Some nd' \<Rightarrow>
                                           (let (ls', m) = block_step (int (slot + 1)) (lbasSize - length ls) (lba nd')
                                            in Inr (ls @ ls', fl'\<lparr>fl_nodes := h(a' \<mapsto> nd'\<lparr>lba := m\<rparr>)\<rparr>))
                                   else Inl Abort_EINVAL
                              else Inr (ls, fl'))))))"

fun putBlock :: "allocator \<Rightarrow> int list \<Rightarrow> nat \<Rightarrow> OffloadFreeList \<Rightarrow> tx_error + OffloadFreeList" where
  "putBlock alloc [] slot fl = Inr fl"
| "putBlock alloc (l # ls) slot fl =
     (case pushBlock alloc l slot fl of Inl e \<Rightarrow> Inl e | Inr fl \<Rightarrow> putBlock alloc ls slot fl)"

text \<open>The loop of \<open>clear\<close> and \<open>clearBlock\<close>: fuel bounds the number of nodes freed; \<open>None\<close> when it
  does not suffice or a pointer is bad.\<close>

fun clear_nodes :: "nat \<Rightarrow> lba_heap \<Rightarrow> addr option \<Rightarrow> lba_heap option" where
  "clear_nodes k h None = Some h"
| "clear_nodes 0 h (Some a) = None"
| "clear_nodes (Suc k) h (Some a) =
     (case h a of None \<Rightarrow> None | Some nd \<Rightarrow> clear_nodes k (h(a := None)) (next_lba nd))"

definition clear_list :: "nat \<Rightarrow> OffloadFreeList \<Rightarrow> OffloadFreeList option" where
  "clear_list k fl = (case fl_head fl of None \<Rightarrow> Some fl
     | _ \<Rightarrow> map_option (\<lambda>h. fl\<lparr>fl_nodes := h, fl_head := None, fl_tail := None\<rparr>) (clear_nodes k (fl_nodes fl) (fl_head fl)))"

definition clearBlock :: "nat \<Rightarrow> nat \<Rightarrow> OffloadFreeList \<Rightarrow> OffloadFreeList option" where
  "clearBlock k slot fl = (case fl_heads fl ! slot of None \<Rightarrow> Some fl
     | _ \<Rightarrow> map_option (\<lambda>h. fl\<lparr>fl_nodes := h, fl_heads := (fl_heads fl)[slot := None], fl_tails := (fl_tails fl)[slot := None]\<rparr>)
         (clear_nodes k (fl_nodes fl) (fl_heads fl ! slot)))"

section \<open>Queues in the heap\<close>

fun chain :: "lba_heap \<Rightarrow> addr option \<Rightarrow> addr list \<Rightarrow> bool" where
  "chain h p [] \<longleftrightarrow> p = None"
| "chain h p (a # as) \<longleftrightarrow> p = Some a \<and> (\<exists>nd. h a = Some nd \<and> chain h (next_lba nd) as)"

definition queue_at :: "lba_heap \<Rightarrow> addr option \<Rightarrow> addr option \<Rightarrow> addr list \<Rightarrow> bool" where
  "queue_at h hp tp as \<longleftrightarrow> chain h hp as \<and> distinct as \<and> tp = (if as = [] then None else Some (last as))"

definition lbas_at :: "lba_heap \<Rightarrow> addr list \<Rightarrow> int list" where
  "lbas_at h as = map (\<lambda>a. lba (the (h a))) as"

lemma chain_dom: "chain h p as \<Longrightarrow> a \<in> set as \<Longrightarrow> h a \<noteq> None"
  by (induction as arbitrary: p) auto

lemma chain_cong: "(\<And>a. a \<in> set as \<Longrightarrow> h' a = h a) \<Longrightarrow> chain h' p as = chain h p as"
  by (induction as arbitrary: p) auto

lemma lbas_at_cong: "(\<And>a. a \<in> set as \<Longrightarrow> h' a = h a) \<Longrightarrow> lbas_at h' as = lbas_at h as"
  by (simp add: lbas_at_def)

lemma queue_at_cong: "(\<And>a. a \<in> set as \<Longrightarrow> h' a = h a) \<Longrightarrow> queue_at h' hp tp as = queue_at h hp tp as"
  using chain_cong [of as h' h] by (simp add: queue_at_def)

lemma chain_upd [simp]: "a \<notin> set as \<Longrightarrow> chain (h(a := x)) p as = chain h p as"
  by (rule chain_cong) auto

lemma lbas_at_upd [simp]: "a \<notin> set as \<Longrightarrow> lbas_at (h(a := x)) as = lbas_at h as"
  by (rule lbas_at_cong) auto

lemma chain_determines: "chain h p as \<Longrightarrow> chain h p bs \<Longrightarrow> as = bs"
proof (induction as arbitrary: p bs)
  case Nil
  then show ?case by (cases bs) auto
next
  case (Cons a as)
  then show ?case by (cases bs) auto
qed

lemma chain_snoc:
  assumes "chain h p (as @ [t])" "t \<notin> set as" "n \<notin> set as" "n \<noteq> t" "h t = Some nd"
  shows "chain (h(n \<mapsto> \<lparr>next_lba = None, lba = v\<rparr>, t \<mapsto> nd\<lparr>next_lba := Some n\<rparr>)) p (as @ [t, n])"
  using assms by (induction as arbitrary: p) auto

lemma push_node_spec:
  assumes q: "queue_at h hp tp as" and al: "fresh_allocator alloc"
  shows "(alloc h = None \<and> push_node alloc v h hp tp = Inl AllocFailed) \<or>
     (\<exists>n h' hp' tp'. alloc h = Some n \<and> h n = None \<and> push_node alloc v h hp tp = Inr (h', hp', tp') \<and>
        queue_at h' hp' tp' (as @ [n]) \<and> lbas_at h' (as @ [n]) = lbas_at h as @ [v] \<and>
        (\<forall>a. a \<notin> set (as @ [n]) \<longrightarrow> h' a = h a))"
proof (cases "alloc h")
  case None
  then show ?thesis by (simp add: push_node_def)
next
  case (Some n)
  have n: "h n = None" using al Some by (simp add: fresh_allocator_def)
  have nas: "n \<notin> set as" using q n chain_dom [of h hp as n] by (auto simp: queue_at_def)
  show ?thesis
  proof (cases as rule: rev_cases)
    case Nil
    then have "push_node alloc v h hp tp = Inr (h(n \<mapsto> \<lparr>next_lba = None, lba = v\<rparr>), Some n, Some n)"
      using q Some by (simp add: push_node_def queue_at_def)
    then show ?thesis using Nil Some n by (auto simp: queue_at_def lbas_at_def)
  next
    case (snoc bs t)
    have t: "hp \<noteq> None" "tp = Some t" "t \<notin> set bs" "chain h hp (bs @ [t])" "distinct bs"
      using q snoc by (auto simp: queue_at_def) (cases bs; simp)
    obtain nd where nd: "h t = Some nd" using chain_dom [OF t(4), of t] by auto
    let ?h = "h(n \<mapsto> \<lparr>next_lba = None, lba = v\<rparr>, t \<mapsto> nd\<lparr>next_lba := Some n\<rparr>)"
    have p: "push_node alloc v h hp tp = Inr (?h, hp, Some n)" using t nas snoc Some nd by (auto simp: push_node_def Let_def)
    have c: "chain ?h hp (bs @ [t, n])" using t nas snoc nd by (intro chain_snoc) auto
    have l: "lbas_at ?h (bs @ [t, n]) = lbas_at h (bs @ [t]) @ [v]"
      using t(3) nas snoc nd by (auto simp: lbas_at_def intro!: map_cong)
    show ?thesis using p c l Some n nas t(3,5) snoc
      by (intro disjI2 exI [of _ n] exI [of _ ?h] exI [of _ hp] exI [of _ "Some n"]) (auto simp: queue_at_def)
  qed
qed

section \<open>The blocks a queue stands for\<close>

definition expand :: "nat \<Rightarrow> int \<Rightarrow> int list" where
  "expand N x = (if 0 \<le> x then [x] else [- x..int N - 1] @ [0])"

definition free_blocks :: "nat \<Rightarrow> int list \<Rightarrow> int list" where
  "free_blocks N q = concat (map (expand N) q)"

text \<open>Free blocks and blocks in use together are the blocks of the device, each once.\<close>

definition lba_inv :: "nat \<Rightarrow> int list \<Rightarrow> int list \<Rightarrow> bool" where
  "lba_inv N q out \<longleftrightarrow> 2 \<le> N \<and> distinct (free_blocks N q @ out) \<and> set (free_blocks N q @ out) = {0..<int N} \<and>
     (\<forall>x \<in> set q. x < 0 \<longrightarrow> - x \<le> int N - 1)"

text \<open>The free list as a list of numbers.\<close>

definition take_entry :: "nat \<Rightarrow> int list \<Rightarrow> (int \<times> int list) option" where
  "take_entry N q =
     (case q of [] \<Rightarrow> None
      | x # r \<Rightarrow> if 0 \<le> x then Some (x, r)
                else if - x < int N - 1 then Some (- x, (x - 1) # r)
                else if - x = int N - 1 then Some (- x, 0 # r) else None)"

definition fl_inv :: "int list \<Rightarrow> OffloadFreeList \<Rightarrow> bool" where
  "fl_inv out fl \<longleftrightarrow> (\<exists>as. queue_at (fl_nodes fl) (fl_head fl) (fl_tail fl) as \<and>
     lba_inv (unat (maxLba fl)) (lbas_at (fl_nodes fl) as) out)"

lemma unat_minus_1: "x \<noteq> 0 \<Longrightarrow> unat (x - 1 :: u64) = unat x - 1"
  by (simp add: unat_sub word_le_nat_alt unat_gt_0 Suc_leI)

lemma get_lba_spec:
  assumes q: "queue_at (fl_nodes fl) (fl_head fl) (fl_tail fl) as" and N: "maxLba fl \<noteq> 0"
  shows "case take_entry (unat (maxLba fl)) (lbas_at (fl_nodes fl) as) of
       None \<Rightarrow> get_lba fl = Inl Abort_EINVAL
     | Some (x, r) \<Rightarrow> \<exists>fl' as'. get_lba fl = Inr (x, fl') \<and> maxLba fl' = maxLba fl \<and>
         queue_at (fl_nodes fl') (fl_head fl') (fl_tail fl') as' \<and> lbas_at (fl_nodes fl') as' = r \<and>
         set as' \<subseteq> set as \<and> fl_heads fl' = fl_heads fl \<and> fl_tails fl' = fl_tails fl \<and>
         (\<forall>a. a \<notin> set as \<longrightarrow> fl_nodes fl' a = fl_nodes fl a)"
proof (cases as)
  case Nil
  then show ?thesis using q by (simp add: queue_at_def take_entry_def lbas_at_def get_lba_def)
next
  case (Cons a bs)
  let ?h = "fl_nodes fl"
  obtain nd where nd: "fl_head fl = Some a" "?h a = Some nd" "chain ?h (next_lba nd) bs" "a \<notin> set bs" "distinct bs"
    "fl_tail fl = Some (last as)" using q Cons by (auto simp: queue_at_def)
  have p: "1 \<le> unat (maxLba fl)" using N by (simp add: Suc_leI unat_gt_0)
  have "int (unat (maxLba fl - 1)) = int (unat (maxLba fl)) - 1"
    by (simp only: unat_minus_1 [OF N] of_nat_diff [OF p] of_nat_1)
  then have M': "uint (maxLba fl - 1) = uint (maxLba fl) - 1" by simp
  have frame: "chain (?h(a := x)) p bs = chain ?h p bs" "lbas_at (?h(a := x)) bs = lbas_at ?h bs" for x p
    using nd(4) by simp_all
  have nx: "next_lba nd = None \<longleftrightarrow> bs = []" using nd(3) by (cases bs) auto
  have lb: "lbas_at ?h as = lba nd # lbas_at ?h bs" using Cons nd by (simp add: lbas_at_def)
  show ?thesis
  proof (cases "0 \<le> lba nd")
    case True
    let ?fl = "fl\<lparr>fl_nodes := ?h(a := None), fl_head := next_lba nd, fl_tail := (if next_lba nd = None then None else fl_tail fl)\<rparr>"
    have "get_lba fl = Inr (lba nd, ?fl)" using nd N True by (simp add: get_lba_def Let_def)
    moreover have "queue_at (fl_nodes ?fl) (fl_head ?fl) (fl_tail ?fl) bs" "lbas_at (fl_nodes ?fl) bs = lbas_at ?h bs"
      using nd nx Cons frame by (auto simp: queue_at_def)
    ultimately show ?thesis using True lb Cons by (auto simp: take_entry_def intro!: exI [of _ bs])
  next
    case False
    define y where "y = (if - lba nd < int (unat (maxLba fl)) - 1 then lba nd - 1 else 0)"
    let ?fl = "fl\<lparr>fl_nodes := ?h(a \<mapsto> nd\<lparr>lba := y\<rparr>)\<rparr>"
    have "queue_at (fl_nodes ?fl) (fl_head ?fl) (fl_tail ?fl) as" "lbas_at (fl_nodes ?fl) as = y # lbas_at ?h bs"
      using nd Cons frame by (auto simp: queue_at_def lbas_at_def)
    moreover have "get_lba fl = (if - lba nd \<le> int (unat (maxLba fl)) - 1 then Inr (- lba nd, ?fl) else Inl Abort_EINVAL)"
      using nd N False by (simp add: get_lba_def Let_def M' y_def)
    ultimately show ?thesis using False lb Cons
      by (auto simp: take_entry_def y_def intro!: exI [of _ as] split: if_splits)
  qed
qed

lemma expand_step: "x < 0 \<Longrightarrow> - x < int N - 1 \<Longrightarrow> expand N x = - x # expand N (x - 1)"
  by (simp add: expand_def upto_rec1 [of "- x"])

lemma expand_last: "x < 0 \<Longrightarrow> - x = int N - 1 \<Longrightarrow> expand N x = [- x, 0]"
  by (simp add: expand_def)

lemma take_entry_inv:
  assumes inv: "lba_inv N q out"
  shows "case take_entry N q of None \<Rightarrow> q = [] | Some (x, r) \<Rightarrow> lba_inv N r (x # out)"
proof (cases q)
  case Nil
  then show ?thesis by (simp add: take_entry_def)
next
  case (Cons x r)
  have b: "x < 0 \<Longrightarrow> - x \<le> int N - 1" using inv Cons by (simp add: lba_inv_def)
  have move: "lba_inv N r' (y # out)"
    if "free_blocks N q = y # free_blocks N r'" "\<forall>z \<in> set r'. z < 0 \<longrightarrow> - z \<le> int N - 1" for r' y
    using inv that by (auto simp: lba_inv_def)
  consider "0 \<le> x" | "x < 0" "- x < int N - 1" | "x < 0" "- x = int N - 1" using b by linarith
  then show ?thesis
  proof cases
    case 1
    then show ?thesis using Cons inv by (auto simp: take_entry_def free_blocks_def expand_def lba_inv_def intro!: move)
  next
    case 2
    then have "lba_inv N ((x - 1) # r) (- x # out)"
      using Cons inv by (intro move) (auto simp: free_blocks_def expand_step lba_inv_def)
    then show ?thesis using 2 Cons by (simp add: take_entry_def)
  next
    case 3
    then have "lba_inv N (0 # r) (- x # out)"
      using Cons inv by (intro move) (auto simp: free_blocks_def expand_last expand_def lba_inv_def)
    then show ?thesis using 3 Cons by (simp add: take_entry_def)
  qed
qed

lemma put_entry_inv:
  assumes inv: "lba_inv N q out" and v: "v \<in> set out"
  shows "lba_inv N (q @ [v]) (remove1 v out)"
proof -
  have "0 \<le> v" using inv v by (auto simp: lba_inv_def)
  then have "free_blocks N (q @ [v]) = free_blocks N q @ [v]" by (simp add: free_blocks_def expand_def)
  then show ?thesis using inv v \<open>0 \<le> v\<close> by (auto simp: lba_inv_def set_remove1_eq)
qed

section \<open>The free list as a supply of blocks\<close>

lemma fl_get:
  assumes "fl_inv out fl"
  shows "(get_lba fl = Inl Abort_EINVAL \<and> length out = unat (maxLba fl)) \<or>
     (\<exists>x fl'. get_lba fl = Inr (x, fl') \<and> fl_inv (x # out) fl' \<and> maxLba fl' = maxLba fl)"
proof -
  let ?N = "unat (maxLba fl)"
  obtain as where as: "queue_at (fl_nodes fl) (fl_head fl) (fl_tail fl) as" "lba_inv ?N (lbas_at (fl_nodes fl) as) out"
    using assms by (auto simp: fl_inv_def)
  have N: "maxLba fl \<noteq> 0" using as(2) by (auto simp: lba_inv_def)
  show ?thesis
  proof (cases "take_entry ?N (lbas_at (fl_nodes fl) as)")
    case None
    then have "lbas_at (fl_nodes fl) as = []" using take_entry_inv [OF as(2)] by simp
    then have "distinct out" "set out = {0..<int ?N}" using as(2) by (auto simp: lba_inv_def free_blocks_def)
    then have "length out = ?N" using distinct_card [of out] by simp
    then show ?thesis using get_lba_spec [OF as(1) N] None by simp
  next
    case (Some xr)
    then show ?thesis using get_lba_spec [OF as(1) N] take_entry_inv [OF as(2)]
      by (cases xr) (fastforce simp: fl_inv_def)
  qed
qed

lemma fl_push:
  assumes "fl_inv out fl" "v \<in> set out" "fresh_allocator alloc"
  shows "push alloc v fl = Inl AllocFailed \<or>
     (\<exists>fl'. push alloc v fl = Inr fl' \<and> fl_inv (remove1 v out) fl' \<and> maxLba fl' = maxLba fl)"
proof -
  obtain as where as: "queue_at (fl_nodes fl) (fl_head fl) (fl_tail fl) as"
    "lba_inv (unat (maxLba fl)) (lbas_at (fl_nodes fl) as) out" using assms(1) by (auto simp: fl_inv_def)
  consider "push_node alloc v (fl_nodes fl) (fl_head fl) (fl_tail fl) = Inl AllocFailed"
    | n h' hp' tp' where "push_node alloc v (fl_nodes fl) (fl_head fl) (fl_tail fl) = Inr (h', hp', tp')"
      "queue_at h' hp' tp' (as @ [n])" "lbas_at h' (as @ [n]) = lbas_at (fl_nodes fl) as @ [v]"
    using push_node_spec [OF as(1) assms(3)] by blast
  then show ?thesis
  proof cases
    case 2
    then show ?thesis using put_entry_inv [OF as(2) assms(2)]
      by (auto simp: push_def fl_inv_def intro!: exI [of _ "as @ [n]"])
  qed (simp add: push_def)
qed

lemma free_list_supply:
  assumes "fresh_allocator alloc"
  shows "resource_supply get_lba (push alloc) fl_inv {Abort_EINVAL, AllocFailed}"
proof (unfold_locales, goal_cases)
  case (1 out fl)
  then show ?case using fl_get [OF 1] by auto
next
  case (2 out fl v)
  then show ?case using fl_push [OF 2 assms] by auto
next
  case (3 out fl)
  then show ?case by (auto simp: fl_inv_def lba_inv_def)
qed

lemma lba_inv_marker: "2 \<le> N \<Longrightarrow> lba_inv N [- 1] []"
  by (auto simp: lba_inv_def free_blocks_def expand_def)

lemma fresh_free_list_inv:
  assumes al: "fresh_allocator alloc" and N: "2 \<le> unat N"
  shows "push alloc (- 1) (new_free_list N) = Inl AllocFailed \<or>
     (\<exists>fl. push alloc (- 1) (new_free_list N) = Inr fl \<and> fl_inv [] fl \<and> maxLba fl = N)"
proof -
  have q: "queue_at (fl_nodes (new_free_list N)) (fl_head (new_free_list N)) (fl_tail (new_free_list N)) []"
    by (simp add: queue_at_def new_free_list_def)
  have inv: "lba_inv (unat N) [- 1] []" using N by (rule lba_inv_marker)
  consider "push_node alloc (- 1) (fl_nodes (new_free_list N)) (fl_head (new_free_list N)) (fl_tail (new_free_list N)) = Inl AllocFailed"
    | n h' hp' tp' where "push_node alloc (- 1) (fl_nodes (new_free_list N)) (fl_head (new_free_list N)) (fl_tail (new_free_list N)) = Inr (h', hp', tp')"
      "queue_at h' hp' tp' [n]" "lbas_at h' [n] = [- 1]"
    using push_node_spec [OF q al, of "- 1"] by (auto simp: lbas_at_def)
  then show ?thesis
  proof cases
    case 2
    then show ?thesis using inv by (auto simp: push_def fl_inv_def new_free_list_def intro!: exI [of _ "[n]"])
  qed (simp add: push_def)
qed

section \<open>Taking a block of entries\<close>

lemma block_step_eq:
  "0 < stp \<Longrightarrow> m < 0 \<Longrightarrow> block_step stp k m = (map (\<lambda>i. stp * (int i + 1) - m) [0..<k], m - stp * int k)"
proof (induction k arbitrary: m)
  case (Suc k)
  have "map (\<lambda>i. stp * (int i + 1) - (m - stp)) [0..<k] = map (\<lambda>i. stp * (int i + 1) - m) [1..<Suc k]"
    by (simp add: map_Suc_upt [symmetric] algebra_simps del: upt_Suc)
  then show ?case using Suc by (simp add: Let_def upt_conv_Cons algebra_simps del: upt_Suc)
qed simp

lemma getBlock_marker:
  assumes "fl_heads fl ! slot = Some a" "fl_nodes fl a = Some nd" "maxLba fl \<noteq> 0" "lba nd = - int k" "0 < k"
    and "k \<le> unat (maxLba fl - of_nat (slot + 1))" "slot < length (fl_heads fl)" "0 < n"
  shows "getBlock n slot fl =
     Inr (map (\<lambda>i. int k + int (slot + 1) * (int i + 1)) [0..<n],
       fl\<lparr>fl_nodes := (fl_nodes fl)(a \<mapsto> nd\<lparr>lba := - int (k + (slot + 1) * n)\<rparr>)\<rparr>)"
proof -
  obtain m where n: "n = Suc m" using assms(8) by (cases n) auto
  have hs: "(fl_heads fl)[slot := Some a] = fl_heads fl" using assms(1) list_update_id [of "fl_heads fl" slot] by simp
  have bp: "block_pop (- int k) n (fl_nodes fl) a = Inr ([], fl_nodes fl, Some a)" using assms(5) n by simp
  have bs: "block_step (int (slot + 1)) n (- int k) =
      (map (\<lambda>i. int k + int (slot + 1) * (int i + 1)) [0..<n], - int (k + (slot + 1) * n))"
    using assms(5) by (subst block_step_eq) (simp_all add: algebra_simps)
  show ?thesis unfolding getBlock_def
    using assms(1-6,8) hs bp bs by (simp add: Let_def del: upt_Suc block_step.simps block_pop.simps)
qed

lemma clear_nodes_spec:
  "chain h p as \<Longrightarrow> distinct as \<Longrightarrow> length as \<le> k \<Longrightarrow> clear_nodes k h p = Some (\<lambda>a. if a \<in> set as then None else h a)"
proof (induction as arbitrary: k h p)
  case (Cons a as)
  then obtain nd k' where nd: "p = Some a" "h a = Some nd" "chain h (next_lba nd) as" "k = Suc k'" "a \<notin> set as"
    "distinct as" "length as \<le> k'" by (cases k) auto
  have c: "chain (h(a := None)) (next_lba nd) as" using nd(3,5) by simp
  have "clear_nodes k h p = clear_nodes k' (h(a := None)) (next_lba nd)" using nd by simp
  also have "\<dots> = Some (\<lambda>b. if b \<in> set as then None else (h(a := None)) b)" by (rule Cons.IH [OF c nd(6,7)])
  finally show ?case by (simp add: fun_eq_iff) 
qed auto

section \<open>Properties\<close>

text \<open>An allocator for the closed examples: the first free one of three addresses.\<close>

definition small_pmem :: allocator where
  "small_pmem h = (if h 0 = None then Some 0 else if h 1 = None then Some 1 else if h 2 = None then Some 2 else None)"

lemma small_pmem_fresh: "fresh_allocator small_pmem"
  by (auto simp: fresh_allocator_def small_pmem_def split: if_splits)

text \<open>C9. Single-block allocation never gives out a block twice. On a device of at least two
  blocks, after the initial marker is pushed and whatever sequence of \<open>get\<close> and \<open>push\<close> follows
  (a client returning only blocks it holds), the blocks in use are pairwise different blocks of
  the device and every other block is still free; the run stops early only because all memory or
  all blocks are used up.\<close>

theorem free_list_never_shares_blocks:
  assumes "fresh_allocator alloc" "2 \<le> unat N" "push alloc (- 1) (new_free_list N) = Inr fl"
  shows "(\<exists>e \<in> {Abort_EINVAL, AllocFailed}. run_supply get_lba (push alloc) cs [] fl = Inl e) \<or>
     (\<exists>out fl'. run_supply get_lba (push alloc) cs [] fl = Inr (out, fl') \<and> fl_inv out fl' \<and>
        distinct out \<and> set out \<subseteq> {0..<int (unat (maxLba fl'))})"
proof -
  have "fl_inv [] fl" using fresh_free_list_inv [OF assms(1,2)] assms(3) by auto
  note safe = resource_supply.run_supply_safe [OF free_list_supply [OF assms(1)] this, of cs]
  have "set out \<subseteq> {0..<int (unat (maxLba fl'))}" if "fl_inv out fl'" for out fl'
    using that by (auto simp: fl_inv_def lba_inv_def)
  then show ?thesis using safe by blast
qed

theorem free_list_never_shares_blocks_witness:
  "\<exists>fl out fl'. push small_pmem (- 1) (new_free_list 4) = Inr fl \<and>
     run_supply get_lba (push small_pmem) [Acquire, Acquire, Release 1, Acquire, Acquire] [] fl = Inr (out, fl') \<and>
     fl_inv out fl' \<and> distinct out \<and> out = [0, 3, 2]"
proof -
  define fl where "fl = (new_free_list 4)\<lparr>fl_nodes := [0 \<mapsto> \<lparr>next_lba = None, lba = - 1\<rparr>], fl_head := Some 0, fl_tail := Some 0\<rparr>"
  have p: "push small_pmem (- 1) (new_free_list 4) = Inr fl" 
    by (simp add: push_def push_node_def new_free_list_def small_pmem_def fl_def)
  have r: "\<exists>fl'. run_supply get_lba (push small_pmem) [Acquire, Acquire, Release 1, Acquire, Acquire] [] fl = Inr ([0, 3, 2], fl')"
    by (simp add: fl_def get_lba_def push_def push_node_def new_free_list_def small_pmem_def Let_def)
  then obtain fl' where r': "run_supply get_lba (push small_pmem) [Acquire, Acquire, Release 1, Acquire, Acquire] [] fl = Inr ([0, 3, 2], fl')" ..
  have "2 \<le> unat (4 :: u64)" by simp
  from free_list_never_shares_blocks [OF small_pmem_fresh this p, of "[Acquire, Acquire, Release 1, Acquire, Acquire]"] p r'
  show ?thesis by (simp only: sum.inject sum.distinct prod.inject) blast
qed

text \<open>C30. No block is lost: as long as a block of the device is free, \<open>get\<close> finds one; it reports
  an error exactly when every block is in use.\<close>

theorem free_list_get_fails_iff_full:
  assumes "fl_inv out fl"
  shows "get_lba fl = Inl Abort_EINVAL \<longleftrightarrow> length out = unat (maxLba fl)"
proof -
  have no: "length out \<noteq> unat (maxLba fl)" if "get_lba fl = Inr (x, fl')" "fl_inv (x # out) fl'" "maxLba fl' = maxLba fl" for x fl'
  proof -
    have "distinct (x # out)" "set (x # out) \<subseteq> {0..<int (unat (maxLba fl))}" using that(2,3) by (auto simp: fl_inv_def lba_inv_def)
    then have "length (x # out) \<le> unat (maxLba fl)"
      using card_mono [of "{0..<int (unat (maxLba fl))}" "set (x # out)"] distinct_card [of "x # out"] by simp
    then show ?thesis by simp
  qed
  show ?thesis using fl_get [OF assms] no by auto
qed

theorem free_list_get_fails_iff_full_witness:
  "\<exists>fl. fl_inv [] fl \<and> maxLba fl = 4 \<and> \<not> (get_lba fl = Inl Abort_EINVAL)"
proof -
  define fl where "fl = (new_free_list 4)\<lparr>fl_nodes := [0 \<mapsto> \<lparr>next_lba = None, lba = - 1\<rparr>], fl_head := Some 0, fl_tail := Some 0\<rparr>"
  have "queue_at (fl_nodes fl) (fl_head fl) (fl_tail fl) [0]" "lbas_at (fl_nodes fl) [0] = [- 1]" "maxLba fl = 4"
    by (simp_all add: fl_def queue_at_def lbas_at_def new_free_list_def)
  then have "fl_inv [] fl" using lba_inv_marker [of 4] by (auto simp: fl_inv_def intro!: exI [of _ "[0]"])
  then show ?thesis using free_list_get_fails_iff_full [of "[]" fl] \<open>maxLba fl = 4\<close> by auto
qed

text \<open>\<open>clear\<close> ends, frees every node of the queue and no other, and leaves an empty queue.\<close>

theorem clear_list_frees_queue:
  assumes "queue_at (fl_nodes fl) (fl_head fl) (fl_tail fl) as" "length as \<le> k"
  shows "\<exists>fl'. clear_list k fl = Some fl' \<and> fl_head fl' = None \<and> fl_tail fl' = None \<and>
     fl_nodes fl' = (\<lambda>a. if a \<in> set as then None else fl_nodes fl a)"
proof (cases "fl_head fl")
  case None
  then have "as = []" using assms(1) by (cases as) (auto simp: queue_at_def)
  then show ?thesis using assms(1) None by (simp add: clear_list_def queue_at_def)
next
  case (Some a)
  then show ?thesis using clear_nodes_spec [of "fl_nodes fl" "fl_head fl" as k] assms by (simp add: clear_list_def queue_at_def)
qed

theorem clear_list_frees_queue_witness:
  "\<exists>fl'. clear_list 2 ((new_free_list 4)\<lparr>fl_nodes := [0 \<mapsto> \<lparr>next_lba = Some 1, lba = 2\<rparr>, 1 \<mapsto> \<lparr>next_lba = None, lba = 3\<rparr>],
     fl_head := Some 0, fl_tail := Some 1\<rparr>) = Some fl' \<and> fl_head fl' = None \<and> fl_nodes fl' = Map.empty"
proof -
  let ?fl = "(new_free_list 4)\<lparr>fl_nodes := [0 \<mapsto> \<lparr>next_lba = Some 1, lba = 2\<rparr>, 1 \<mapsto> \<lparr>next_lba = None, lba = 3\<rparr>],
     fl_head := Some 0, fl_tail := Some 1\<rparr>"
  have "queue_at (fl_nodes ?fl) (fl_head ?fl) (fl_tail ?fl) [0, 1]" by (simp add: queue_at_def)
  then show ?thesis using clear_list_frees_queue [of ?fl "[0, 1]" 2] by (auto simp: fun_eq_iff)
qed

end
