(* ===== verification/Lba_Alloc.thy ===== *)
theory Lba_Alloc
  imports Free_List
begin

text \<open>
  The cache of free blocks in front of the free list, \<^verbatim>\<open>lib/offload/OffloadLbaAlloc.cpp\<close>: one
  bucket of 1024 block numbers per size bracket, refilled from and drained to the slot queues of
  the free list. The constructor leaves the arrays of the buckets uninitialised, so their first
  contents are a parameter.
\<close>

section \<open>State and operations\<close>

definition lbasSize :: nat where
  "lbasSize = 1024"

definition maxBuckets :: nat where
  "maxBuckets = 8"

record LbaBucket =
  sizeBracket :: nat
  lbas :: "int list"
  level :: nat

record OffloadLbaAlloc =
  lba_buckets :: "LbaBucket list"
  freeLbaList :: OffloadFreeList

datatype lba_error = Tx tx_error | OutOfBounds

definition LbaBucket_get :: "LbaBucket \<Rightarrow> int \<times> LbaBucket" where
  "LbaBucket_get b =
     (if level b = 0 then (- 1, b) else (lbas b ! (level b - 1), b\<lparr>level := level b - 1\<rparr>))"

text \<open>\<open>put\<close> increments \<open>level\<close> before it stores, so the store of the last place is outside the array.\<close>

definition LbaBucket_put :: "int \<Rightarrow> LbaBucket \<Rightarrow> lba_error + LbaBucket" where
  "LbaBucket_put v b =
     (if lbasSize \<le> level b then Inr b
      else let b = b\<lparr>level := level b + 1\<rparr>
           in if lbasSize \<le> level b then Inl OutOfBounds else Inr (b\<lparr>lbas := (lbas b)[level b := v]\<rparr>))"

definition set_bucket :: "nat \<Rightarrow> LbaBucket \<Rightarrow> OffloadLbaAlloc \<Rightarrow> OffloadLbaAlloc" where
  "set_bucket i b al = al\<lparr>lba_buckets := (lba_buckets al)[i := b]\<rparr>"

text \<open>\<open>OffloadLbaAlloc::getBlock\<close> on bucket \<open>i\<close>: the numbers are written to the front of the array.\<close>

definition refill :: "nat \<Rightarrow> OffloadLbaAlloc \<Rightarrow> lba_error + OffloadLbaAlloc" where
  "refill i al =
     (case getBlock lbasSize i (freeLbaList al) of
        Inl e \<Rightarrow> Inl (Tx e)
      | Inr (ls, fl) \<Rightarrow>
         (let b = lba_buckets al ! i
          in Inr (set_bucket i (b\<lparr>lbas := ls @ drop (length ls) (lbas b), level := length ls\<rparr>) (al\<lparr>freeLbaList := fl\<rparr>))))"

text \<open>The size in units of 4096 bytes becomes an \<open>uint32_t\<close>.\<close>

definition bucket_num :: "nat \<Rightarrow> nat" where
  "bucket_num ioSize = (ioSize div 4096) mod 2 ^ 32"

definition getLba :: "nat \<Rightarrow> OffloadLbaAlloc \<Rightarrow> lba_error + int \<times> OffloadLbaAlloc" where
  "getLba ioSize al =
     (let bucketNum = bucket_num ioSize
      in if maxBuckets \<le> bucketNum then Inr (- 1, al)
         else case (if level (lba_buckets al ! bucketNum) = 0 then refill bucketNum al else Inr al) of
                Inl e \<Rightarrow> Inl e
              | Inr al \<Rightarrow>
                 (let (v, b) = LbaBucket_get (lba_buckets al ! bucketNum) in Inr (v, set_bucket bucketNum b al)))"

text \<open>\<open>OffloadLbaAlloc::putBlock\<close> on bucket \<open>i\<close>.\<close>

definition drain :: "allocator \<Rightarrow> nat \<Rightarrow> OffloadLbaAlloc \<Rightarrow> lba_error + OffloadLbaAlloc" where
  "drain alloc i al =
     (let b = lba_buckets al ! i
      in case putBlock alloc (take lbasSize (lbas b)) i (freeLbaList al) of
           Inl e \<Rightarrow> Inl (Tx e)
         | Inr fl \<Rightarrow> Inr (set_bucket i (b\<lparr>level := 0\<rparr>) (al\<lparr>freeLbaList := fl\<rparr>)))"

definition putLba :: "allocator \<Rightarrow> int \<Rightarrow> nat \<Rightarrow> OffloadLbaAlloc \<Rightarrow> lba_error + OffloadLbaAlloc" where
  "putLba alloc v ioSize al =
     (let bucketNum = bucket_num ioSize
      in if maxBuckets \<le> bucketNum then Inr al
         else case (if lbasSize \<le> level (lba_buckets al ! bucketNum) then drain alloc bucketNum al else Inr al) of
                Inl e \<Rightarrow> Inl e
              | Inr al \<Rightarrow>
                 (case LbaBucket_put v (lba_buckets al ! bucketNum) of
                    Inl e \<Rightarrow> Inl e
                  | Inr b \<Rightarrow> Inr (set_bucket bucketNum b al)))"

fun push_markers :: "allocator \<Rightarrow> nat list \<Rightarrow> OffloadFreeList \<Rightarrow> tx_error + OffloadFreeList" where
  "push_markers alloc [] fl = Inr fl"
| "push_markers alloc (s # ss) fl =
     (case pushBlock alloc (- 1) s fl of Inl e \<Rightarrow> Inl e | Inr fl \<Rightarrow> push_markers alloc ss fl)"

definition OffloadLbaAlloc_create :: "allocator \<Rightarrow> int list \<Rightarrow> u64 \<Rightarrow> u64 \<Rightarrow> lba_error + OffloadLbaAlloc" where
  "OffloadLbaAlloc_create alloc junk blockCnt avgBlkPerLba =
     (case push alloc (- 1) (new_free_list (blockCnt div avgBlkPerLba)) of
        Inl e \<Rightarrow> Inl (Tx e)
      | Inr fl \<Rightarrow>
         (case push_markers alloc [0..<numSlots] fl of
            Inl e \<Rightarrow> Inl (Tx e)
          | Inr fl \<Rightarrow> Inr \<lparr>lba_buckets = map (\<lambda>i. \<lparr>sizeBracket = i + 1, lbas = junk, level = 0\<rparr>) [0..<maxBuckets],
                        freeLbaList = fl\<rparr>))"

text \<open>\<open>n\<close> requests of one size.\<close>

fun getLbas :: "nat \<Rightarrow> nat \<Rightarrow> OffloadLbaAlloc \<Rightarrow> lba_error + int list \<times> OffloadLbaAlloc" where
  "getLbas ioSize 0 al = Inr ([], al)"
| "getLbas ioSize (Suc n) al =
     (case getLba ioSize al of Inl e \<Rightarrow> Inl e
      | Inr (v, al) \<Rightarrow> map_sum id (\<lambda>(vs, al). (v # vs, al)) (getLbas ioSize n al))"

section \<open>Requests without returns\<close>

text \<open>The slot queue of the bracket is a single marker, all numbers cached or given out so far are
  at most the marker's and pairwise different.\<close>

definition bracket_inv :: "nat \<Rightarrow> int list \<Rightarrow> OffloadLbaAlloc \<Rightarrow> bool" where
  "bracket_inv i out al \<longleftrightarrow> i < maxBuckets \<and> length (lba_buckets al) = maxBuckets \<and> length (fl_heads (freeLbaList al)) = numSlots \<and>
     length (lbas (lba_buckets al ! i)) = lbasSize \<and> level (lba_buckets al ! i) \<le> lbasSize \<and>
     (\<exists>a nd k. fl_heads (freeLbaList al) ! i = Some a \<and> fl_nodes (freeLbaList al) a = Some nd \<and> lba nd = - int k \<and> 0 < k \<and>
        (\<forall>x \<in> set (take (level (lba_buckets al ! i)) (lbas (lba_buckets al ! i)) @ out). 0 < x \<and> x \<le> int k) \<and>
        distinct (take (level (lba_buckets al ! i)) (lbas (lba_buckets al ! i)) @ out))"

lemma refill_inv:
  assumes inv: "bracket_inv i out al" and lv: "level (lba_buckets al ! i) = 0"
  shows "(\<exists>e. refill i al = Inl (Tx e)) \<or>
     (\<exists>al'. refill i al = Inr al' \<and> bracket_inv i out al' \<and> level (lba_buckets al' ! i) = lbasSize)"
proof -
  let ?fl = "freeLbaList al" let ?b = "lba_buckets al ! i"
  obtain a nd k where k: "fl_heads ?fl ! i = Some a" "fl_nodes ?fl a = Some nd" "lba nd = - int k" "0 < k"
    "\<forall>x \<in> set out. 0 < x \<and> x \<le> int k" "distinct out" and len: "i < maxBuckets" "length (lba_buckets al) = maxBuckets"
    "length (fl_heads ?fl) = numSlots" "length (lbas ?b) = lbasSize"
    using inv lv unfolding bracket_inv_def by auto
  show ?thesis
  proof (cases "maxLba ?fl \<noteq> 0 \<and> k \<le> unat (maxLba ?fl - of_nat (i + 1))")
    case False
    have pop: "block_pop (- int k) lbasSize (fl_nodes ?fl) a = Inr ([], fl_nodes ?fl, Some a)"
      using k(4) by (simp add: lbasSize_def numeral_eq_Suc)
    have "\<exists>e. getBlock lbasSize i ?fl = Inl e"
      using False k(1-4) pop by (auto simp: getBlock_def Let_def lbasSize_def)
    then show ?thesis by (auto simp: refill_def)
  next
    case True
    define ls where "ls = map (\<lambda>j. int k + int (i + 1) * (int j + 1)) [0..<lbasSize]"
    define fl' where "fl' = ?fl\<lparr>fl_nodes := (fl_nodes ?fl)(a \<mapsto> nd\<lparr>lba := - int (k + (i + 1) * lbasSize)\<rparr>)\<rparr>"
    have gb: "getBlock lbasSize i ?fl = Inr (ls, fl')" unfolding ls_def fl'_def
      using True k len by (intro getBlock_marker) (auto simp: lbasSize_def numSlots_def maxBuckets_def)
    have ll: "length ls = lbasSize" by (simp add: ls_def)
    have lsb: "int k < x \<and> x \<le> int (k + (i + 1) * lbasSize)" if "x \<in> set ls" for x
    proof -
      obtain j where j: "j < lbasSize" "x = int k + int (i + 1) * (int j + 1)" using \<open>x \<in> set ls\<close> by (auto simp: ls_def)
      have "int (i + 1) * (int j + 1) \<le> int (i + 1) * int lbasSize" using j(1) by (intro mult_left_mono) auto
      then show ?thesis using j(2) by (simp add: algebra_simps add_pos_nonneg)
    qed
    have dls: "distinct ls" by (auto simp: ls_def distinct_map inj_on_def)
    have "distinct (ls @ out)" using dls k(5,6) lsb by fastforce
    moreover have "0 < x \<and> x \<le> int (k + (i + 1) * lbasSize)" if "x \<in> set (ls @ out)" for x
    proof (cases "x \<in> set ls")
      case True
      then show ?thesis using lsb [OF True] by linarith
    next
      case False
      then have "0 < x" "x \<le> int k" using that k(5) by auto
      moreover have "int k \<le> int (k + (i + 1) * lbasSize)" by simp
      ultimately show ?thesis by linarith
    qed
    ultimately have "bracket_inv i out (set_bucket i (?b\<lparr>lbas := ls @ drop (length ls) (lbas ?b), level := length ls\<rparr>) (al\<lparr>freeLbaList := fl'\<rparr>))"
      using k len ll unfolding bracket_inv_def
      by (auto simp: set_bucket_def fl'_def intro!: exI [of _ a] exI [of _ "k + (i + 1) * lbasSize"])
    then show ?thesis using gb ll len by (auto simp: refill_def Let_def set_bucket_def)
  qed
qed

lemma bucket_get_inv:
  assumes inv: "bracket_inv i out al" and lv: "0 < level (lba_buckets al ! i)"
  shows "\<exists>v b. LbaBucket_get (lba_buckets al ! i) = (v, b) \<and> bracket_inv i (v # out) (set_bucket i b al)"
proof -
  let ?b = "lba_buckets al ! i"
  obtain n where n: "level ?b = Suc n" using lv by (cases "level ?b") auto
  have len: "i < length (lba_buckets al)" "n < length (lbas ?b)" using inv n unfolding bracket_inv_def by auto
  have t: "take (Suc n) (lbas ?b) = take n (lbas ?b) @ [lbas ?b ! n]" using len(2) by (rule take_Suc_conv_app_nth)
  have "bracket_inv i (lbas ?b ! n # out) (set_bucket i (?b\<lparr>level := n\<rparr>) al)"
    using inv len n unfolding bracket_inv_def by (auto simp: set_bucket_def t)
  then show ?thesis using n by (simp add: LbaBucket_get_def)
qed

lemma getLba_inv:
  assumes inv: "bracket_inv (ioSize div 4096) out al"
  shows "(\<exists>e. getLba ioSize al = Inl (Tx e)) \<or>
     (\<exists>v al'. getLba ioSize al = Inr (v, al') \<and> bracket_inv (ioSize div 4096) (v # out) al')"
proof -
  let ?i = "ioSize div 4096"
  have i: "\<not> maxBuckets \<le> ?i" using inv by (simp add: bracket_inv_def)
  then have n: "bucket_num ioSize = ?i" by (simp add: bucket_num_def maxBuckets_def)
  have pop: "\<exists>v b. LbaBucket_get (lba_buckets al1 ! ?i) = (v, b) \<and> bracket_inv ?i (v # out) (set_bucket ?i b al1)"
    if "bracket_inv ?i out al1" "0 < level (lba_buckets al1 ! ?i)" for al1 using bucket_get_inv [OF that] .
  show ?thesis
  proof (cases "level (lba_buckets al ! ?i) = 0")
    case True
    consider e where "refill ?i al = Inl (Tx e)"
      | al1 where "refill ?i al = Inr al1" "bracket_inv ?i out al1" "0 < level (lba_buckets al1 ! ?i)"
      using refill_inv [OF inv True] by (auto simp: lbasSize_def)
    then show ?thesis
    proof cases
      case 2
      then show ?thesis using pop [of al1] True i by (auto simp: getLba_def Let_def n)
    qed (use True i in \<open>simp add: getLba_def Let_def n\<close>)
  next
    case False
    then show ?thesis using pop [OF inv] i by (auto simp: getLba_def Let_def n)
  qed
qed

lemma getLbas_inv:
  assumes "bracket_inv (ioSize div 4096) out al"
  shows "(\<exists>e. getLbas ioSize n al = Inl (Tx e)) \<or>
     (\<exists>vs al'. getLbas ioSize n al = Inr (vs, al') \<and> length vs = n \<and> bracket_inv (ioSize div 4096) (rev vs @ out) al')"
  using assms
proof (induction n arbitrary: out al)
  case (Suc n)
  consider e where "getLba ioSize al = Inl (Tx e)"
    | v al1 where "getLba ioSize al = Inr (v, al1)" "bracket_inv (ioSize div 4096) (v # out) al1"
    using getLba_inv [OF Suc.prems] by blast
  then show ?case
  proof cases
    case 2
    then show ?thesis using Suc.IH [OF 2(2)] by auto
  qed simp
qed auto

section \<open>Properties\<close>

text \<open>An allocator with one bracket in use, for the closed examples.\<close>

definition fresh_alloc_state :: "u64 \<Rightarrow> OffloadLbaAlloc" where
  "fresh_alloc_state N = \<lparr>lba_buckets = map (\<lambda>i. \<lparr>sizeBracket = i + 1, lbas = replicate lbasSize 0, level = 0\<rparr>) [0..<maxBuckets],
     freeLbaList = (new_free_list N)\<lparr>fl_nodes := (\<lambda>a. if a < numSlots then Some \<lparr>next_lba = None, lba = - 1\<rparr> else None),
       fl_heads := map Some [0..<numSlots], fl_tails := map Some [0..<numSlots]\<rparr>\<rparr>"

lemma fresh_alloc_state_inv: "i < maxBuckets \<Longrightarrow> bracket_inv i [] (fresh_alloc_state N)"
  by (simp add: bracket_inv_def fresh_alloc_state_def numSlots_def maxBuckets_def)

text \<open>C32. Requests alone never get the same block twice: as long as nothing is put back, the
  blocks \<open>getLba\<close> gives for one size bracket are pairwise different, across all refills of the
  bracket's cache; a run ends early only by an aborted transaction.\<close>

theorem getLbas_distinct:
  assumes "bracket_inv (ioSize div 4096) [] al"
  shows "(\<exists>e. getLbas ioSize n al = Inl (Tx e)) \<or>
     (\<exists>vs al'. getLbas ioSize n al = Inr (vs, al') \<and> length vs = n \<and> distinct vs \<and> (\<forall>v \<in> set vs. 0 < v))"
  using getLbas_inv [OF assms, of n] by (fastforce simp: bracket_inv_def)

theorem getLbas_distinct_witness:
  "bracket_inv (8192 div 4096) [] (fresh_alloc_state 100000) \<and>
   ((\<exists>e. getLbas 8192 5 (fresh_alloc_state 100000) = Inl (Tx e)) \<or>
     (\<exists>vs al'. getLbas 8192 5 (fresh_alloc_state 100000) = Inr (vs, al') \<and> length vs = 5 \<and> distinct vs \<and> (\<forall>v \<in> set vs. 0 < v)))"
proof -
  have "bracket_inv (8192 div 4096) [] (fresh_alloc_state 100000)" by (rule fresh_alloc_state_inv) (simp add: maxBuckets_def)
  then show ?thesis using getLbas_distinct [of 8192 "fresh_alloc_state 100000" 5] by blast
qed

text \<open>C15. A block returned to a bucket is not the block the next request gets: \<open>put\<close> stores one
  place above the one \<open>get\<close> reads. After two requests \<open>a\<close> and \<open>b\<close>, returning \<open>a\<close> makes the
  next request give \<open>b\<close> again, a block that is still in use.\<close>

theorem bucket_put_reissues_block_in_use:
  assumes "2 \<le> level b0" "level b0 \<le> length (lbas b0)" "length (lbas b0) = lbasSize"
    and "LbaBucket_get b0 = (x, b1)" "LbaBucket_get b1 = (y, b2)"
  shows "\<exists>b3. LbaBucket_put x b2 = Inr b3 \<and> fst (LbaBucket_get b3) = y"
proof -
  have "level b0 \<noteq> 0" "level b0 - 1 \<noteq> 0" using assms(1) by auto
  then have b: "x = lbas b0 ! (level b0 - 1)" "y = lbas b0 ! (level b0 - 2)" "b2 = b0\<lparr>level := level b0 - 2\<rparr>"
    using assms(4,5) by (auto simp: LbaBucket_get_def numeral_2_eq_2 split: if_splits)
  then show ?thesis using assms(1-3) by (simp add: LbaBucket_put_def LbaBucket_get_def Let_def)
qed

theorem bucket_put_reissues_block_in_use_witness:
  "\<exists>b1 b2 b3. LbaBucket_get \<lparr>sizeBracket = 1, lbas = [7, 8, 9] @ replicate 1021 0, level = 3\<rparr> = (9, b1) \<and>
     LbaBucket_get b1 = (8, b2) \<and> LbaBucket_put 9 b2 = Inr b3 \<and> fst (LbaBucket_get b3) = 8"
proof -
  define l where "l = [7, 8, 9 :: int] @ replicate 1021 0"
  let ?b = "\<lambda>n. \<lparr>sizeBracket = 1, lbas = l, level = n\<rparr>"
  have l: "l ! 2 = 9" "l ! 1 = 8" "length l = lbasSize" by (simp_all add: l_def lbasSize_def)
  have g: "LbaBucket_get (?b 3) = (9, ?b 2)" "LbaBucket_get (?b 2) = (8, ?b 1)" using l by (simp_all add: LbaBucket_get_def)
  have "\<exists>b3. LbaBucket_put 9 (?b 1) = Inr b3 \<and> fst (LbaBucket_get b3) = 8"
    by (rule bucket_put_reissues_block_in_use [OF _ _ _ g]) (simp_all add: l(3), simp_all add: lbasSize_def)
  then show ?thesis using g unfolding l_def by blast
qed

text \<open>The slot queues know nothing of each other: on a fresh device the first refill of the
  first bracket and the first refill of the second bracket both contain block 3.\<close>

theorem brackets_overlap:
  assumes "4 \<le> N"
  shows "\<exists>ls0 fl0 ls1 fl1. getBlock lbasSize 0 (freeLbaList (fresh_alloc_state N)) = Inr (ls0, fl0) \<and>
     getBlock lbasSize 1 fl0 = Inr (ls1, fl1) \<and> 3 \<in> set ls0 \<and> 3 \<in> set ls1"
proof -
  let ?fl = "freeLbaList (fresh_alloc_state N)"
  define nd where "nd = \<lparr>next_lba = None, lba = - 1\<rparr>"
  have u: "4 \<le> unat N" using assms by (simp add: word_le_nat_alt)
  then have m: "1 \<le> unat (N - 1)" "1 \<le> unat (N - 2)" "N \<noteq> 0" "1 \<le> N" "2 \<le> N"
    using assms by (auto simp: unat_sub word_le_nat_alt)
  have g0: "getBlock lbasSize 0 ?fl = Inr (map (\<lambda>i. int 1 + int (0 + 1) * (int i + 1)) [0..<lbasSize],
      ?fl\<lparr>fl_nodes := (fl_nodes ?fl)(0 \<mapsto> nd\<lparr>lba := - int (1 + (0 + 1) * lbasSize)\<rparr>)\<rparr>)"
    using m by (intro getBlock_marker) (auto simp: fresh_alloc_state_def new_free_list_def nd_def numSlots_def lbasSize_def)
  let ?fl0 = "?fl\<lparr>fl_nodes := (fl_nodes ?fl)(0 \<mapsto> nd\<lparr>lba := - int (1 + (0 + 1) * lbasSize)\<rparr>)\<rparr>"
  have g1: "getBlock lbasSize 1 ?fl0 = Inr (map (\<lambda>i. int 1 + int (1 + 1) * (int i + 1)) [0..<lbasSize],
      ?fl0\<lparr>fl_nodes := (fl_nodes ?fl0)(1 \<mapsto> nd\<lparr>lba := - int (1 + (1 + 1) * lbasSize)\<rparr>)\<rparr>)"
    using m by (intro getBlock_marker) (auto simp: fresh_alloc_state_def new_free_list_def nd_def numSlots_def lbasSize_def)
  have "3 \<in> set (map (\<lambda>i. int 1 + int (0 + 1) * (int i + 1)) [0..<lbasSize])"
    "3 \<in> set (map (\<lambda>i. int 1 + int (1 + 1) * (int i + 1)) [0..<lbasSize])"
    by (auto simp: lbasSize_def image_iff intro: bexI [of _ 1] bexI [of _ 0])
  then show ?thesis using g0 g1 by blast
qed

theorem brackets_overlap_witness:
  "\<exists>ls0 fl0 ls1 fl1. getBlock lbasSize 0 (freeLbaList (fresh_alloc_state 4096)) = Inr (ls0, fl0) \<and>
     getBlock lbasSize 1 fl0 = Inr (ls1, fl1) \<and> 3 \<in> set ls0 \<and> 3 \<in> set ls1"
proof -
  have "(4 :: u64) \<le> 4096" by simp
  then show ?thesis by (rule brackets_overlap)
qed

text \<open>Refilling does not look at the size of the device beyond the first number: on a fresh
  device with at most 1024 blocks the first refill of the first bracket succeeds and contains
  numbers of blocks the device does not have.\<close>

theorem refill_exceeds_device:
  assumes "2 \<le> unat N" "unat N \<le> lbasSize"
  shows "\<exists>ls fl. getBlock lbasSize 0 (freeLbaList (fresh_alloc_state N)) = Inr (ls, fl) \<and>
     length ls = lbasSize \<and> int (unat N) < last ls"
proof -
  let ?fl = "freeLbaList (fresh_alloc_state N)"
  define nd where "nd = \<lparr>next_lba = None, lba = - 1\<rparr>"
  have "N \<noteq> 0" using assms(1) by auto
  then have m: "1 \<le> unat (N - 1)" "N \<noteq> 0" using assms(1) unat_minus_1 [of N] by auto
  have g0: "getBlock lbasSize 0 ?fl = Inr (map (\<lambda>i. int 1 + int (0 + 1) * (int i + 1)) [0..<lbasSize],
      ?fl\<lparr>fl_nodes := (fl_nodes ?fl)(0 \<mapsto> nd\<lparr>lba := - int (1 + (0 + 1) * lbasSize)\<rparr>)\<rparr>)"
    using m by (intro getBlock_marker) (auto simp: fresh_alloc_state_def new_free_list_def nd_def numSlots_def lbasSize_def)
  have "last (map (\<lambda>i. int 1 + int (0 + 1) * (int i + 1)) [0..<lbasSize]) = int lbasSize + 1"
    by (simp add: last_map lbasSize_def)
  moreover have "int (unat N) < int lbasSize + 1" using assms(2) by linarith
  ultimately show ?thesis unfolding g0 by simp
qed

theorem refill_exceeds_device_witness:
  "\<exists>ls fl. getBlock lbasSize 0 (freeLbaList (fresh_alloc_state 16)) = Inr (ls, fl) \<and>
     length ls = lbasSize \<and> int (unat (16 :: u64)) < last ls"
  by (rule refill_exceeds_device) (simp_all add: lbasSize_def)

end
