(* ===== verification/Daqdb_Types.thy ===== *)
theory Daqdb_Types
  imports Daqdb_Prelude
begin

text \<open>
  Status codes, exceptions and addresses: \<^verbatim>\<open>include/daqdb/Status.h\<close>, \<^verbatim>\<open>include/daqdb/Types.h\<close> and the
  address types of \<^verbatim>\<open>lib/pmem/RTreeEngine.h\<close>. A throwing operation is a function to
  \<open>exn + 'a\<close>; \<open>Undefined\<close> marks an access through an invalid pointer or out of an array, which
  the C++ code has no defined behaviour for, \<open>NoReturn\<close> a call that never returns, \<open>Abort\<close> the
  end of the process and \<open>PoolError\<close> the exception of libpmemobj for a file that cannot be used.
\<close>

datatype StatusCode = OK | Errno nat | KEY_NOT_FOUND | BAD_KEY_FORMAT | PMEM_ALLOCATION_ERROR | DHT_ALLOCATION_ERROR
  | SPDK_ALLOCATION_ERROR | OFFLOAD_DISABLED_ERROR | QUEUE_FULL_ERROR | DHT_DISABLED_ERROR | TIME_OUT
  | DHT_CONNECT_ERROR | NOT_IMPLEMENTED | NOT_SUPPORTED | UNKNOWN_ERROR

definition MAX_ERRNO :: nat where
  "MAX_ERRNO = 2147483647"

text \<open>The number of each code; \<open>Errno n\<close> is a code below \<open>_MAX_ERRNO\<close> made from an errno.\<close>

fun status_value :: "StatusCode \<Rightarrow> nat" where
  "status_value OK = 0"
| "status_value (Errno n) = n"
| "status_value KEY_NOT_FOUND = MAX_ERRNO + 1"
| "status_value BAD_KEY_FORMAT = MAX_ERRNO + 2"
| "status_value PMEM_ALLOCATION_ERROR = MAX_ERRNO + 3"
| "status_value DHT_ALLOCATION_ERROR = MAX_ERRNO + 4"
| "status_value SPDK_ALLOCATION_ERROR = MAX_ERRNO + 5"
| "status_value OFFLOAD_DISABLED_ERROR = MAX_ERRNO + 6"
| "status_value QUEUE_FULL_ERROR = MAX_ERRNO + 7"
| "status_value DHT_DISABLED_ERROR = MAX_ERRNO + 8"
| "status_value TIME_OUT = MAX_ERRNO + 9"
| "status_value DHT_CONNECT_ERROR = MAX_ERRNO + 10"
| "status_value NOT_IMPLEMENTED = MAX_ERRNO + 11"
| "status_value NOT_SUPPORTED = MAX_ERRNO + 12"
| "status_value UNKNOWN_ERROR = MAX_ERRNO + 13"

definition errorMsg :: string where
  "errorMsg = ''DAQDB Error: ''"

text \<open>\<open>strerror\<close> of the C library is a parameter.\<close>

fun status_to_string :: "(nat \<Rightarrow> string) \<Rightarrow> StatusCode \<Rightarrow> string" where
  "status_to_string strerror OK = strerror 0"
| "status_to_string strerror (Errno n) = strerror n"
| "status_to_string strerror KEY_NOT_FOUND = errorMsg @ ''KEY_NOT_FOUND''"
| "status_to_string strerror BAD_KEY_FORMAT = errorMsg @ ''BAD_KEY_FORMAT''"
| "status_to_string strerror PMEM_ALLOCATION_ERROR = errorMsg @ ''PMEM_ALLOCATION_ERROR''"
| "status_to_string strerror DHT_ALLOCATION_ERROR = errorMsg @ ''DHT_ALLOCATION_ERROR''"
| "status_to_string strerror SPDK_ALLOCATION_ERROR = errorMsg @ ''SPDK_ALLOCATION_ERROR''"
| "status_to_string strerror OFFLOAD_DISABLED_ERROR = errorMsg @ ''OFFLOAD_DISABLED_ERROR''"
| "status_to_string strerror QUEUE_FULL_ERROR = errorMsg @ ''QUEUE_FULL_ERROR''"
| "status_to_string strerror DHT_DISABLED_ERROR = errorMsg @ ''DHT_DISABLED_ERROR''"
| "status_to_string strerror TIME_OUT = errorMsg @ ''TIME_OUT''"
| "status_to_string strerror DHT_CONNECT_ERROR = errorMsg @ ''DHT_CONNECT_ERROR_STATUSAAA''"
| "status_to_string strerror NOT_IMPLEMENTED = errorMsg @ ''NOT_IMPLEMENTED''"
| "status_to_string strerror NOT_SUPPORTED = errorMsg @ ''NOT_SUPPORTED''"
| "status_to_string strerror UNKNOWN_ERROR = errorMsg @ ''UNKNOWN_ERROR''"

definition status_ok :: "StatusCode \<Rightarrow> bool" where
  "status_ok s \<longleftrightarrow> s = OK"

datatype exn = OperationFailed StatusCode | NotImplemented | NotSupported | QueueFull | StdOutOfRange | Undefined
  | NoReturn | Abort | PoolError

datatype LOCATIONS = EMPTY | PMEM | DISK

record PciAddr =
  domain :: u32
  bus :: u8
  dev :: u8
  func :: u8

text \<open>The union with the packed address is read and written as one 64-bit word.\<close>

record DeviceAddr =
  dev_lba :: u64
  busAddr :: u64

end
