(* ===== verification/Device_Task.thy ===== *)
theory Device_Task
  imports Daqdb_Types
begin

text \<open>
  Requests and device tasks: \<^verbatim>\<open>lib/common/Rqst.h\<close>, \<^verbatim>\<open>lib/spdk/SpdkDevice.h\<close> and the size functions of
  \<^verbatim>\<open>lib/spdk/SpdkBdev.h\<close>. A key and its size are one list of bytes. A value pointer is what it points
  to: nothing, bytes, or the address block of a value on disk; its size is kept apart, since the
  code does not keep the two together. A request is named by the number of its pool object and a
  callback by a number. A task is built in the buffer of its request, so it carries the request.
\<close>

unbundle bit_operations_syntax

section \<open>Requests\<close>

datatype OffloadOperation = OFFLOAD_NONE | OFFLOAD_GET | OFFLOAD_UPDATE | OFFLOAD_REMOVE
datatype RqstOperation = RQST_NONE | RQST_GET | RQST_PUT | RQST_UPDATE

datatype mem = Null | Bytes bytes | AddrBlock DeviceAddr

record 'op Rqst =
  rq_id :: nat
  rq_op :: 'op
  rq_key :: bytes
  rq_value :: mem
  rq_valueSize :: u64
  rq_clb :: "nat option"
  rq_loc :: LOCATIONS

definition KEY_BUFFER_SIZE :: nat where
  "KEY_BUFFER_SIZE = 32"

text \<open>\<open>finalizeUpdate\<close> copies the key to a buffer of 32 bytes; the other two keep the pointer. They
  leave \<open>loc\<close> as the last user of the pooled request set it.\<close>

definition finalizeUpdate :: "bytes \<Rightarrow> mem \<Rightarrow> u64 \<Rightarrow> nat option \<Rightarrow> LOCATIONS \<Rightarrow> OffloadOperation Rqst \<Rightarrow> exn + OffloadOperation Rqst" where
  "finalizeUpdate key val valSize clb loc r =
     (if KEY_BUFFER_SIZE < length key then Inl Undefined
      else Inr (r\<lparr>rq_op := OFFLOAD_UPDATE, rq_key := key, rq_value := val, rq_valueSize := valSize, rq_clb := clb, rq_loc := loc\<rparr>))"

definition finalizeGet :: "bytes \<Rightarrow> mem \<Rightarrow> u64 \<Rightarrow> nat option \<Rightarrow> OffloadOperation Rqst \<Rightarrow> OffloadOperation Rqst" where
  "finalizeGet key val valSize clb r =
     r\<lparr>rq_op := OFFLOAD_GET, rq_key := key, rq_value := val, rq_valueSize := valSize, rq_clb := clb\<rparr>"

definition finalizeRemove :: "bytes \<Rightarrow> mem \<Rightarrow> u64 \<Rightarrow> nat option \<Rightarrow> OffloadOperation Rqst \<Rightarrow> OffloadOperation Rqst" where
  "finalizeRemove key val valSize clb r =
     r\<lparr>rq_op := OFFLOAD_REMOVE, rq_key := key, rq_value := val, rq_valueSize := valSize, rq_clb := clb\<rparr>"

section \<open>Devices\<close>

datatype CSpdkBdevState = SPDK_BDEV_INIT | SPDK_BDEV_NOT_FOUND | SPDK_BDEV_READY | SPDK_BDEV_ERROR

record SpdkBdevCtx =
  bdev_name :: string
  bdev_addr :: string
  blk_size :: u32
  data_blk_size :: u32
  buf_align :: u32
  blk_num :: u64
  io_pool_size :: u32
  io_cache_size :: u32
  io_min_size :: u32
  ctx_state :: CSpdkBdevState
  pci_addr :: PciAddr

text \<open>The union of a 64-bit word and a packed PCI address.\<close>

definition bus_to_pci :: "u64 \<Rightarrow> PciAddr" where
  "bus_to_pci w = \<lparr>domain = ucast w, bus = ucast (drop_bit 32 w), dev = ucast (drop_bit 40 w), func = ucast (drop_bit 48 w)\<rparr>"

definition set_pci :: "PciAddr \<Rightarrow> u64 \<Rightarrow> u64" where
  "set_pci p w = push_bit 56 (drop_bit 56 w) OR ucast (domain p) OR push_bit 32 (ucast (bus p)) OR
     push_bit 40 (ucast (dev p)) OR push_bit 48 (ucast (func p))"

text \<open>\<open>freeLba\<close> and \<open>result\<close> are zero in a new task, \<open>routing\<close> is true; the key buffer has 64 bytes.
  \<open>t_dev\<close> is the device the task is for.\<close>

record 'buf DeviceTask =
  t_buff :: "'buf option"
  t_size :: u64
  t_blockSize :: u32
  t_bdevAddr :: "DeviceAddr option"
  t_updatePmemIOV :: bool
  t_dev :: nat
  t_rqst :: "OffloadOperation Rqst"
  t_op :: OffloadOperation
  t_key :: bytes
  t_result :: bool
  t_freeLba :: u64
  t_routing :: bool

definition TASK_KEY_SIZE :: nat where
  "TASK_KEY_SIZE = 64"

text \<open>\<open>getOptimalSize\<close> rounds up to 4096; \<open>getAlignedSize\<close> masks with a 32-bit complement that is
  widened with zeros; \<open>getSizeInBlk\<close> narrows its result to 32 bits.\<close>

definition getOptimalSize :: "SpdkBdevCtx \<Rightarrow> u64 \<Rightarrow> u64" where
  "getOptimalSize c sz = (if sz \<noteq> 0 then ((sz - 1) div 4096 + 1) * ucast (io_min_size c) else 0)"

definition getAlignedSize :: "SpdkBdevCtx \<Rightarrow> u64 \<Rightarrow> u64" where
  "getAlignedSize c sz = (getOptimalSize c sz + ucast (blk_size c) - 1) AND ucast (NOT (blk_size c - 1))"

definition getSizeInBlk :: "SpdkBdevCtx \<Rightarrow> u64 \<Rightarrow> exn + u32" where
  "getSizeInBlk c sz = (if blk_size c = 0 then Inl Undefined else Inr (ucast (getOptimalSize c sz div ucast (blk_size c))))"

section \<open>Sizes\<close>

definition ctx_ok :: "SpdkBdevCtx \<Rightarrow> bool" where
  "ctx_ok c \<longleftrightarrow> io_min_size c = 4096 \<and> (\<exists>k \<le> 12. blk_size c = 2 ^ k)"

definition round_up :: "nat \<Rightarrow> nat \<Rightarrow> nat" where
  "round_up b n = (if n = 0 then 0 else ((n - 1) div b + 1) * b)"

lemma round_up_bounds:
  assumes "0 < b"
  shows "n \<le> round_up b n" "round_up b n < n + b" "b dvd round_up b n"
proof -
  have e: "(n - 1) div b * b + (n - 1) mod b = n - 1" by (rule div_mult_mod_eq)
  have l: "(n - 1) mod b < b" using assms by simp
  show "n \<le> round_up b n"
  proof (cases n)
    case (Suc k)
    then have "round_up b n = (n - 1) div b * b + b" by (simp add: round_up_def)
    then show ?thesis using e l Suc by linarith
  qed simp
  show "round_up b n < n + b"
  proof (cases n)
    case (Suc k)
    then have "round_up b n = (n - 1) div b * b + b" by (simp add: round_up_def)
    then show ?thesis using e Suc by linarith
  qed (simp add: round_up_def assms)
  show "b dvd round_up b n" by (simp add: round_up_def)
qed

lemma round_up_mult: "0 < b \<Longrightarrow> round_up b (b * q) = b * q"
proof (cases q)
  case (Suc r)
  assume b: "0 < b"
  have "(b * q - 1) div b = r"
    by (rule div_nat_eqI) (use b Suc in \<open>simp_all add: algebra_simps\<close>)
  then show ?thesis using b Suc by (simp add: round_up_def algebra_simps)
qed (simp add: round_up_def)

lemma round_up_idem: "0 < b \<Longrightarrow> round_up b (round_up b n) = round_up b n"
  using round_up_bounds(3) [of b n] by (auto elim!: dvdE simp: round_up_mult)

lemma round_up_le:
  assumes "0 < b" "n \<le> b * m"
  shows "round_up b n \<le> b * m"
proof -
  obtain q where q: "round_up b n = b * q" using round_up_bounds(3) [OF assms(1), of n] by (elim dvdE)
  have "b * q < b * m + b" using round_up_bounds(2) [OF assms(1), of n] assms(2) q by linarith
  then have "b * q < b * Suc m" by simp
  then have "q \<le> m" unfolding mult_less_cancel1 by simp
  then show ?thesis unfolding q by (rule mult_le_mono2)
qed

lemma unat_getOptimalSize:
  assumes "ctx_ok c" "unat sz \<le> 2 ^ 32"
  shows "unat (getOptimalSize c sz) = round_up 4096 (unat sz)"
proof (cases "sz = 0")
  case False
  have io: "(ucast (io_min_size c) :: u64) = 4096" using assms(1) by (simp add: ctx_ok_def)
  let ?q = "(unat sz - 1) div 4096"
  have q: "?q \<le> 1048576"
  proof -
    have "?q \<le> 2 ^ 32 div 4096" using assms(2) by (intro div_le_mono) linarith
    then show ?thesis by simp
  qed
  have u1: "unat (sz - 1) = unat sz - 1" using False by (simp add: unat_minus_one)
  have d: "unat ((sz - 1) div 4096) = ?q" by (simp add: unat_div u1)
  have d1: "unat ((sz - 1) div 4096 + 1) = ?q + 1" using q by (simp add: unat_word_ariths(1) d)
  have "unat (((sz - 1) div 4096 + 1) * 4096) = (?q + 1) * 4096"
    unfolding unat_word_ariths(2) d1 using q by simp
  then show ?thesis using False by (simp add: getOptimalSize_def io round_up_def unat_eq_0)
qed (simp add: getOptimalSize_def round_up_def)

lemma aligned_word:
  fixes w :: u64
  assumes "k \<le> 12" "4096 dvd unat w" "unat w < 2 ^ 32"
  shows "(w + 2 ^ k - 1) AND ucast (NOT (2 ^ k - 1 :: u32)) = w"
proof -
  have m: "(2 ^ k - 1 :: u64) = mask k" "(2 ^ k - 1 :: u32) = mask k" by (simp_all add: mask_eq_exp_minus_1)
  have "2 ^ k dvd (4096 :: nat)" using le_imp_power_dvd [OF assms(1), of "2 :: nat"] by simp
  then have "unat w mod 2 ^ k = 0" using assms(2) dvd_trans by (auto simp: mod_eq_0_iff_dvd)
  then have low: "w AND mask k = 0"
    by (simp add: take_bit_eq_mask [symmetric]) (metis take_bit_nat_def unat_eq_zero unsigned_take_bit_eq)
  have high: "w AND mask 32 = w"
    using assms(3) by (simp add: take_bit_eq_mask [symmetric] word_unat_eq_iff unsigned_take_bit_eq take_bit_nat_eq_self)
  have u: "(ucast (NOT (mask k :: u32)) :: u64) = mask 32 AND NOT (mask k)"
    by (auto simp: bit_eq_iff bit_simps)
  have "w + mask k = w OR mask k" using low by (rule disjunctive_add_eq_or)
  then have "(w + 2 ^ k - 1) AND ucast (NOT (2 ^ k - 1 :: u32)) = (w OR mask k) AND (mask 32 AND NOT (mask k))"
    using m u by (simp add: add_diff_eq [symmetric])
  also have "\<dots> = w" using low high by (auto simp: bit_eq_iff bit_simps)
  finally show ?thesis .
qed

lemma unat_blk:
  assumes "k \<le> 12"
  shows "unat (2 ^ k :: u32) = 2 ^ k" "(ucast (2 ^ k :: u32) :: u64) = 2 ^ k"
proof -
  have k12: "(2 :: nat) ^ k \<le> 2 ^ 12" using assms by (intro power_increasing) auto
  have "(2 ^ k :: u32) = of_nat (2 ^ k)" "(2 ^ k :: u64) = of_nat (2 ^ k)" by simp_all
  then show u: "unat (2 ^ k :: u32) = 2 ^ k" and "(ucast (2 ^ k :: u32) :: u64) = 2 ^ k"
    using k12 word_eq_of_nat [of "ucast (2 ^ k :: u32) :: u64" "2 ^ k"]
    by (simp_all only: unat_of_nat unat_ucast_u32_u64) (simp_all add: take_bit_nat_eq_self)
qed

lemma size_facts:
  assumes "ctx_ok c" "unat sz \<le> 2 ^ 32 - 4096"
  shows "unat (getAlignedSize c sz) = round_up 4096 (unat sz)" "getAlignedSize c sz = getOptimalSize c sz"
    and "\<exists>n. getSizeInBlk c (getAlignedSize c sz) = Inr n \<and> unat n * unat (blk_size c) = round_up 4096 (unat sz)"
proof -
  let ?r = "round_up 4096 (unat sz)"
  obtain k where k: "k \<le> 12" "blk_size c = 2 ^ k" using assms(1) by (auto simp: ctx_ok_def)
  have r: "?r \<le> 4294963200" "4096 dvd ?r"
    using round_up_le [of 4096 "unat sz" 1048575] round_up_bounds(3) [of 4096 "unat sz"] assms(2) by simp_all
  have opt: "unat (getOptimalSize c sz) = ?r" using assms by (intro unat_getOptimalSize) auto
  have lt: "unat (getOptimalSize c sz) < 2 ^ 32" using r(1) opt by simp
  note uk = unat_blk(1) [OF k(1), folded k(2)] and k64 = unat_blk(2) [OF k(1), folded k(2)]
  have "4096 dvd unat (getOptimalSize c sz)" using r(2) opt by simp
  from aligned_word [OF k(1) this lt] show al: "getAlignedSize c sz = getOptimalSize c sz"
    unfolding getAlignedSize_def k64 unfolding k(2) .
  then show ual: "unat (getAlignedSize c sz) = ?r" using opt by simp
  have opt2: "unat (getOptimalSize c (getAlignedSize c sz)) = ?r"
    using unat_getOptimalSize [OF assms(1), of "getAlignedSize c sz"] ual r(1) by (simp add: round_up_idem)
  let ?n = "ucast (getOptimalSize c (getAlignedSize c sz) div ucast (blk_size c)) :: u32"
  have "2 ^ k dvd (4096 :: nat)" using le_imp_power_dvd [OF k(1), of "2 :: nat"] by simp
  then have "2 ^ k dvd ?r" using r(2) dvd_trans by blast
  moreover have "unat ?n = ?r div 2 ^ k"
  proof -
    have "?r div 2 ^ k \<le> 4294963200" using r(1) div_le_dividend [of ?r "2 ^ k"] by linarith
    then show ?thesis using opt2 uk by (simp add: unsigned_ucast_eq take_bit_nat_eq_self unat_div)
  qed
  moreover have "blk_size c \<noteq> 0" using uk by auto
  ultimately show "\<exists>n. getSizeInBlk c (getAlignedSize c sz) = Inr n \<and> unat n * unat (blk_size c) = ?r"
    using uk by (simp add: getSizeInBlk_def)
qed

section \<open>Properties\<close>

text \<open>C33. For values of up to $2^{32} - 4096$ bytes on a device whose block size is a power of two of at most
  4096, the size of the input and output buffer is the smallest multiple of 4096 that holds the
  value, and the blocks a transfer moves fill the buffer exactly.\<close>

theorem transfer_fits_buffer:
  assumes "ctx_ok c" "unat sz \<le> 2 ^ 32 - 4096"
  shows "unat sz \<le> unat (getAlignedSize c sz) \<and> unat (getAlignedSize c sz) < unat sz + 4096 \<and>
    4096 dvd unat (getAlignedSize c sz) \<and> getOptimalSize c sz = getAlignedSize c sz \<and>
    (\<exists>n. getSizeInBlk c (getAlignedSize c sz) = Inr n \<and> unat n * unat (blk_size c) = unat (getAlignedSize c sz))"
  using size_facts [OF assms] round_up_bounds [of 4096 "unat sz"] by simp

definition ctx512 :: SpdkBdevCtx where
  "ctx512 = \<lparr>bdev_name = ''Nvme0n1'', bdev_addr = ''0000:01:00.0'', blk_size = 512, data_blk_size = 512, buf_align = 4096,
     blk_num = 1048576, io_pool_size = 65536, io_cache_size = 256, io_min_size = 4096, ctx_state = SPDK_BDEV_READY,
     pci_addr = \<lparr>domain = 0, bus = 1, dev = 0, func = 0\<rparr>\<rparr>"

lemma ctx512_ok: "ctx_ok ctx512"
  by (simp add: ctx_ok_def ctx512_def) (rule exI [of _ 9], simp)

theorem transfer_fits_buffer_witness:
  "unat (5000 :: u64) \<le> unat (getAlignedSize ctx512 5000) \<and> unat (getAlignedSize ctx512 5000) < unat (5000 :: u64) + 4096 \<and>
    4096 dvd unat (getAlignedSize ctx512 5000) \<and> getOptimalSize ctx512 5000 = getAlignedSize ctx512 5000 \<and>
    (\<exists>n. getSizeInBlk ctx512 (getAlignedSize ctx512 5000) = Inr n \<and> unat n * unat (blk_size ctx512) = unat (getAlignedSize ctx512 5000))"
  by (rule transfer_fits_buffer [OF ctx512_ok]) simp

text \<open>The mask of \<open>getAlignedSize\<close> has 32 bits: a value of more than $2^{32} - 4096$ and at most
  $2^{32}$ bytes gets an aligned size of zero, and with it a buffer without memory.\<close>

theorem aligned_size_truncated:
  assumes "ctx_ok c" "2 ^ 32 - 4096 < unat sz" "unat sz \<le> 2 ^ 32"
  shows "getAlignedSize c sz = 0"
proof -
  obtain k where k: "k \<le> 12" "blk_size c = 2 ^ k" using assms(1) by (auto simp: ctx_ok_def)
  have "round_up 4096 (unat sz) \<le> 4096 * 1048576" "4096 dvd round_up 4096 (unat sz)" "unat sz \<le> round_up 4096 (unat sz)"
    using round_up_le [of 4096 "unat sz" 1048576] round_up_bounds [of 4096 "unat sz"] assms(3) by simp_all
  moreover have "2 ^ 32 - 4096 < round_up 4096 (unat sz)" using calculation(3) assms(2) by linarith
  ultimately have "round_up 4096 (unat sz) = 2 ^ 32" by (auto elim!: dvdE)
  then have "unat (getOptimalSize c sz) = 2 ^ 32" using unat_getOptimalSize assms(1,3) by simp
  then have "getOptimalSize c sz = 2 ^ 32" using word_eq_of_nat by fastforce
  then obtain j :: nat where o: "getOptimalSize c sz = 2 ^ j" and j: "32 \<le> j" by blast
  have m: "(blk_size c - 1) = mask k" using k(2) by (simp add: mask_eq_exp_minus_1)
  have "(ucast (blk_size c) :: u64) - 1 = mask k" using unat_blk(2) [OF k(1)] k(2) by (simp add: mask_eq_exp_minus_1)
  then have "getAlignedSize c sz = (2 ^ j + mask k) AND ucast (NOT (mask k :: u32))"
    by (simp add: getAlignedSize_def o m add_diff_eq [symmetric])
  also have "(2 ^ j + mask k :: u64) = 2 ^ j OR mask k"
    using k(1) j by (intro disjunctive_add_eq_or bit_word_eqI) (auto simp: bit_simps)
  also have "(2 ^ j OR mask k) AND ucast (NOT (mask k :: u32)) = (0 :: u64)"
    using k(1) j by (intro bit_word_eqI) (auto simp: bit_simps)
  finally show ?thesis .
qed

theorem aligned_size_truncated_witness: "getAlignedSize ctx512 4294963201 = 0"
  by (rule aligned_size_truncated [OF ctx512_ok]) simp_all

lemma bus_to_pci_set_pci: "bus_to_pci (set_pci p w) = p"
proof -
  have "ucast (set_pci p w) = domain p" by (auto simp: set_pci_def bit_eq_iff bit_simps dest: bit_imp_le_length)
  moreover have "ucast (drop_bit 32 (set_pci p w)) = bus p" by (auto simp: set_pci_def bit_eq_iff bit_simps dest: bit_imp_le_length)
  moreover have "ucast (drop_bit 40 (set_pci p w)) = dev p" by (auto simp: set_pci_def bit_eq_iff bit_simps dest: bit_imp_le_length)
  moreover have "ucast (drop_bit 48 (set_pci p w)) = func p" by (auto simp: set_pci_def bit_eq_iff bit_simps dest: bit_imp_le_length)
  ultimately show ?thesis by (simp add: bus_to_pci_def)
qed

text \<open>The union of an address: reading back the PCI address stored in it gives the address, and the byte
  that the packed address does not reach is kept.\<close>

theorem pci_addr_roundtrip: "bus_to_pci (set_pci p w) = p \<and> drop_bit 56 (set_pci p w) = drop_bit 56 w"
proof -
  have "drop_bit 56 (set_pci p w) = drop_bit 56 w" by (rule bit_word_eqI) (auto simp: set_pci_def bit_simps dest: bit_imp_le_length)
  then show ?thesis by (simp add: bus_to_pci_set_pci)
qed

end
