(* ===== verification/Request_Queues.thy ===== *)
theory Request_Queues
  imports Fifo_Spec
begin

text \<open>
  The queues between the threads: \<^verbatim>\<open>lib/common/BlockingPoller.h\<close> with its bounded buffer and
  \<^verbatim>\<open>lib/common/Poller.h\<close>. The circular buffer of Boost and the ring of SPDK are parameters, of which
  the theorems assume their documented behaviour. Each operation is one step: the mutex of the
  bounded buffer and the atomic operations of the ring make it one.
\<close>

section \<open>The bounded buffer\<close>

definition dequeueBufferLimit :: nat where
  "dequeueBufferLimit = 1024"

definition dequeueBufferQuant :: nat where
  "dequeueBufferQuant = 1024"

record 'c BoundedBuffer =
  unread :: nat
  qContainer :: 'c

text \<open>\<open>push_front\<close> and the index operator of the circular buffer are \<open>pf\<close> and \<open>ix\<close>. A wait that
  times out returns false, here \<open>Inl\<close>.\<close>

definition pushFront :: "('a \<Rightarrow> 'c \<Rightarrow> 'c) \<Rightarrow> nat \<Rightarrow> 'a \<Rightarrow> 'c BoundedBuffer \<Rightarrow> unit + 'c BoundedBuffer" where
  "pushFront pf capacity item b =
     (if unread b < capacity then Inr (b\<lparr>qContainer := pf item (qContainer b), unread := unread b + 1\<rparr>) else Inl ())"

definition popBack :: "('c \<Rightarrow> nat \<Rightarrow> 'a) \<Rightarrow> 'c BoundedBuffer \<Rightarrow> unit + 'a \<times> 'c BoundedBuffer" where
  "popBack ix b =
     (if 0 < unread b then Inr (ix (qContainer b) (unread b - 1), b\<lparr>unread := unread b - 1\<rparr>) else Inl ())"

fun pop_loop :: "('c \<Rightarrow> nat \<Rightarrow> 'a) \<Rightarrow> nat \<Rightarrow> 'c BoundedBuffer \<Rightarrow> 'a list \<times> 'c BoundedBuffer" where
  "pop_loop ix 0 b = ([], b)"
| "pop_loop ix (Suc n) b =
     (if 0 < unread b
      then (case pop_loop ix n (b\<lparr>unread := unread b - 1\<rparr>) of (xs, b') \<Rightarrow> (ix (qContainer b) (unread b - 1) # xs, b'))
      else ([], b))"

definition popBackVector :: "('c \<Rightarrow> nat \<Rightarrow> 'a) \<Rightarrow> 'c BoundedBuffer \<Rightarrow> unit + 'a list \<times> 'c BoundedBuffer" where
  "popBackVector ix b = (if 0 < unread b then Inr (pop_loop ix dequeueBufferQuant b) else Inl ())"

text \<open>The contract of the circular buffer: a new element comes first and a full buffer loses its last.\<close>

definition circular_buffer :: "('a \<Rightarrow> 'c \<Rightarrow> 'c) \<Rightarrow> ('c \<Rightarrow> nat \<Rightarrow> 'a) \<Rightarrow> ('c \<Rightarrow> 'a list) \<Rightarrow> nat \<Rightarrow> bool" where
  "circular_buffer pf ix conts capacity \<longleftrightarrow>
     (\<forall>x c. conts (pf x c) = take capacity (x # conts c)) \<and> (\<forall>c i. i < length (conts c) \<longrightarrow> ix c i = conts c ! i)"

definition unread_items :: "('c \<Rightarrow> 'a list) \<Rightarrow> 'c BoundedBuffer \<Rightarrow> 'a list" where
  "unread_items conts b = rev (take (unread b) (conts (qContainer b)))"

definition buffer_ok :: "('c \<Rightarrow> 'a list) \<Rightarrow> nat \<Rightarrow> 'c BoundedBuffer \<Rightarrow> bool" where
  "buffer_ok conts capacity b \<longleftrightarrow> unread b \<le> length (conts (qContainer b)) \<and> unread b \<le> capacity"

lemma length_unread_items [simp]: "buffer_ok conts cp b \<Longrightarrow> length (unread_items conts b) = unread b"
  by (simp add: buffer_ok_def unread_items_def)

lemma unread_items_Suc:
  assumes "buffer_ok conts cp b" "0 < unread b"
  shows "unread_items conts b = conts (qContainer b) ! (unread b - 1) # unread_items conts (b\<lparr>unread := unread b - 1\<rparr>)"
proof -
  have "take (Suc (unread b - 1)) (conts (qContainer b)) =
      take (unread b - 1) (conts (qContainer b)) @ [conts (qContainer b) ! (unread b - 1)]"
    using assms by (intro take_Suc_conv_app_nth) (auto simp: buffer_ok_def)
  then show ?thesis using assms(2) by (simp add: unread_items_def)
qed

lemma bounded_buffer_fifo:
  assumes "circular_buffer pf ix conts cp"
  shows "bounded_fifo (pushFront pf cp) (popBack ix) (unread_items conts) (buffer_ok conts cp) (\<lambda>_. cp)"
proof
  fix b x
  assume ok: "buffer_ok conts cp b"
  show "\<exists>b'. pushFront pf cp x b = Inr b' \<and> buffer_ok conts cp b' \<and> unread_items conts b' = unread_items conts b @ [x] \<and> cp = cp"
    if "length (unread_items conts b) < cp"
  proof -
    have u: "unread b < cp" using that ok by simp
    have c: "conts (pf x (qContainer b)) = take cp (x # conts (qContainer b))" using assms by (simp add: circular_buffer_def)
    have "take (Suc (unread b)) (take cp (x # conts (qContainer b))) = x # take (unread b) (conts (qContainer b))"
      using u by (simp add: min_def)
    then show ?thesis using u ok c by (auto simp: pushFront_def unread_items_def buffer_ok_def)
  qed
  show "\<exists>e. pushFront pf cp x b = Inl e" if "length (unread_items conts b) = cp"
    using that ok by (simp add: pushFront_def)
next
  fix b
  assume ok: "buffer_ok conts cp b" and ne: "unread_items conts b \<noteq> []"
  have u: "0 < unread b" using ne by (auto simp: unread_items_def)
  have i: "ix (qContainer b) (unread b - 1) = conts (qContainer b) ! (unread b - 1)"
    using assms ok u by (auto simp: circular_buffer_def buffer_ok_def)
  show "\<exists>x b'. popBack ix b = Inr (x, b') \<and> buffer_ok conts cp b' \<and> unread_items conts b = x # unread_items conts b' \<and> cp = cp"
    using unread_items_Suc [OF ok u] ok u i by (auto simp: popBack_def buffer_ok_def)
qed

lemma pop_loop_spec:
  assumes "circular_buffer pf ix conts cp" "buffer_ok conts cp b"
  shows "fst (pop_loop ix n b) = take n (unread_items conts b) \<and>
     unread_items conts (snd (pop_loop ix n b)) = drop n (unread_items conts b) \<and> buffer_ok conts cp (snd (pop_loop ix n b))"
  using assms(2)
proof (induction n arbitrary: b)
  case (Suc n)
  show ?case
  proof (cases "0 < unread b")
    case True
    let ?b = "b\<lparr>unread := unread b - 1\<rparr>"
    have ok: "buffer_ok conts cp ?b" using Suc.prems by (auto simp: buffer_ok_def)
    have "ix (qContainer b) (unread b - 1) = conts (qContainer b) ! (unread b - 1)"
      using assms(1) Suc.prems True by (auto simp: circular_buffer_def buffer_ok_def)
    then show ?thesis using Suc.IH [OF ok] unread_items_Suc [OF Suc.prems True] True by (auto split: prod.splits)
  next
    case False
    then show ?thesis using Suc.prems by (simp add: unread_items_def)
  qed
qed simp

section \<open>Pollers\<close>

text \<open>A blocking poller is a bounded buffer with the batch taken last.\<close>

record ('a, 'c) BlockingPoller =
  rqstBuffer :: "'c BoundedBuffer"
  blk_requests :: "'a list"

definition blocking_enqueue :: "('a \<Rightarrow> 'c \<Rightarrow> 'c) \<Rightarrow> 'a \<Rightarrow> ('a, 'c) BlockingPoller \<Rightarrow> bool \<times> ('a, 'c) BlockingPoller" where
  "blocking_enqueue pf rqst p =
     (case pushFront pf dequeueBufferLimit rqst (rqstBuffer p) of
        Inl e \<Rightarrow> (False, p)
      | Inr b \<Rightarrow> (True, p\<lparr>rqstBuffer := b\<rparr>))"

definition blocking_dequeue :: "('c \<Rightarrow> nat \<Rightarrow> 'a) \<Rightarrow> ('a, 'c) BlockingPoller \<Rightarrow> bool \<times> ('a, 'c) BlockingPoller" where
  "blocking_dequeue ix p =
     (case popBackVector ix (rqstBuffer p) of
        Inl e \<Rightarrow> (False, p)
      | Inr (xs, b) \<Rightarrow> (True, p\<lparr>rqstBuffer := b, blk_requests := xs\<rparr>))"

text \<open>A poller over a ring of SPDK. \<open>ring_enqueue\<close> returns the number of elements taken and
  \<open>ring_dequeue\<close> the elements.\<close>

record ('a, 'r) ring_ops =
  ring_enqueue :: "'a \<Rightarrow> 'r \<Rightarrow> nat \<times> 'r"
  ring_dequeue :: "nat \<Rightarrow> 'r \<Rightarrow> 'a list \<times> 'r"

record ('a, 'r) Poller =
  rqstRing :: 'r
  requests :: "'a list" \<comment> \<open>the first \<open>requestCount\<close> cells of the array\<close>

definition DEQUEUE_RING_LIMIT :: nat where
  "DEQUEUE_RING_LIMIT = 1024"

definition poller_enqueue :: "('a, 'r) ring_ops \<Rightarrow> 'a \<Rightarrow> ('a, 'r) Poller \<Rightarrow> bool \<times> ('a, 'r) Poller" where
  "poller_enqueue ops rqst p = (case ring_enqueue ops rqst (rqstRing p) of (count, r) \<Rightarrow> (count = 1, p\<lparr>rqstRing := r\<rparr>))"

definition poller_dequeue :: "('a, 'r) ring_ops \<Rightarrow> nat \<Rightarrow> ('a, 'r) Poller \<Rightarrow> ('a, 'r) Poller" where
  "poller_dequeue ops cnt p =
     (case ring_dequeue ops (if DEQUEUE_RING_LIMIT \<le> cnt then DEQUEUE_RING_LIMIT else cnt) (rqstRing p) of
        (xs, r) \<Rightarrow> p\<lparr>rqstRing := r, requests := xs\<rparr>)"

text \<open>The contract of the ring.\<close>

definition ring_ok :: "('a, 'r) ring_ops \<Rightarrow> ('r \<Rightarrow> 'a list) \<Rightarrow> nat \<Rightarrow> bool" where
  "ring_ok ops conts slots \<longleftrightarrow>
     (\<forall>x r. if length (conts r) < slots then fst (ring_enqueue ops x r) = 1 \<and> conts (snd (ring_enqueue ops x r)) = conts r @ [x]
            else fst (ring_enqueue ops x r) = 0 \<and> conts (snd (ring_enqueue ops x r)) = conts r) \<and>
     (\<forall>n r. fst (ring_dequeue ops n r) = take n (conts r) \<and> conts (snd (ring_dequeue ops n r)) = drop n (conts r))"

lemma poller_enqueue_spec:
  assumes "ring_ok ops conts slots"
  shows "fst (poller_enqueue ops x p) \<longleftrightarrow> length (conts (rqstRing p)) < slots"
    and "conts (rqstRing (snd (poller_enqueue ops x p))) =
         (if length (conts (rqstRing p)) < slots then conts (rqstRing p) @ [x] else conts (rqstRing p))"
    and "requests (snd (poller_enqueue ops x p)) = requests p"
proof -
  have e: "if length (conts (rqstRing p)) < slots
    then fst (ring_enqueue ops x (rqstRing p)) = 1 \<and> conts (snd (ring_enqueue ops x (rqstRing p))) = conts (rqstRing p) @ [x]
    else fst (ring_enqueue ops x (rqstRing p)) = 0 \<and> conts (snd (ring_enqueue ops x (rqstRing p))) = conts (rqstRing p)"
    using assms unfolding ring_ok_def by blast
  show "fst (poller_enqueue ops x p) \<longleftrightarrow> length (conts (rqstRing p)) < slots"
    using e by (auto simp: poller_enqueue_def split: prod.splits if_splits)
  show "conts (rqstRing (snd (poller_enqueue ops x p))) =
      (if length (conts (rqstRing p)) < slots then conts (rqstRing p) @ [x] else conts (rqstRing p))"
    using e by (auto simp: poller_enqueue_def split: prod.splits)
  show "requests (snd (poller_enqueue ops x p)) = requests p"
    by (simp add: poller_enqueue_def split: prod.splits)
qed

lemma poller_dequeue_spec:
  assumes "ring_ok ops conts slots"
  shows "requests (poller_dequeue ops cnt p) = take (min cnt DEQUEUE_RING_LIMIT) (conts (rqstRing p))"
    and "conts (rqstRing (poller_dequeue ops cnt p)) = drop (min cnt DEQUEUE_RING_LIMIT) (conts (rqstRing p))"
proof -
  have d: "fst (ring_dequeue ops n r) = take n (conts r)" "conts (snd (ring_dequeue ops n r)) = drop n (conts r)" for n r
    using assms unfolding ring_ok_def by blast+
  have m: "(if DEQUEUE_RING_LIMIT \<le> cnt then DEQUEUE_RING_LIMIT else cnt) = min cnt DEQUEUE_RING_LIMIT" by (simp add: min_def)
  show "requests (poller_dequeue ops cnt p) = take (min cnt DEQUEUE_RING_LIMIT) (conts (rqstRing p))"
    and "conts (rqstRing (poller_dequeue ops cnt p)) = drop (min cnt DEQUEUE_RING_LIMIT) (conts (rqstRing p))"
    using d by (simp_all add: poller_dequeue_def m split_def)
qed

text \<open>A ring that is a list, to instantiate the contract.\<close>

definition list_ring :: "nat \<Rightarrow> ('a, 'a list) ring_ops" where
  "list_ring slots = \<lparr>ring_enqueue = (\<lambda>x r. if length r < slots then (1, r @ [x]) else (0, r)),
     ring_dequeue = (\<lambda>n r. (take n r, drop n r))\<rparr>"

lemma list_ring_ok: "ring_ok (list_ring slots) id slots"
  by (simp add: ring_ok_def list_ring_def)

section \<open>Properties\<close>

text \<open>C20. The bounded buffer is a queue: pushes and pops in any order that never overfills it give the
  elements in the order in which a list gives them.\<close>

theorem bounded_buffer_refines_queue:
  assumes "circular_buffer pf ix conts cp" "buffer_ok conts cp b"
    and "run_list cs (unread_items conts b) = Some (out, q)" "length (unread_items conts b) + n_puts cs \<le> cp"
  shows "\<exists>b'. run_fifo (pushFront pf cp) (popBack ix) cs b = Inr (out, b') \<and> buffer_ok conts cp b' \<and> unread_items conts b' = q"
  by (rule bounded_fifo.run_refines [OF bounded_buffer_fifo [OF assms(1)] assms(2-4)])

definition list_push :: "nat \<Rightarrow> 'a \<Rightarrow> 'a list \<Rightarrow> 'a list" where
  "list_push capacity x c = take capacity (x # c)"

lemma list_circular: "circular_buffer (list_push cp) (!) id cp"
  by (simp add: circular_buffer_def list_push_def)

theorem bounded_buffer_refines_queue_witness:
  "\<exists>b'. run_fifo (pushFront (list_push 2) 2) (popBack (!)) [Put (7 :: nat), Take, Put 8] \<lparr>unread = 0, qContainer = []\<rparr> = Inr ([7], b') \<and>
     buffer_ok id 2 b' \<and> unread_items id b' = [8]"
  by (rule bounded_buffer_refines_queue [OF list_circular]) (simp_all add: buffer_ok_def unread_items_def)

text \<open>C31. Taking a batch is the same as taking the elements one by one: \<open>popBackVector\<close> gives the elements
  that as many calls of \<open>popBack\<close> give, at most 1024 of them, and leaves the same queue behind.\<close>

theorem popBackVector_eq_popBacks:
  fixes pf :: "'a \<Rightarrow> 'c \<Rightarrow> 'c"
  assumes "circular_buffer pf ix conts cp" "buffer_ok conts cp b" "0 < unread b"
  shows "\<exists>xs b' b''. popBackVector ix b = Inr (xs, b') \<and> length xs = min dequeueBufferQuant (unread b) \<and>
     run_fifo (pushFront pf cp) (popBack ix) (replicate (length xs) Take) b = Inr (xs, b'') \<and>
     unread_items conts b' = unread_items conts b''"
proof -
  let ?n = dequeueBufferQuant
  let ?xs = "fst (pop_loop ix ?n b)"
  let ?q = "unread_items conts b"
  have s: "?xs = take ?n ?q" "unread_items conts (snd (pop_loop ix ?n b)) = drop ?n ?q"
    using pop_loop_spec [OF assms(1,2), of ?n] by auto
  have "run_list (replicate (length (take ?n ?q)) Take) (take ?n ?q @ drop ?n ?q) = Some (take ?n ?q, drop ?n ?q)"
    by (rule run_list_takes)
  then have l: "run_list (replicate (length ?xs) Take) ?q = Some (?xs, drop ?n ?q)" unfolding s(1) by simp
  have "length ?q + n_puts (replicate (length ?xs) Take :: 'a fifo_cmd list) \<le> cp"
    using length_unread_items [OF assms(2)] assms(2) by (simp add: buffer_ok_def)
  from bounded_fifo.run_refines [OF bounded_buffer_fifo [OF assms(1)] assms(2) l this]
  obtain b'' where "run_fifo (pushFront pf cp) (popBack ix) (replicate (length ?xs) Take) b = Inr (?xs, b'')"
      "unread_items conts b'' = drop ?n ?q" by blast
  moreover have "length ?xs = min ?n (unread b)" using assms(2) by (simp add: s(1) min.commute)
  moreover have "popBackVector ix b = Inr (?xs, snd (pop_loop ix ?n b))" using assms(3) by (simp add: popBackVector_def)
  ultimately show ?thesis using s(2) by metis
qed

theorem popBackVector_eq_popBacks_witness:
  "\<exists>xs b' b''. popBackVector (!) \<lparr>unread = 2, qContainer = [8 :: nat, 7, 6]\<rparr> = Inr (xs, b') \<and> length xs = min dequeueBufferQuant 2 \<and>
     run_fifo (pushFront (list_push 3) 3) (popBack (!)) (replicate (length xs) Take) \<lparr>unread = 2, qContainer = [8, 7, 6]\<rparr> = Inr (xs, b'') \<and>
     unread_items id b' = unread_items id b''"
  using popBackVector_eq_popBacks [OF list_circular, of 3 "\<lparr>unread = 2, qContainer = [8 :: nat, 7, 6]\<rparr>"]
  by (simp add: buffer_ok_def)

end
