(* ===== verification/Key_Options.thy ===== *)
theory Key_Options
  imports Daqdb_Types
begin

text \<open>
  The description of keys and of the other options the library reads: \<^verbatim>\<open>include/daqdb/Options.h\<close>. The
  descriptor is a growing vector of fields; reading a field that is not there gives an empty one.
\<close>

datatype KeyValAttribute = NOT_BUFFERED | KVS_BUFFERED

datatype OperationalMode = STORAGE | SATELLITE

text \<open>\<open>PrimaryKeyAttribute\<close> is a set of flags: locked, ready, long term.\<close>

record PrimaryKeyAttribute =
  LOCKED :: bool
  READY :: bool
  LONG_TERM :: bool

definition attr_EMPTY :: PrimaryKeyAttribute where
  "attr_EMPTY = \<lparr>LOCKED = False, READY = False, LONG_TERM = False\<rparr>"

definition attr_or :: "PrimaryKeyAttribute \<Rightarrow> PrimaryKeyAttribute \<Rightarrow> PrimaryKeyAttribute" where
  "attr_or a b = \<lparr>LOCKED = (LOCKED a \<or> LOCKED b), READY = (READY a \<or> READY b), LONG_TERM = (LONG_TERM a \<or> LONG_TERM b)\<rparr>"

record KeyFieldDescriptor =
  fsize :: nat
  isPrimary :: bool

definition new_field :: KeyFieldDescriptor where
  "new_field = \<lparr>fsize = 0, isPrimary = False\<rparr>"

type_synonym KeyDescriptor = "KeyFieldDescriptor list"

definition nfields :: "KeyDescriptor \<Rightarrow> nat" where
  "nfields d = length d"

fun key_size :: "KeyDescriptor \<Rightarrow> nat" where
  "key_size [] = 0"
| "key_size (f # fs) = fsize f + key_size fs"

definition set_field :: "nat \<Rightarrow> nat \<Rightarrow> bool \<Rightarrow> KeyDescriptor \<Rightarrow> KeyDescriptor" where
  "set_field idx sz prim d =
     (let d = (if nfields d \<le> idx then d @ replicate (idx + 1 - length d) new_field else d)
      in d[idx := \<lparr>fsize = sz, isPrimary = prim\<rparr>])"

definition field :: "nat \<Rightarrow> KeyDescriptor \<Rightarrow> KeyFieldDescriptor" where
  "field idx d = (if nfields d \<le> idx then new_field else d ! idx)"

record DhtNeighbor =
  nb_ip :: string
  nb_port :: u16
  nb_local :: bool
  range_start :: string
  range_end :: string

record DhtOptions =
  dht_id :: u32
  numOfDhtThreads :: u16
  baseDhtId :: u16
  maskLength :: u32
  maskOffset :: u32
  dht_neighbors :: "DhtNeighbor list"

record RuntimeOptions =
  baseCoreId :: u16
  numOfPollers :: u16
  maxReadyKeys :: nat

record PMEMOptions =
  poolPath :: string
  totalSize :: nat
  pmem_allocUnitSize :: nat

datatype OffloadDevType = BDEV | JBOD | RAID0

record OffloadDevDescriptor =
  devName :: string
  nvmeAddr :: string
  nvmeName :: string

record OffloadOptions =
  devType :: OffloadDevType
  off_name :: string
  off_allocUnitSize :: nat
  raid0StripeSize :: nat
  off_devs :: "OffloadDevDescriptor list"

record Options =
  opt_dht :: DhtOptions
  opt_key :: KeyDescriptor
  opt_mode :: OperationalMode
  opt_offload :: OffloadOptions
  opt_pmem :: PMEMOptions
  opt_runtime :: RuntimeOptions

definition default_options :: Options where
  "default_options =
     \<lparr>opt_dht = \<lparr>dht_id = 0, numOfDhtThreads = 1, baseDhtId = 0, maskLength = 0, maskOffset = 0, dht_neighbors = []\<rparr>,
      opt_key = [], opt_mode = STORAGE,
      opt_offload = \<lparr>devType = BDEV, off_name = [], off_allocUnitSize = 16 * 1024, raid0StripeSize = 128, off_devs = []\<rparr>,
      opt_pmem = \<lparr>poolPath = [], totalSize = 0, pmem_allocUnitSize = 0\<rparr>,
      opt_runtime = \<lparr>baseCoreId = 0, numOfPollers = 1, maxReadyKeys = 0\<rparr>\<rparr>"

lemma key_size_append [simp]: "key_size (xs @ ys) = key_size xs + key_size ys"
  by (induction xs) auto

lemma key_size_replicate [simp]: "key_size (replicate n new_field) = 0"
  by (induction n) (auto simp: new_field_def)

lemma key_size_update: "i < length d \<Longrightarrow> key_size (d[i := f]) + fsize (d ! i) = key_size d + fsize f"
proof (induction d arbitrary: i)
  case (Cons x d)
  then show ?case by (cases i) auto
qed simp

lemma field_set_field: "field i (set_field j sz prim d) = (if i = j then \<lparr>fsize = sz, isPrimary = prim\<rparr> else field i d)"
  by (auto simp: field_def set_field_def nfields_def Let_def nth_append)

lemma key_size_set_field: "key_size (set_field i sz prim d) + fsize (field i d) = key_size d + sz"
proof (cases "i < length d")
  case True
  then show ?thesis using key_size_update [OF True, of "\<lparr>fsize = sz, isPrimary = prim\<rparr>"]
    by (simp add: set_field_def field_def nfields_def not_le)
next
  case False
  let ?d = "d @ replicate (i + 1 - length d) new_field"
  have "i < length ?d" using False by simp
  moreover have "fsize new_field = 0" by (simp add: new_field_def)
  ultimately show ?thesis using key_size_update [of i ?d "\<lparr>fsize = sz, isPrimary = prim\<rparr>"] False
    by (simp add: set_field_def field_def nfields_def nth_append)
qed

text \<open>Setting a field of a key descriptor, inside or behind the fields it has, makes that field read
  back as set and leaves every other field; the key size changes by the difference of the two sizes.\<close>

theorem key_descriptor_roundtrip:
  "field i (set_field j sz prim d) = (if i = j then \<lparr>fsize = sz, isPrimary = prim\<rparr> else field i d) \<and>
   key_size (set_field j sz prim d) + fsize (field j d) = key_size d + sz"
  by (simp add: field_set_field key_size_set_field)

end
