(* ===== verification/Bdev.thy ===== *)
theory Bdev
  imports Io_Buf Lba_Alloc Device_Task Request_Queues Key_Options
begin

text \<open>
  One block device, \<^verbatim>\<open>lib/spdk/SpdkBdev.cpp\<close> and \<^verbatim>\<open>lib/spdk/SpdkBdev.h\<close>. The block layer of SPDK is
  outside: what its calls return is an argument of the operations, and the calls it accepted are
  kept in \<open>inflight\<close> until it calls back. \<open>deinit\<close> waits for the thread of the device to leave its
  loop; every operation here runs on that thread, so that a call of \<open>deinit\<close> does not return.
\<close>

section \<open>State\<close>

datatype IOState = BDEV_IO_INIT | BDEV_IO_READY | BDEV_IO_ERROR | BDEV_IO_QUIESCING | BDEV_IO_QUIESCENT
  | BDEV_IO_STOPPED | BDEV_IO_ABORTED

datatype FinState = FP_READY | FP_QUIESCING | FP_QUIESCENT

record BdevStats =
  write_compl_cnt :: u64
  write_err_cnt :: u64
  read_compl_cnt :: u64
  read_err_cnt :: u64
  outstanding_io_cnt :: u64

type_synonym task = "buf_ref DeviceTask"

record 'r SpdkBdev =
  spBdevCtx :: SpdkBdevCtx
  bdev_state :: CSpdkBdevState
  IoState :: IOState
  stats :: BdevStats
  isRunning :: int
  maxIoBufs :: u32
  ioBufsInUse :: u32
  blkNumForLba :: u64
  lbaAllocator :: OffloadLbaAlloc
  ioEngine :: "(task, 'r) Poller option"
  finalizer :: "(task, 'r) Poller"
  fin_state :: FinState

text \<open>What the device shares with the rest: the buffers, the calls SPDK has accepted, the tasks waiting
  for its buffers, and the callbacks made and requests returned to their pools so far.\<close>

datatype io_kind = ReadIo | WriteIo

record spdk_io =
  io_kind :: io_kind
  io_task :: task
  io_offset :: u64
  io_count :: u64
  io_data :: bytes

datatype event = Callback nat StatusCode bytes "bytes option" | PoolPut OffloadOperation nat

record io_env =
  bufMgr :: SpdkIoBufMgr
  inflight :: "spdk_io list"
  ioWaits :: "task list"
  trace :: "event list"

definition log :: "event list \<Rightarrow> io_env \<Rightarrow> io_env" where
  "log es v = v\<lparr>trace := trace v @ es\<rparr>"

section \<open>Operations\<close>

definition ENOMEM :: int where
  "ENOMEM = 12"

definition new_stats :: BdevStats where
  "new_stats = \<lparr>write_compl_cnt = 0, write_err_cnt = 0, read_compl_cnt = 0, read_err_cnt = 0, outstanding_io_cnt = 0\<rparr>"

definition upd_stats :: "(BdevStats \<Rightarrow> BdevStats) \<Rightarrow> 'r SpdkBdev \<Rightarrow> 'r SpdkBdev" where
  "upd_stats f b = b\<lparr>stats := f (stats b)\<rparr>"

definition stateMachine :: "'r SpdkBdev \<Rightarrow> exn + bool \<times> 'r SpdkBdev" where
  "stateMachine b =
     (case IoState b of
        BDEV_IO_INIT \<Rightarrow> Inr (False, b)
      | BDEV_IO_READY \<Rightarrow> Inr (False, b)
      | BDEV_IO_ERROR \<Rightarrow> Inl NoReturn
      | BDEV_IO_QUIESCING \<Rightarrow>
         (if outstanding_io_cnt (stats b) = 0 then Inr (True, b\<lparr>IoState := BDEV_IO_QUIESCENT\<rparr>) else Inr (False, b))
      | BDEV_IO_QUIESCENT \<Rightarrow> Inr (True, b)
      | BDEV_IO_STOPPED \<Rightarrow> Inr (False, b)
      | BDEV_IO_ABORTED \<Rightarrow> Inl NoReturn)"

definition IOQuiesce :: "'r SpdkBdev \<Rightarrow> 'r SpdkBdev" where
  "IOQuiesce b = b\<lparr>fin_state := FP_QUIESCING, IoState := BDEV_IO_QUIESCING\<rparr>"

definition isIOQuiescent :: "'r SpdkBdev \<Rightarrow> bool" where
  "isIOQuiescent b \<longleftrightarrow> (IoState b = BDEV_IO_QUIESCENT \<or> IoState b = BDEV_IO_ABORTED) \<and> fin_state b = FP_QUIESCENT"

definition IOAbort :: "'r SpdkBdev \<Rightarrow> 'r SpdkBdev" where
  "IOAbort b = b\<lparr>IoState := BDEV_IO_ABORTED\<rparr>"

definition canQueue :: "'r SpdkBdev \<Rightarrow> u32" where
  "canQueue b = (if ioBufsInUse b < maxIoBufs b then maxIoBufs b - ioBufsInUse b else 0)"

definition isOffloadEnabled :: "'r SpdkBdev \<Rightarrow> bool" where
  "isOffloadEnabled b \<longleftrightarrow> ctx_state (spBdevCtx b) = SPDK_BDEV_READY"

definition isBdevFound :: "'r SpdkBdev \<Rightarrow> bool" where
  "isBdevFound b \<longleftrightarrow> bdev_state b \<noteq> SPDK_BDEV_NOT_FOUND"

definition lba_result :: "lba_error + 'a \<Rightarrow> exn + 'a" where
  "lba_result r = (case r of Inl (Tx e) \<Rightarrow> Inl Abort | Inl OutOfBounds \<Rightarrow> Inl Undefined | Inr x \<Rightarrow> Inr x)"

definition getFreeLba :: "u64 \<Rightarrow> 'r SpdkBdev \<Rightarrow> exn + int \<times> 'r SpdkBdev" where
  "getFreeLba ioSize b =
     map_sum id (\<lambda>(v, al). (v, b\<lparr>lbaAllocator := al\<rparr>)) (lba_result (getLba (unat ioSize) (lbaAllocator b)))"

definition putFreeLba :: "allocator \<Rightarrow> DeviceAddr \<Rightarrow> u64 \<Rightarrow> 'r SpdkBdev \<Rightarrow> exn + 'r SpdkBdev" where
  "putFreeLba alloc a ioSize b =
     map_sum id (\<lambda>al. b\<lparr>lbaAllocator := al\<rparr>) (lba_result (putLba alloc (sint (dev_lba a)) (unat ioSize) (lbaAllocator b)))"

text \<open>The bytes a pointer leads to, as far as it is valid.\<close>

definition word_bytes :: "u64 \<Rightarrow> bytes" where
  "word_bytes w = map (\<lambda>i. ucast (drop_bit (8 * i) w)) [0..<8]"

definition mem_read :: "mem \<Rightarrow> nat \<Rightarrow> exn + bytes" where
  "mem_read p n =
     (let avail = (case p of Null \<Rightarrow> [] | Bytes bs \<Rightarrow> bs | AddrBlock a \<Rightarrow> word_bytes (dev_lba a) @ word_bytes (busAddr a))
      in if length avail < n then Inl Undefined else Inr (take n avail))"

definition put_task_buf :: "(buf_ref \<Rightarrow> SpdkIoBufMgr \<Rightarrow> pool_error + SpdkIoBufMgr) \<Rightarrow> task \<Rightarrow> io_env \<Rightarrow> exn + io_env" where
  "put_task_buf pf t v =
     (case t_buff t of
        None \<Rightarrow> Inr v
      | Some r \<Rightarrow> (case pf r (bufMgr v) of Inl e \<Rightarrow> Inl Abort | Inr m \<Rightarrow> Inr (v\<lparr>bufMgr := m\<rparr>)))"

text \<open>After a call of SPDK that failed with \<open>rc\<close>: a shortage of memory queues the task for \<open>writeQueueIoWait\<close>,
  for reads too; everything else ends in \<open>deinit\<close>.\<close>

definition reschedule :: "int \<Rightarrow> task \<Rightarrow> io_env \<Rightarrow> int \<times> io_env" where
  "reschedule rc2 t v = (rc2, if rc2 = 0 then v\<lparr>ioWaits := ioWaits v @ [t]\<rparr> else v)"

definition io_failed :: "int \<Rightarrow> int \<Rightarrow> task \<Rightarrow> 'r SpdkBdev \<Rightarrow> io_env \<Rightarrow> exn + bool \<times> 'r SpdkBdev \<times> io_env" where
  "io_failed rc rc2 t b v =
     (if rc = - ENOMEM
      then (case reschedule rc2 t v of (rc, v) \<Rightarrow> if rc \<noteq> 0 then Inl NoReturn else Inr (True, b, v))
      else Inl NoReturn)"

definition doRead :: "zmalloc_fn \<Rightarrow> int \<times> int \<Rightarrow> task \<Rightarrow> 'r SpdkBdev \<Rightarrow> io_env \<Rightarrow> exn + bool \<times> 'r SpdkBdev \<times> io_env" where
  "doRead zm rcs t b v =
     (case stateMachine b of
        Inl e \<Rightarrow> Inl e
      | Inr (True, b) \<Rightarrow>
         (case put_task_buf putIoReadBuf t v of
            Inl e \<Rightarrow> Inl e
          | Inr v \<Rightarrow> Inr (False, b\<lparr>ioBufsInUse := ioBufsInUse b - 1\<rparr>, v))
      | Inr (False, b) \<Rightarrow>
         (case getSizeInBlk (spBdevCtx b) (getAlignedSize (spBdevCtx b) (rq_valueSize (t_rqst t))) of
            Inl e \<Rightarrow> Inl e
          | Inr blkSize \<Rightarrow>
             (let b = b\<lparr>ioBufsInUse := ioBufsInUse b + 1\<rparr>
              in case getIoReadBuf zm (ucast (t_size t)) (bufMgr v) of
                   Inl e \<Rightarrow> Inl Abort
                 | Inr (r, m) \<Rightarrow>
                    (let t = t\<lparr>t_blockSize := blkSize, t_buff := Some r\<rparr>; v = v\<lparr>bufMgr := m\<rparr>
                     in case t_bdevAddr t of
                          None \<Rightarrow> Inl Undefined
                        | Some a \<Rightarrow>
                           (let b = upd_stats (\<lambda>s. s\<lparr>outstanding_io_cnt := outstanding_io_cnt s + 1\<rparr>) b
                            in if fst rcs = 0
                               then Inr (True, b, v\<lparr>inflight := inflight v @
                                      [\<lparr>io_kind = ReadIo, io_task = t, io_offset = ucast blkSize * dev_lba a, io_count = ucast blkSize, io_data = []\<rparr>]\<rparr>)
                               else io_failed (fst rcs) (snd rcs) t
                                      (upd_stats (\<lambda>s. s\<lparr>read_err_cnt := read_err_cnt s + 1\<rparr>) b) v)))))"

definition doWrite :: "zmalloc_fn \<Rightarrow> int \<times> int \<Rightarrow> task \<Rightarrow> 'r SpdkBdev \<Rightarrow> io_env \<Rightarrow> exn + bool \<times> 'r SpdkBdev \<times> io_env" where
  "doWrite zm rcs t b v =
     (case stateMachine b of
        Inl e \<Rightarrow> Inl e
      | Inr (True, b) \<Rightarrow>
         (case put_task_buf putIoWriteBuf t v of
            Inl e \<Rightarrow> Inl e
          | Inr v \<Rightarrow> Inr (False, b\<lparr>ioBufsInUse := ioBufsInUse b - 1\<rparr>, v))
      | Inr (False, b) \<Rightarrow>
         (let valSize = rq_valueSize (t_rqst t);
              valSizeAlign = getAlignedSize (spBdevCtx b) valSize
          in case (if rq_loc (t_rqst t) = PMEM
                   then map_sum id (\<lambda>(lba, b). (t\<lparr>t_freeLba := word_of_int lba\<rparr>, b)) (getFreeLba valSize b)
                   else Inr (t, b)) of
               Inl e \<Rightarrow> Inl e
             | Inr (t, b) \<Rightarrow>
                (let b = b\<lparr>ioBufsInUse := ioBufsInUse b + 1\<rparr>
                 in case getIoWriteBuf zm (ucast valSizeAlign) (bufMgr v) of
                      Inl e \<Rightarrow> Inl Abort
                    | Inr (r, m) \<Rightarrow>
                       (case (spdkDmaBuf m r, mem_read (rq_value (t_rqst t)) (unat valSize)) of
                          (None, _) \<Rightarrow> Inl Undefined
                        | (_, Inl e) \<Rightarrow> Inl e
                        | (Some dma, Inr bs) \<Rightarrow>
                           (if length dma < unat valSize then Inl Undefined
                            else let dma = memcpy_prefix bs (unat valSize) dma;
                                     t = t\<lparr>t_buff := Some r\<rparr>;
                                     v = v\<lparr>bufMgr := setSpdkDmaBuf r (Some dma) m\<rparr>;
                                     b = upd_stats (\<lambda>s. s\<lparr>outstanding_io_cnt := outstanding_io_cnt s + 1\<rparr>) b
                                 in if fst rcs = 0
                                    then Inr (True, b, v\<lparr>inflight := inflight v @
                                           [\<lparr>io_kind = WriteIo, io_task = t, io_offset = ucast (t_blockSize t) * t_freeLba t,
                                             io_count = ucast (t_blockSize t), io_data = dma\<rparr>]\<rparr>)
                                    else io_failed (fst rcs) (snd rcs) t
                                           (upd_stats (\<lambda>s. s\<lparr>write_err_cnt := write_err_cnt s + 1\<rparr>) b) v)))))"

definition doRemove :: "allocator \<Rightarrow> (task, 'r) ring_ops \<Rightarrow> task \<Rightarrow> 'r SpdkBdev \<Rightarrow> io_env \<Rightarrow> exn + bool \<times> 'r SpdkBdev \<times> io_env" where
  "doRemove alloc rd t b v =
     (case stateMachine b of
        Inl e \<Rightarrow> Inl e
      | Inr (True, b) \<Rightarrow> Inr (False, b, log [PoolPut OFFLOAD_REMOVE (rq_id (t_rqst t))] v)
      | Inr (False, b) \<Rightarrow>
         (case t_bdevAddr t of
            None \<Rightarrow> Inl Undefined
          | Some a \<Rightarrow>
             (case putFreeLba alloc a (getAlignedSize (spBdevCtx b) (rq_valueSize (t_rqst t))) b of
                Inl e \<Rightarrow> Inl e
              | Inr b \<Rightarrow>
                 (case poller_enqueue rd (t\<lparr>t_result := True\<rparr>) (finalizer b) of
                    (ok, f) \<Rightarrow> Inr (ok, b\<lparr>finalizer := f\<rparr>, v)))))"

text \<open>\<open>read\<close>, \<open>write\<close> and \<open>remove\<close> hand a task that is still to be routed to the thread of the device.\<close>

definition route :: "(task, 'r) ring_ops \<Rightarrow> task \<Rightarrow> 'r SpdkBdev \<Rightarrow> (bool \<times> 'r SpdkBdev) option" where
  "route rd t b =
     (case ioEngine b of
        Some e \<Rightarrow> if t_routing t then (case poller_enqueue rd t e of (ok, e) \<Rightarrow> Some (ok, b\<lparr>ioEngine := Some e\<rparr>)) else None
      | None \<Rightarrow> None)"

definition bdev_read :: "zmalloc_fn \<Rightarrow> int \<times> int \<Rightarrow> (task, 'r) ring_ops \<Rightarrow> task \<Rightarrow> 'r SpdkBdev \<Rightarrow> io_env \<Rightarrow> exn + bool \<times> 'r SpdkBdev \<times> io_env" where
  "bdev_read zm rcs rd t b v = (case route rd t b of Some (ok, b) \<Rightarrow> Inr (ok, b, v) | None \<Rightarrow> doRead zm rcs t b v)"

definition bdev_write :: "zmalloc_fn \<Rightarrow> int \<times> int \<Rightarrow> (task, 'r) ring_ops \<Rightarrow> task \<Rightarrow> 'r SpdkBdev \<Rightarrow> io_env \<Rightarrow> exn + bool \<times> 'r SpdkBdev \<times> io_env" where
  "bdev_write zm rcs rd t b v = (case route rd t b of Some (ok, b) \<Rightarrow> Inr (ok, b, v) | None \<Rightarrow> doWrite zm rcs t b v)"

definition bdev_remove :: "allocator \<Rightarrow> (task, 'r) ring_ops \<Rightarrow> task \<Rightarrow> 'r SpdkBdev \<Rightarrow> io_env \<Rightarrow> exn + bool \<times> 'r SpdkBdev \<times> io_env" where
  "bdev_remove alloc rd t b v = (case route rd t b of Some (ok, b) \<Rightarrow> Inr (ok, b, v) | None \<Rightarrow> doRemove alloc rd t b v)"

text \<open>The callbacks of SPDK. The result of \<open>enqueue\<close> is not looked at.\<close>

definition count_down :: "BdevStats \<Rightarrow> BdevStats" where
  "count_down s = (if outstanding_io_cnt s \<noteq> 0 then s\<lparr>outstanding_io_cnt := outstanding_io_cnt s - 1\<rparr> else s)"

definition complete_task :: "(task, 'r) ring_ops \<Rightarrow> bool \<Rightarrow> task \<Rightarrow> 'r SpdkBdev \<Rightarrow> io_env \<Rightarrow> exn + 'r SpdkBdev \<times> io_env" where
  "complete_task rd success t b v =
     (case stateMachine b of
        Inl e \<Rightarrow> Inl e
      | Inr (_, b) \<Rightarrow> Inr (b\<lparr>finalizer := snd (poller_enqueue rd (t\<lparr>t_result := success\<rparr>) (finalizer b))\<rparr>, v))"

definition writeComplete :: "(task, 'r) ring_ops \<Rightarrow> bool \<Rightarrow> task \<Rightarrow> 'r SpdkBdev \<Rightarrow> io_env \<Rightarrow> exn + 'r SpdkBdev \<times> io_env" where
  "writeComplete rd success t b v =
     (case (if t_buff t = None then Inl Undefined else put_task_buf putIoWriteBuf t v) of
        Inl e \<Rightarrow> Inl e
      | Inr v \<Rightarrow>
         (let b = upd_stats (\<lambda>s. (count_down s)\<lparr>write_compl_cnt := write_compl_cnt s + 1\<rparr>) (b\<lparr>ioBufsInUse := ioBufsInUse b - 1\<rparr>)
          in complete_task rd success t b v))"

definition readComplete :: "(task, 'r) ring_ops \<Rightarrow> bool \<Rightarrow> task \<Rightarrow> 'r SpdkBdev \<Rightarrow> io_env \<Rightarrow> exn + 'r SpdkBdev \<times> io_env" where
  "readComplete rd success t b v =
     complete_task rd success t (upd_stats (\<lambda>s. (count_down s)\<lparr>read_compl_cnt := read_compl_cnt s + 1\<rparr>) b) v"

definition writeQueueIoWait :: "int \<times> int \<Rightarrow> task \<Rightarrow> 'r SpdkBdev \<Rightarrow> io_env \<Rightarrow> exn + 'r SpdkBdev \<times> io_env" where
  "writeQueueIoWait rcs t b v =
     (case map_option (spdkDmaBuf (bufMgr v)) (t_buff t) of
        None \<Rightarrow> Inl Undefined
      | Some dma \<Rightarrow>
         (if fst rcs = 0
          then Inr (upd_stats (\<lambda>s. s\<lparr>write_err_cnt := write_err_cnt s - 1\<rparr>) b,
                 v\<lparr>inflight := inflight v @ [\<lparr>io_kind = WriteIo, io_task = t, io_offset = ucast (t_blockSize t) * t_freeLba t,
                     io_count = ucast (t_blockSize t), io_data = case_option [] id dma\<rparr>]\<rparr>)
          else if snd rcs = 0 then Inr (b, v\<lparr>ioWaits := ioWaits v @ [t]\<rparr>) else Inl NoReturn))"

definition readQueueIoWait :: "int \<times> int \<Rightarrow> task \<Rightarrow> 'r SpdkBdev \<Rightarrow> io_env \<Rightarrow> exn + 'r SpdkBdev \<times> io_env" where
  "readQueueIoWait rcs t b v =
     (case (t_buff t, t_bdevAddr t) of
        (Some r, Some a) \<Rightarrow>
         (if fst rcs = 0
          then Inr (upd_stats (\<lambda>s. s\<lparr>read_err_cnt := read_err_cnt s - 1\<rparr>) b,
                 v\<lparr>inflight := inflight v @ [\<lparr>io_kind = ReadIo, io_task = t, io_offset = ucast (t_blockSize t) * dev_lba a,
                     io_count = ucast (t_blockSize t), io_data = []\<rparr>]\<rparr>)
          else if snd rcs = 0 then Inr (b, v\<lparr>ioWaits := ioWaits v @ [t]\<rparr>) else Inl NoReturn)
      | _ \<Rightarrow> Inl Undefined)"

section \<open>Set-up\<close>

record SpdkBdevConf =
  conf_devName :: string
  conf_nvmeAddr :: string
  conf_pciAddr :: PciAddr
  conf_nvmeName :: string

record SpdkConf =
  conf_devType :: OffloadDevType
  conf_devs :: "SpdkBdevConf list"
  conf_bdevNum :: int

text \<open>What SPDK answers about the device.\<close>

record spdk_info =
  si_found :: bool
  si_open_rc :: int
  si_pool_size :: u32
  si_cache_size :: u32
  si_channel :: bool
  si_blk_size :: u32
  si_data_blk_size :: u32
  si_buf_align :: u32
  si_num_blocks :: u64

definition bdevInit :: "spdk_info \<Rightarrow> int \<Rightarrow> 'r SpdkBdev \<Rightarrow> bool \<times> 'r SpdkBdev" where
  "bdevInit si confBdevNum b =
     (let fail = (\<lambda>st b. (False, b\<lparr>spBdevCtx := (spBdevCtx b)\<lparr>ctx_state := st\<rparr>\<rparr>))
      in if confBdevNum < - 1 \<or> \<not> si_found si then fail SPDK_BDEV_NOT_FOUND b
         else if si_open_rc si \<noteq> 0 then fail SPDK_BDEV_ERROR b
         else let b = b\<lparr>spBdevCtx := (spBdevCtx b)\<lparr>io_pool_size := si_pool_size si, io_cache_size := si_cache_size si\<rparr>,
                        maxIoBufs := si_pool_size si\<rparr>
              in if \<not> si_channel si then fail SPDK_BDEV_ERROR b
                 else (True, b\<lparr>spBdevCtx := (spBdevCtx b)\<lparr>blk_size := si_blk_size si, data_blk_size := si_data_blk_size si,
                                buf_align := si_buf_align si, blk_num := si_num_blocks si\<rparr>\<rparr>))"

definition MAX_BDEV_NAME :: nat where
  "MAX_BDEV_NAME = 32"

text \<open>\<open>init\<close> starts the thread of the device and waits until it reports; the thread reports only if
  \<open>bdevInit\<close> succeeds. A ring that cannot be created is not modelled.\<close>

definition bdev_setup :: "'r \<Rightarrow> 'r \<Rightarrow> SpdkBdevConf \<Rightarrow> 'r SpdkBdev \<Rightarrow> 'r SpdkBdev" where
  "bdev_setup r1 r2 d b =
     b\<lparr>spBdevCtx := (spBdevCtx b)\<lparr>bdev_name := conf_nvmeName d, bdev_addr := conf_nvmeAddr d, pci_addr := conf_pciAddr d\<rparr>,
       isRunning := 3, finalizer := \<lparr>rqstRing = r1, requests = []\<rparr>, fin_state := FP_READY,
       ioEngine := Some \<lparr>rqstRing = r2, requests = []\<rparr>\<rparr>"

definition bdev_init :: "spdk_info \<Rightarrow> 'r \<Rightarrow> 'r \<Rightarrow> SpdkConf \<Rightarrow> 'r SpdkBdev \<Rightarrow> exn + 'r SpdkBdev" where
  "bdev_init si r1 r2 conf b =
     (case conf_devs conf of
        [] \<Rightarrow> Inl Undefined
      | d # ds \<Rightarrow>
         (if MAX_BDEV_NAME \<le> length (conf_nvmeName d) \<or> MAX_BDEV_NAME \<le> length (conf_nvmeAddr d) then Inl Undefined
          else case bdevInit si (conf_bdevNum conf) (bdev_setup r1 r2 d b) of
                 (False, b) \<Rightarrow> Inl NoReturn
               | (True, b) \<Rightarrow> Inr (b\<lparr>isRunning := 1\<rparr>)))"

definition initFreeList :: "allocator \<Rightarrow> int list \<Rightarrow> 'r SpdkBdev \<Rightarrow> exn + 'r SpdkBdev" where
  "initFreeList alloc junk b =
     (if blkNumForLba b = 0 then Inl Undefined
      else map_sum id (\<lambda>al. b\<lparr>lbaAllocator := al\<rparr>) (lba_result (OffloadLbaAlloc_create alloc junk (blk_num (spBdevCtx b)) (blkNumForLba b))))"

definition setBlockNumForLba :: "u64 \<Rightarrow> 'r SpdkBdev \<Rightarrow> 'r SpdkBdev" where
  "setBlockNumForLba n b = b\<lparr>blkNumForLba := n\<rparr>"

definition getBlockOffsetForLba :: "u64 \<Rightarrow> 'r SpdkBdev \<Rightarrow> u64" where
  "getBlockOffsetForLba n b = n * blkNumForLba b"

definition setReady :: "'r SpdkBdev \<Rightarrow> 'r SpdkBdev" where
  "setReady b = b\<lparr>spBdevCtx := (spBdevCtx b)\<lparr>ctx_state := SPDK_BDEV_READY\<rparr>\<rparr>"

end
