(* ===== verification/ART_Tree.thy ===== *)
theory ART_Tree
  imports Daqdb_Types
begin

text \<open>
  The persistent index, \<^verbatim>\<open>lib/pmem/ARTree.cpp\<close>: a radix tree of eight levels of 256 children and one
  level of leaves, each leaf holding a pointer to a value wrapper. Nodes are a datatype; wrappers
  and value blocks live in a heap, since the leaves point to wrappers that \<open>Remove\<close> frees. The
  reservation functions of libpmemobj are a parameter, of which the theorems assume that they
  return an object not in use. \<open>findValueInNode\<close> without and with allocation are two functions.
\<close>

section \<open>State\<close>

type_synonym oid = nat

datatype ALLOC_CLASS = ALLOC_CLASS_VALUE | ALLOC_CLASS_VALUE_WRAPPER | ALLOC_CLASS_NODE256 | ALLOC_CLASS_NODE_LEAF_COMPRESSED

datatype LEVEL_TYPES = TYPE256 | TYPE_LEAF_COMPRESSED

definition LEVEL_TYPE :: "LEVEL_TYPES list" where
  "LEVEL_TYPE = replicate 8 TYPE256 @ [TYPE_LEAF_COMPRESSED]"

definition LEAF_DEPTH :: nat where
  "LEAF_DEPTH = length LEVEL_TYPE - 1"

definition PREALLOC_LEVELS :: nat where
  "PREALLOC_LEVELS = 1"

datatype node = Node256 nat "u8 \<Rightarrow> node option" | NodeLeafCompressed nat "oid option"

text \<open>\<open>actionValue\<close> is the reserved block the pending action belongs to, \<open>None\<close> for an action that
  is null, deleted, of an earlier process, or was never set.\<close>

record ValueWrapper =
  location :: LOCATIONS
  locationPtr :: "oid option"
  vsize :: nat
  locationVolatile :: LOCATIONS
  actionValue :: "oid option"

datatype block = Value bytes | Iov DeviceAddr

text \<open>\<open>residue\<close> is what unused memory holds where a wrapper has its size and \<open>locationVolatile\<close>.\<close>

record art_mem =
  wrappers :: "oid \<rightharpoonup> ValueWrapper"
  blocks :: "oid \<rightharpoonup> block"
  node_arrays :: nat
  residue :: "oid \<Rightarrow> nat \<times> LOCATIONS"

type_synonym reserve_fn = "art_mem \<Rightarrow> ALLOC_CLASS \<Rightarrow> nat \<Rightarrow> oid option"

text \<open>The last argument is the number of objects of the class that are reserved together, for values
  the number of bytes. What the code relies on of \<open>pmemobj_xreserve\<close>:\<close>

definition fresh_reserve :: "reserve_fn \<Rightarrow> bool" where
  "fresh_reserve rsv \<longleftrightarrow> (\<forall>m c sz i. rsv m c sz = Some i \<longrightarrow> wrappers m i = None \<and> blocks m i = None)"

record ARTree =
  rootNode :: node
  initialized :: bool
  keySize :: nat
  pm :: art_mem

text \<open>A reserved wrapper after \<open>location\<close> is set: the memory is not cleared. The pointers are set before anything reads them.\<close>

definition fresh_wrapper :: "nat \<times> LOCATIONS \<Rightarrow> ValueWrapper" where
  "fresh_wrapper old = \<lparr>location = EMPTY, locationPtr = None, vsize = fst old, locationVolatile = snd old, actionValue = None\<rparr>"

section \<open>Operations\<close>

definition node_depth :: "node \<Rightarrow> nat" where
  "node_depth n = (case n of Node256 d ch \<Rightarrow> d | NodeLeafCompressed d c \<Rightarrow> d)"

definition new_child :: "nat \<Rightarrow> node" where
  "new_child d = (if LEVEL_TYPE ! d = TYPE256 then Node256 d (\<lambda>_. None) else NodeLeafCompressed d None)"

definition child_class :: "nat \<Rightarrow> ALLOC_CLASS" where
  "child_class d = (if LEVEL_TYPE ! d = TYPE256 then ALLOC_CLASS_NODE256 else ALLOC_CLASS_NODE_LEAF_COMPRESSED)"

text \<open>\<open>allocateFullLevels\<close>: all 256 children at once. With more than one level to allocate the code
  continues at \<^verbatim>\<open>children[256]\<close>, behind the array.\<close>

definition allocateFullLevels :: "reserve_fn \<Rightarrow> node \<Rightarrow> nat \<Rightarrow> art_mem \<Rightarrow> (exn + unit) \<times> node \<times> art_mem" where
  "allocateFullLevels rsv n levels m =
     (case n of
        NodeLeafCompressed d c \<Rightarrow> (Inr (), n, m)
      | Node256 d ch \<Rightarrow>
         (case rsv m (child_class (d + 1)) 256 of
            None \<Rightarrow> (Inl (OperationFailed PMEM_ALLOCATION_ERROR), n, m)
          | Some i \<Rightarrow>
             (let n = Node256 d (\<lambda>_. Some (new_child (d + 1))); m = m\<lparr>node_arrays := node_arrays m + 1\<rparr>
              in if 0 < levels - 1 then (Inl Undefined, n, m) else (Inr (), n, m))))"

text \<open>The loop of \<open>findValueInNode\<close>, \<open>allocate\<close> false: down to the leaf or to a missing child.\<close>

primrec findValueInNode :: "node \<Rightarrow> nat \<Rightarrow> u8 list \<Rightarrow> exn + oid option" where
  "findValueInNode (NodeLeafCompressed d c) ks key = (if d = LEAF_DEPTH then Inr c else Inl Undefined)"
| "findValueInNode (Node256 d ch) ks key =
     (if d = LEAF_DEPTH \<or> ks < d + 1 \<or> length key \<le> ks - d - 1 then Inl Undefined
      else case map_option findValueInNode (ch (key ! (ks - d - 1))) of None \<Rightarrow> Inr None | Some f \<Rightarrow> f ks key)"

text \<open>The same loop with \<open>allocate\<close> true; the first argument bounds the levels still to go. The tree
  is returned also when an exception leaves the loop.\<close>

fun findValueAlloc :: "nat \<Rightarrow> reserve_fn \<Rightarrow> nat \<Rightarrow> u8 list \<Rightarrow> node \<Rightarrow> art_mem \<Rightarrow> (exn + oid) \<times> node \<times> art_mem" where
  "findValueAlloc f rsv ks key (NodeLeafCompressed d c) m =
     (if d \<noteq> LEAF_DEPTH then (Inl Undefined, NodeLeafCompressed d c, m)
      else case c of
             Some i \<Rightarrow> (Inr i, NodeLeafCompressed d c, m)
           | None \<Rightarrow>
              (case rsv m ALLOC_CLASS_VALUE_WRAPPER 1 of
                 None \<Rightarrow> (Inl (OperationFailed PMEM_ALLOCATION_ERROR), NodeLeafCompressed d c, m)
               | Some i \<Rightarrow> (Inr i, NodeLeafCompressed d (Some i), m\<lparr>wrappers := (wrappers m)(i \<mapsto> fresh_wrapper (residue m i))\<rparr>)))"
| "findValueAlloc 0 rsv ks key (Node256 d ch) m = (Inl Undefined, Node256 d ch, m)"
| "findValueAlloc (Suc f) rsv ks key (Node256 d ch) m =
     (if d = LEAF_DEPTH \<or> ks < d + 1 \<or> length key \<le> ks - d - 1 then (Inl Undefined, Node256 d ch, m)
      else let keyCalc = key ! (ks - d - 1)
           in case (if ch keyCalc \<noteq> None then (Inr (), Node256 d ch, m) else allocateFullLevels rsv (Node256 d ch) 1 m) of
                (Inl e, n, m) \<Rightarrow> (Inl e, n, m)
              | (Inr u, NodeLeafCompressed d c, m) \<Rightarrow> (Inl Undefined, NodeLeafCompressed d c, m)
              | (Inr u, Node256 d ch, m) \<Rightarrow>
                 (case ch keyCalc of
                    None \<Rightarrow> (Inl Undefined, Node256 d ch, m)
                  | Some c \<Rightarrow>
                     (case findValueAlloc f rsv ks key c m of
                        (r, c', m) \<Rightarrow> (r, Node256 d (ch(keyCalc \<mapsto> c')), m))))"

primrec getTreeSize :: "node \<Rightarrow> bool \<Rightarrow> u64" where
  "getTreeSize (NodeLeafCompressed d c) leavesOnly = 1"
| "getTreeSize (Node256 d ch) leavesOnly =
     (\<Sum>i \<in> UNIV. case map_option getTreeSize (ch i) of None \<Rightarrow> 0 | Some f \<Rightarrow> f leavesOnly) + (if leavesOnly then 0 else 1)"

primrec getTreeDepth :: "node \<Rightarrow> u8" where
  "getTreeDepth (NodeLeafCompressed d c) = 1"
| "getTreeDepth (Node256 d ch) =
     Max (insert 0 ((\<lambda>i. case map_option getTreeDepth (ch i) of None \<Rightarrow> 0 | Some x \<Rightarrow> x) ` UNIV)) + 1"

definition SetKeySize :: "nat \<Rightarrow> ARTree \<Rightarrow> nat \<times> ARTree" where
  "SetKeySize req_size t = (length LEVEL_TYPE - 1, t\<lparr>keySize := length LEVEL_TYPE - 1\<rparr>)"

text \<open>The constructor on a new file: a root at depth 0 and one level below it.\<close>

definition TreeImpl_create :: "reserve_fn \<Rightarrow> art_mem \<Rightarrow> exn + ARTree" where
  "TreeImpl_create rsv m =
     (case rsv m ALLOC_CLASS_NODE256 1 of
        None \<Rightarrow> Inl (OperationFailed PMEM_ALLOCATION_ERROR)
      | Some i \<Rightarrow>
         (case allocateFullLevels rsv (Node256 0 (\<lambda>_. None)) PREALLOC_LEVELS (m\<lparr>node_arrays := node_arrays m + 1\<rparr>) of
            (Inl e, n, m) \<Rightarrow> Inl e
          | (Inr u, n, m) \<Rightarrow> Inr \<lparr>rootNode = n, initialized = False, keySize = 0, pm = m\<rparr>))"

text \<open>The constructor on an existing file: what the last process had published. \<open>locationVolatile\<close> starts anew in every
  process, the actions are pointers of the last one, and the blocks of values were only ever reserved.\<close>

definition reopen :: "art_mem \<Rightarrow> art_mem" where
  "reopen m = m\<lparr>wrappers := (\<lambda>i. map_option (\<lambda>w. w\<lparr>locationVolatile := EMPTY, actionValue := None\<rparr>) (wrappers m i)),
     blocks := (\<lambda>b. case blocks m b of Some (Iov d) \<Rightarrow> Some (Iov d) | _ \<Rightarrow> None)\<rparr>"

text \<open>What libpmemobj answers: the results of the two settings, whether the file can be made or opened, whether the allocation classes
  can be defined; and the file, if there is one.\<close>

record pool_site =
  ps_ctl :: "int \<times> int"
  ps_usable :: bool
  ps_classes :: bool
  ps_file :: "ARTree option"
  ps_mem :: art_mem

definition new_TreeImpl :: "reserve_fn \<Rightarrow> pool_site \<Rightarrow> exn + ARTree" where
  "new_TreeImpl rsv ps =
     (if fst (ps_ctl ps) \<noteq> 0 \<or> snd (ps_ctl ps) \<noteq> 0 then Inl (OperationFailed UNKNOWN_ERROR)
      else if \<not> ps_usable ps then Inl PoolError
      else if \<not> ps_classes ps then Inl (OperationFailed PMEM_ALLOCATION_ERROR)
      else case ps_file ps of
             None \<Rightarrow> TreeImpl_create rsv (ps_mem ps)
           | Some t \<Rightarrow> Inr (t\<lparr>pm := reopen (pm t)\<rparr>))"

definition set_wrapper :: "oid \<Rightarrow> ValueWrapper \<Rightarrow> ARTree \<Rightarrow> ARTree" where
  "set_wrapper i w t = t\<lparr>pm := (pm t)\<lparr>wrappers := (wrappers (pm t))(i \<mapsto> w)\<rparr>\<rparr>"

definition ART_Get :: "u8 list \<Rightarrow> ARTree \<Rightarrow> exn + oid option \<times> nat \<times> LOCATIONS" where
  "ART_Get key t =
     (case findValueInNode (rootNode t) (keySize t) key of
        Inl e \<Rightarrow> Inl e
      | Inr None \<Rightarrow> Inl (OperationFailed KEY_NOT_FOUND)
      | Inr (Some i) \<Rightarrow>
         (case wrappers (pm t) i of
            None \<Rightarrow> Inl Undefined
          | Some w \<Rightarrow>
             if location w = PMEM \<and> locationVolatile w \<noteq> EMPTY then Inr (locationPtr w, vsize w, location w)
             else if location w = DISK then Inr (locationPtr w, vsize w, location w)
             else Inl (OperationFailed KEY_NOT_FOUND)))"

definition ART_Put :: "u8 list \<Rightarrow> ARTree \<Rightarrow> (exn + unit) \<times> ARTree" where
  "ART_Put key t =
     (case findValueInNode (rootNode t) (keySize t) key of
        Inl e \<Rightarrow> (Inl e, t)
      | Inr None \<Rightarrow> (Inl (OperationFailed KEY_NOT_FOUND), t)
      | Inr (Some i) \<Rightarrow>
         (let t = t\<lparr>initialized := True\<rparr>
          in case wrappers (pm t) i of
               None \<Rightarrow> (Inl Undefined, t)
             | Some w \<Rightarrow> (Inr (), set_wrapper i (w\<lparr>locationVolatile := PMEM, location := PMEM\<rparr>) t)))"

definition isLocationReservedNotPublished :: "ValueWrapper \<Rightarrow> bool" where
  "isLocationReservedNotPublished w \<longleftrightarrow> location w = PMEM \<and> locationVolatile w \<noteq> EMPTY"

text \<open>\<open>pmemobj_cancel\<close> gives the reserved block back. \<open>pmemobj_free\<close> clears the pointer it is given, here a local copy: the
  leaf keeps its pointer to the freed wrapper.\<close>

definition cancel_block :: "oid \<Rightarrow> ARTree \<Rightarrow> ARTree" where
  "cancel_block b t = t\<lparr>pm := (pm t)\<lparr>blocks := (blocks (pm t))(b := None)\<rparr>\<rparr>"

definition free_wrapper :: "oid \<Rightarrow> ValueWrapper \<Rightarrow> ARTree \<Rightarrow> ARTree" where
  "free_wrapper i w t =
     t\<lparr>pm := (pm t)\<lparr>wrappers := (wrappers (pm t))(i := None), residue := (residue (pm t))(i := (vsize w, locationVolatile w))\<rparr>\<rparr>"

definition ART_Remove :: "u8 list \<Rightarrow> ARTree \<Rightarrow> (exn + unit) \<times> ARTree" where
  "ART_Remove key t =
     (case findValueInNode (rootNode t) (keySize t) key of
        Inl e \<Rightarrow> (Inl e, t)
      | Inr None \<Rightarrow> (Inl (OperationFailed KEY_NOT_FOUND), t)
      | Inr (Some i) \<Rightarrow>
         (case wrappers (pm t) i of
            None \<Rightarrow> (Inl Undefined, t)
          | Some w \<Rightarrow>
             (if location w = EMPTY then (Inl (OperationFailed KEY_NOT_FOUND), t)
              else if isLocationReservedNotPublished w
              then let w = w\<lparr>location := EMPTY\<rparr>; t = set_wrapper i w t
                   in case actionValue w of
                        None \<Rightarrow> (Inl Undefined, t)
                      | Some b \<Rightarrow> (Inr (), free_wrapper i w (cancel_block b t))
              else (Inr (), set_wrapper i (w\<lparr>location := EMPTY\<rparr>) t))))"

definition AllocValueForKey :: "reserve_fn \<Rightarrow> u8 list \<Rightarrow> nat \<Rightarrow> ARTree \<Rightarrow> (exn + oid) \<times> ARTree" where
  "AllocValueForKey rsv key sz t =
     (case findValueAlloc LEAF_DEPTH rsv (keySize t) key (rootNode t) (pm t) of
        (r, n, m) \<Rightarrow>
         (let t = t\<lparr>rootNode := n, pm := m\<rparr>
          in case r of
               Inl e \<Rightarrow> (Inl e, t)
             | Inr i \<Rightarrow>
                (case wrappers m i of
                   None \<Rightarrow> (Inl Undefined, t)
                 | Some w \<Rightarrow>
                    (if location w \<noteq> EMPTY then (Inl (OperationFailed PMEM_ALLOCATION_ERROR), t)
                     else case rsv m ALLOC_CLASS_VALUE sz of
                            None \<Rightarrow> (Inl (OperationFailed PMEM_ALLOCATION_ERROR),
                                     set_wrapper i (w\<lparr>locationPtr := None, actionValue := None\<rparr>) t)
                          | Some b \<Rightarrow>
                             (Inr b, set_wrapper i (w\<lparr>locationPtr := Some b, actionValue := Some b, vsize := sz\<rparr>)
                                (t\<lparr>pm := m\<lparr>blocks := (blocks m)(b \<mapsto> Value (replicate sz 0))\<rparr>\<rparr>))))))"

text \<open>Moving a value to disk. The reservation is not checked for a null pointer before it is used.\<close>

definition AllocateAndUpdateValueWrapper :: "reserve_fn \<Rightarrow> u8 list \<Rightarrow> nat \<Rightarrow> DeviceAddr \<Rightarrow> ARTree \<Rightarrow> (exn + unit) \<times> ARTree" where
  "AllocateAndUpdateValueWrapper rsv key sz devAddr t =
     (case findValueInNode (rootNode t) (keySize t) key of
        Inl e \<Rightarrow> (Inl e, t)
      | Inr None \<Rightarrow> (Inl (OperationFailed PMEM_ALLOCATION_ERROR), t)
      | Inr (Some i) \<Rightarrow>
         (case wrappers (pm t) i of
            None \<Rightarrow> (Inl Undefined, t)
          | Some w \<Rightarrow>
             (case actionValue w of
                None \<Rightarrow> (Inl Undefined, t)
              | Some b \<Rightarrow>
                 (let m = (pm t)\<lparr>blocks := (blocks (pm t))(b := None)\<rparr>
                  in case rsv m ALLOC_CLASS_VALUE sz of
                       None \<Rightarrow> (Inl Undefined, t)
                     | Some c \<Rightarrow>
                        (Inr (), set_wrapper i (w\<lparr>locationPtr := Some c, location := DISK, actionValue := None\<rparr>)
                           (t\<lparr>pm := m\<lparr>blocks := (blocks m)(c \<mapsto> Iov devAddr)\<rparr>\<rparr>))))))"

section \<open>The shape of the tree\<close>

text \<open>Depths count from the root, leaves are at the last level, and the children of a node are all
  there or all missing.\<close>

primrec art_wf :: "node \<Rightarrow> nat \<Rightarrow> bool" where
  "art_wf (NodeLeafCompressed d c) k \<longleftrightarrow> d = k \<and> k = LEAF_DEPTH"
| "art_wf (Node256 d ch) k \<longleftrightarrow> d = k \<and> k < LEAF_DEPTH \<and> ((\<forall>i. ch i = None) \<or> (\<forall>i. ch i \<noteq> None)) \<and>
     (\<forall>i. case map_option art_wf (ch i) of None \<Rightarrow> True | Some P \<Rightarrow> P (k + 1))"

text \<open>The pointer at the end of a path of bytes.\<close>

fun leaf :: "node \<Rightarrow> u8 list \<Rightarrow> oid option" where
  "leaf (NodeLeafCompressed d c) [] = c"
| "leaf (Node256 d ch) (k # ks) = (case ch k of None \<Rightarrow> None | Some n \<Rightarrow> leaf n ks)"
| "leaf n ks = None"

lemma LEAF_DEPTH_8: "LEAF_DEPTH = 8"
  by (simp add: LEAF_DEPTH_def LEVEL_TYPE_def)

lemma art_wf_child: "art_wf (Node256 d ch) k \<Longrightarrow> ch i = Some n \<Longrightarrow> art_wf n (k + 1)"
  by (auto split: option.splits dest!: spec [of _ i])

lemma art_wf_Node256:
  "art_wf (Node256 d ch) k \<longleftrightarrow> d = k \<and> k < LEAF_DEPTH \<and>
     ((\<forall>i. ch i = None) \<or> (\<forall>i. ch i \<noteq> None)) \<and> (\<forall>i n. ch i = Some n \<longrightarrow> art_wf n (k + 1))"
  by (auto split: option.splits)

declare art_wf.simps(2) [simp del]

lemma rev_key_step:
  assumes "length key = 8" "d < 8"
  shows "drop d (rev key) = key ! (8 - d - 1) # drop (Suc d) (rev key)"
  using assms Cons_nth_drop_Suc [of d "rev key"] by (simp add: rev_nth)

lemma find_leaf: "art_wf n d \<Longrightarrow> length key = 8 \<Longrightarrow> findValueInNode n 8 key = Inr (leaf n (drop d (rev key)))"
proof (induction n arbitrary: d)
  case (Node256 e ch)
  then have d: "e = d" "d < 8" by (auto simp: art_wf_Node256 LEAF_DEPTH_8)
  show ?case
  proof (cases "ch (key ! (8 - d - 1))")
    case None
    then show ?thesis using Node256.prems d by (simp add: rev_key_step LEAF_DEPTH_8)
  next
    case (Some c)
    then have "findValueInNode c 8 key = Inr (leaf c (drop (Suc d) (rev key)))"
      using Node256.IH [of "Some c" c "Suc d"] rangeI [of ch "key ! (8 - d - 1)"] Some Node256.prems
        art_wf_child [OF Node256.prems(1) Some] by simp
    then show ?thesis using Node256.prems d Some by (simp add: rev_key_step LEAF_DEPTH_8)
  qed
qed (auto simp: LEAF_DEPTH_8)

lemma new_child_wf: "d \<le> LEAF_DEPTH \<Longrightarrow> art_wf (new_child d) d"
proof -
  assume "d \<le> LEAF_DEPTH"
  then consider "d = 8" | "d < 8" unfolding LEAF_DEPTH_8 by linarith
  then show ?thesis
    by cases (auto simp: new_child_def LEVEL_TYPE_def art_wf_Node256 LEAF_DEPTH_8 nth_append)
qed

lemma leaf_new_child [simp]: "leaf (new_child d) ks = None"
  by (cases ks) (auto simp: new_child_def)

text \<open>What \<open>findValueInNode\<close> with allocation does to the tree and the memory: it adds at most the
  wrapper of the key, and nodes without wrappers.\<close>

definition alloc_post :: "u8 list \<Rightarrow> node \<Rightarrow> art_mem \<Rightarrow> (exn + oid) \<times> node \<times> art_mem \<Rightarrow> bool" where
  "alloc_post p n m res \<longleftrightarrow>
     (case res of (r, n', m') \<Rightarrow>
        art_wf n' (node_depth n) \<and> blocks m' = blocks m \<and> (\<forall>q. q \<noteq> p \<longrightarrow> leaf n' q = leaf n q) \<and>
        (case r of
           Inl e \<Rightarrow> e = OperationFailed PMEM_ALLOCATION_ERROR \<and> leaf n' p = leaf n p \<and> leaf n p = None \<and> wrappers m' = wrappers m
         | Inr i \<Rightarrow> leaf n' p = Some i \<and>
             (if leaf n p = None then wrappers m i = None \<and> blocks m i = None \<and> (\<exists>old. wrappers m' = (wrappers m)(i \<mapsto> fresh_wrapper old))
              else leaf n p = Some i \<and> wrappers m' = wrappers m)))"

lemma leaf_NodeLeaf: "leaf (NodeLeafCompressed d c) q = (if q = [] then c else None)"
  by (cases q) auto

lemma full_children_wf: "d < LEAF_DEPTH \<Longrightarrow> art_wf (Node256 d (\<lambda>_. Some (new_child (d + 1)))) d"
  using new_child_wf [of "d + 1"] by (simp add: art_wf_Node256)

lemma leaf_full_children: "leaf (Node256 d (\<lambda>_. Some (new_child e))) q = None"
  by (cases q) auto

lemma leaf_no_children: "\<forall>i. ch i = None \<Longrightarrow> leaf (Node256 d ch) q = None"
  by (cases q) auto

text \<open>One level of the descent, once the child is there.\<close>

lemma alloc_post_step:
  assumes wf: "art_wf (Node256 d ch) d" and c: "ch k = Some c" and post: "alloc_post p c m res"
    and n0: "node_depth n0 = d" "\<And>q. leaf n0 q = leaf (Node256 d ch) q" and m0: "wrappers m0 = wrappers m" "blocks m0 = blocks m"
  shows "alloc_post (k # p) n0 m0 (case res of (r, c', m') \<Rightarrow> (r, Node256 d (ch(k \<mapsto> c')), m'))"
proof -
  obtain r c' m' where res: "res = (r, c', m')" by (cases res) auto
  have cd: "node_depth c = d + 1" using art_wf_child [OF wf c] by (cases c) (auto simp: node_depth_def art_wf_Node256)
  have c': "art_wf c' (d + 1)" "\<And>q. q \<noteq> p \<Longrightarrow> leaf c' q = leaf c q" using post res cd by (auto simp: alloc_post_def)
  have wf': "art_wf (Node256 d (ch(k \<mapsto> c'))) d" using wf c c'(1) by (auto simp: art_wf_Node256)
  have other: "leaf (Node256 d (ch(k \<mapsto> c'))) q = leaf n0 q" if "q \<noteq> k # p" for q
    using that c c'(2) n0(2) by (cases q) auto
  have at: "leaf (Node256 d (ch(k \<mapsto> c'))) (k # p) = leaf c' p" "leaf n0 (k # p) = leaf c p" using c n0(2) by auto
  show ?thesis using post unfolding res alloc_post_def prod.case n0(1) m0 at
    using wf' other by (auto split: sum.splits if_splits)
qed

lemma find_alloc_spec:
  assumes "fresh_reserve rsv" "length key = 8"
  shows "art_wf n d \<Longrightarrow> f + d = 8 \<Longrightarrow> alloc_post (drop d (rev key)) n m (findValueAlloc f rsv 8 key n m)"
proof (induction f arbitrary: n d m)
  case 0
  then obtain c where n: "n = NodeLeafCompressed 8 c" by (cases n) (auto simp: art_wf_Node256 LEAF_DEPTH_8)
  have dr: "drop d (rev key) = []" using assms(2) 0 by simp
  show ?case
  proof (cases c)
    case (Some i)
    then show ?thesis unfolding dr n by (simp add: alloc_post_def node_depth_def LEAF_DEPTH_8)
  next
    case None
    then show ?thesis using assms(1) unfolding dr n
      by (cases "rsv m ALLOC_CLASS_VALUE_WRAPPER 1")
        (auto simp: alloc_post_def node_depth_def LEAF_DEPTH_8 fresh_reserve_def leaf_NodeLeaf simp del: split_paired_Ex)
  qed
next
  case (Suc f)
  then obtain ch where n: "n = Node256 d ch" and d: "d < 8" by (cases n) (auto simp: art_wf_Node256 LEAF_DEPTH_8)
  let ?k = "key ! (8 - d - 1)" let ?p = "drop (Suc d) (rev key)"
  have dr: "drop d (rev key) = ?k # ?p" using assms(2) d by (rule rev_key_step)
  have nd: "node_depth n = d" using n by (simp add: node_depth_def)
  have guard: "\<not> (d = LEAF_DEPTH \<or> 8 < d + 1 \<or> length key \<le> 8 - d - 1)" using d assms(2) by (simp add: LEAF_DEPTH_8)
  show ?case
  proof (cases "ch ?k")
    case (Some c)
    have "alloc_post ?p c m (findValueAlloc f rsv 8 key c m)"
      using Suc.IH [of c "Suc d"] art_wf_child [of d ch d ?k c] Suc.prems n Some by simp
    then have "alloc_post (?k # ?p) n m (case findValueAlloc f rsv 8 key c m of (r, c', m') \<Rightarrow> (r, Node256 d (ch(?k \<mapsto> c')), m'))"
      by (rule alloc_post_step [rotated 2]) (use Suc.prems n Some nd in auto)
    then show ?thesis unfolding dr using n guard Some by (simp add: Let_def)
  next
    case None
    have "(\<forall>i. ch i = None) \<or> (\<forall>i. ch i \<noteq> None)" using Suc.prems(1) n by (simp add: art_wf_Node256)
    then have all: "\<forall>i. ch i = None" using None by blast
    show ?thesis
    proof (cases "rsv m (child_class (d + 1)) 256")
      case no: None
      then show ?thesis unfolding dr using n guard None Suc.prems nd all
        by (simp add: Let_def allocateFullLevels_def alloc_post_def)
    next
      case (Some i)
      let ?ch = "\<lambda>_. Some (new_child (d + 1))" let ?m = "m\<lparr>node_arrays := node_arrays m + 1\<rparr>"
      have wf: "art_wf (Node256 d ?ch) d" using d by (intro full_children_wf) (simp add: LEAF_DEPTH_8)
      have "alloc_post ?p (new_child (d + 1)) ?m (findValueAlloc f rsv 8 key (new_child (d + 1)) ?m)"
        using Suc.IH [of "new_child (d + 1)" "Suc d"] new_child_wf [of "d + 1"] d Suc.prems(2) by (simp add: LEAF_DEPTH_8)
      then have "alloc_post (?k # ?p) n m (case findValueAlloc f rsv 8 key (new_child (d + 1)) ?m of
          (r, c', m') \<Rightarrow> (r, Node256 d (?ch(?k \<mapsto> c')), m'))"
        by (rule alloc_post_step [OF wf refl]) (use nd n all leaf_no_children leaf_full_children in auto)
      then show ?thesis unfolding dr using n guard None Some by (simp add: Let_def allocateFullLevels_def)
    qed
  qed
qed

section \<open>The index as a map\<close>

text \<open>What a key is mapped to: a value in persistent memory, or the address of a value on disk.\<close>

datatype entry = PmemVal bytes | DiskVal DeviceAddr nat

definition owned :: "ValueWrapper \<Rightarrow> oid set" where
  "owned w = set_option (if location w = EMPTY then actionValue w else locationPtr w)"

definition wrapper_ok :: "art_mem \<Rightarrow> ValueWrapper \<Rightarrow> bool" where
  "wrapper_ok m w \<longleftrightarrow>
     (case location w of
        PMEM \<Rightarrow> locationVolatile w \<noteq> EMPTY \<and> (\<exists>b v. locationPtr w = Some b \<and> actionValue w = Some b \<and>
                 blocks m b = Some (Value v) \<and> length v = vsize w)
      | DISK \<Rightarrow> actionValue w = None \<and> (\<exists>b d. locationPtr w = Some b \<and> blocks m b = Some (Iov d))
      | EMPTY \<Rightarrow> actionValue w = None \<or> (\<exists>b v. locationPtr w = Some b \<and> actionValue w = Some b \<and>
                 blocks m b = Some (Value v) \<and> length v = vsize w))"

definition entry_of :: "art_mem \<Rightarrow> ValueWrapper \<Rightarrow> entry option" where
  "entry_of m w =
     (if location w = EMPTY then None
      else case Option.bind (locationPtr w) (blocks m) of
             None \<Rightarrow> None
           | Some (Value v) \<Rightarrow> Some (PmemVal v)
           | Some (Iov d) \<Rightarrow> Some (DiskVal d (vsize w)))"

definition mem_inv :: "(u8 list \<rightharpoonup> oid) \<Rightarrow> art_mem \<Rightarrow> bool" where
  "mem_inv L m \<longleftrightarrow>
     (\<forall>p q i. L p = Some i \<longrightarrow> L q = Some i \<longrightarrow> p = q) \<and>
     (\<forall>p i. L p = Some i \<longrightarrow> (\<exists>w. wrappers m i = Some w \<and> wrapper_ok m w)) \<and>
     (\<forall>p q i j v w. L p = Some i \<longrightarrow> L q = Some j \<longrightarrow> wrappers m i = Some v \<longrightarrow> wrappers m j = Some w \<longrightarrow>
        i \<noteq> j \<longrightarrow> owned v \<inter> owned w = {})"

definition abs_mem :: "(u8 list \<rightharpoonup> oid) \<Rightarrow> art_mem \<Rightarrow> u8 list \<rightharpoonup> entry" where
  "abs_mem L m p = Option.bind (L p) (\<lambda>i. Option.bind (wrappers m i) (entry_of m))"

lemma wrapper_ok_dom: "wrapper_ok m w \<Longrightarrow> b \<in> owned w \<Longrightarrow> blocks m b \<noteq> None"
  by (auto simp: wrapper_ok_def owned_def split: LOCATIONS.splits if_splits)

lemma wrapper_ok_cong: "(\<And>b. b \<in> owned w \<Longrightarrow> blocks m' b = blocks m b) \<Longrightarrow> wrapper_ok m w \<Longrightarrow> wrapper_ok m' w"
  by (cases "location w") (auto simp: wrapper_ok_def owned_def)

lemma entry_of_cong: "(\<And>b. b \<in> owned w \<Longrightarrow> blocks m' b = blocks m b) \<Longrightarrow> entry_of m' w = entry_of m w"
  by (cases "locationPtr w") (auto simp: entry_of_def owned_def)

lemma mem_inv_update:
  assumes inv: "mem_inv L m" and p: "L p = Some i" "wrappers m i = Some w"
    and w': "wrappers m' = (wrappers m)(i \<mapsto> w')" "wrapper_ok m' w'" "owned w' \<subseteq> owned w \<union> F"
    and fr: "\<And>b. b \<notin> owned w \<union> F \<Longrightarrow> blocks m' b = blocks m b" "\<And>b. b \<in> F \<Longrightarrow> b \<in> owned w \<or> blocks m b = None"
  shows "mem_inv L m'" "abs_mem L m' = (abs_mem L m)(p := entry_of m' w')"
proof -
  have inj: "q = p" if "L q = Some i" for q using inv p(1) that unfolding mem_inv_def by blast
  have other: "\<exists>v. wrappers m' j = Some v \<and> wrappers m j = Some v \<and> wrapper_ok m v \<and> owned v \<inter> owned w' = {} \<and>
      (\<forall>b \<in> owned v. blocks m' b = blocks m b)" if "L q = Some j" "j \<noteq> i" for q j
  proof -
    obtain v where v: "wrappers m j = Some v" "wrapper_ok m v" using inv \<open>L q = Some j\<close> unfolding mem_inv_def by blast
    have "owned v \<inter> owned w = {}" using inv that p v(1) unfolding mem_inv_def by blast
    moreover have "owned v \<inter> F \<subseteq> owned w" using wrapper_ok_dom [OF v(2)] fr(2) by blast
    ultimately have "owned v \<inter> (owned w \<union> F) = {}" by blast
    then show ?thesis using v w'(1,3) fr(1) that(2) by auto
  qed
  show "mem_inv L m'" unfolding mem_inv_def
  proof (intro conjI allI impI, goal_cases)
    case (1 q r j)
    then show ?case using inv unfolding mem_inv_def by blast
  next
    case (2 q j)
    show ?case
    proof (cases "j = i")
      case True
      then show ?thesis using w' by simp
    next
      case False
      then obtain v where "wrappers m' j = Some v" "wrapper_ok m v" "\<forall>b \<in> owned v. blocks m' b = blocks m b"
        using other [OF 2] by blast
      then show ?thesis using wrapper_ok_cong [of v m' m] by blast
    qed
  next
    case (3 q r j k u v)
    then show ?case
    proof (cases "j = i")
      case True
      then show ?thesis using 3 other [of r k] w'(1) by (auto simp: Int_commute)
    next
      case jn: False
      show ?thesis
      proof (cases "k = i")
        case True
        then show ?thesis using 3 other [of q j] w'(1) jn by auto
      next
        case False
        then have "wrappers m j = Some u" "wrappers m k = Some v" using 3 jn w'(1) by auto
        then show ?thesis using 3 inv unfolding mem_inv_def by blast
      qed
    qed
  qed
  show "abs_mem L m' = (abs_mem L m)(p := entry_of m' w')"
  proof
    fix q
    show "abs_mem L m' q = ((abs_mem L m)(p := entry_of m' w')) q"
    proof (cases "q = p")
      case True
      then show ?thesis using p w'(1) by (simp add: abs_mem_def)
    next
      case False
      show ?thesis
      proof (cases "L q")
        case (Some j)
        then have "j \<noteq> i" using inj False by blast
        then obtain v where "wrappers m' j = Some v" "wrappers m j = Some v" "\<forall>b \<in> owned v. blocks m' b = blocks m b"
          using other [OF Some] by blast
        then show ?thesis using False Some entry_of_cong [of v m' m] by (simp add: abs_mem_def)
      qed (use False in \<open>simp add: abs_mem_def\<close>)
    qed
  qed
qed

lemma mem_inv_new_leaf:
  assumes inv: "mem_inv L m" and L: "L p = None" "L' p = Some i" "\<And>q. q \<noteq> p \<Longrightarrow> L' q = L q"
    and m: "wrappers m i = None" "wrappers m' = (wrappers m)(i \<mapsto> fresh_wrapper old)" "blocks m' = blocks m"
  shows "mem_inv L' m'" "abs_mem L' m' = abs_mem L m"
proof -
  have old: "j \<noteq> i \<and> (\<exists>w. wrappers m j = Some w \<and> wrapper_ok m w)" if "L q = Some j" for q j
    using inv that m(1) unfolding mem_inv_def by (metis option.distinct(1))
  have ok: "wrapper_ok m' w = wrapper_ok m w" "entry_of m' w = entry_of m w" for w 
    unfolding wrapper_ok_def entry_of_def m(3) by simp_all
  have fresh: "wrapper_ok m (fresh_wrapper old)" "owned (fresh_wrapper old) = {}" "entry_of m (fresh_wrapper old) = None"
    by (simp_all add: fresh_wrapper_def wrapper_ok_def owned_def entry_of_def)
  have cases_L': "(q = p \<and> j = i) \<or> (q \<noteq> p \<and> L q = Some j \<and> j \<noteq> i)" if "L' q = Some j" for q j
    using that L old by (cases "q = p") auto
  show "mem_inv L' m'" unfolding mem_inv_def
  proof (intro conjI allI impI, goal_cases)
    case (1 q r j)
    then show ?case using cases_L' [OF 1(1)] cases_L' [OF 1(2)] inv unfolding mem_inv_def by metis
  next
    case (2 q j)
    then show ?case using cases_L' [OF 2] old [of q j] m(2) fresh ok by auto
  next
    case (3 q r j k u v)
    show ?case
    proof (cases "j = i \<or> k = i")
      case True
      then show ?thesis using 3(3,4) m(2) fresh by auto
    next
      case False
      then have "L q = Some j" "L r = Some k" "wrappers m j = Some u" "wrappers m k = Some v"
        using 3 cases_L' [OF 3(1)] cases_L' [OF 3(2)] m(2) by auto
      then show ?thesis using inv 3(5) unfolding mem_inv_def by blast
    qed
  qed
  show "abs_mem L' m' = abs_mem L m"
  proof
    fix q
    show "abs_mem L' m' q = abs_mem L m q"
    proof (cases "q = p")
      case True
      then show ?thesis using L m fresh ok by (simp add: abs_mem_def)
    next
      case False
      then show ?thesis using L(3) m(2) ok old [of q] by (cases "L q") (auto simp: abs_mem_def)
    qed
  qed
qed

definition art_inv :: "ARTree \<Rightarrow> bool" where
  "art_inv t \<longleftrightarrow> keySize t = 8 \<and> art_wf (rootNode t) 0 \<and> mem_inv (leaf (rootNode t)) (pm t)"

definition art_map :: "ARTree \<Rightarrow> u8 list \<rightharpoonup> entry" where
  "art_map t key = abs_mem (leaf (rootNode t)) (pm t) (rev key)"

text \<open>The same without the keys in \<open>D\<close>, whose wrappers have been freed: their leaves still have pointers, to memory
  that may belong to another key by now.\<close>

definition live :: "u8 list set \<Rightarrow> ARTree \<Rightarrow> u8 list \<rightharpoonup> oid" where
  "live D t p = (if rev p \<in> D then None else leaf (rootNode t) p)"

definition art_inv_on :: "u8 list set \<Rightarrow> ARTree \<Rightarrow> bool" where
  "art_inv_on D t \<longleftrightarrow> keySize t = 8 \<and> art_wf (rootNode t) 0 \<and> mem_inv (live D t) (pm t)"

definition art_map_on :: "u8 list set \<Rightarrow> ARTree \<Rightarrow> u8 list \<rightharpoonup> entry" where
  "art_map_on D t key = abs_mem (live D t) (pm t) (rev key)"

text \<open>A key whose value is reserved and not yet published.\<close>

definition half_stored :: "u8 list set \<Rightarrow> ARTree \<Rightarrow> u8 list \<Rightarrow> bool" where
  "half_stored D t key \<longleftrightarrow>
     (\<exists>i w. live D t (rev key) = Some i \<and> wrappers (pm t) i = Some w \<and> location w = EMPTY \<and> actionValue w \<noteq> None)"

text \<open>An operation that changes the entry of one key to \<open>e\<close>, and nothing else.\<close>

definition changed :: "u8 list set \<Rightarrow> u8 list \<Rightarrow> ARTree \<Rightarrow> ARTree \<Rightarrow> entry option \<Rightarrow> bool" where
  "changed D key t t' e \<longleftrightarrow> art_inv_on D t' \<and> art_map_on D t' = (art_map_on D t)(key := e) \<and>
     (\<forall>k. k \<noteq> key \<longrightarrow> half_stored D t' k = half_stored D t k)"

lemma live_empty: "live {} t = leaf (rootNode t)"
  by (simp add: live_def fun_eq_iff)

lemma art_inv_live: "art_inv t = art_inv_on {} t" "art_map t = art_map_on {} t"
  by (simp_all add: art_inv_def art_inv_on_def art_map_def art_map_on_def live_empty fun_eq_iff)

lemma changed_empty: "changed {} key t t' e \<Longrightarrow> art_inv t' \<and> art_map t' = (art_map t)(key := e)"
  by (simp add: changed_def art_inv_live)

lemma changed_trans: "changed D key t t1 e1 \<Longrightarrow> changed D key t1 t2 e2 \<Longrightarrow> changed D key t t2 e2"
  by (simp add: changed_def)

lemma live_leaf: "key \<notin> D \<Longrightarrow> live D t (rev key) = leaf (rootNode t) (rev key)"
  by (simp add: live_def)

text \<open>The value of a key is reserved at block \<open>b\<close> and not yet published by \<open>Put\<close>.\<close>

definition reserved_at :: "ARTree \<Rightarrow> u8 list \<Rightarrow> oid \<Rightarrow> bytes \<Rightarrow> bool" where
  "reserved_at t key b v \<longleftrightarrow> (\<exists>i w. leaf (rootNode t) (rev key) = Some i \<and> wrappers (pm t) i = Some w \<and> location w = EMPTY \<and>
     locationPtr w = Some b \<and> actionValue w = Some b \<and> vsize w = length v \<and> blocks (pm t) b = Some (Value v))"

text \<open>Copying a value into its block, as the store does between \<open>AllocValueForKey\<close> and \<open>Put\<close>.\<close>

definition write_block :: "oid \<Rightarrow> bytes \<Rightarrow> ARTree \<Rightarrow> ARTree" where
  "write_block b v t = t\<lparr>pm := (pm t)\<lparr>blocks := (blocks (pm t))(b \<mapsto> Value v)\<rparr>\<rparr>"

lemma find_on:
  "art_inv_on D t \<Longrightarrow> length key = 8 \<Longrightarrow> findValueInNode (rootNode t) (keySize t) key = Inr (leaf (rootNode t) (rev key))"
  using find_leaf [of "rootNode t" 0 key] by (simp add: art_inv_on_def)

lemma art_wf_depth: "art_wf n d \<Longrightarrow> node_depth n = d"
  by (cases n) (auto simp: node_depth_def art_wf_Node256)

lemma art_leaf_wrapper:
  assumes "art_inv_on D t" "live D t p = Some i"
  obtains w where "wrappers (pm t) i = Some w" "wrapper_ok (pm t) w"
  using assms unfolding art_inv_on_def mem_inv_def by blast

lemma art_update:
  assumes inv: "art_inv_on D t" and p: "live D t (rev key) = Some i" "wrappers (pm t) i = Some w"
    and t': "rootNode t' = rootNode t" "keySize t' = keySize t"
    and w': "wrappers (pm t') = (wrappers (pm t))(i \<mapsto> w')" "wrapper_ok (pm t') w'" "owned w' \<subseteq> owned w \<union> F"
    and fr: "\<And>b. b \<notin> owned w \<union> F \<Longrightarrow> blocks (pm t') b = blocks (pm t) b" "\<And>b. b \<in> F \<Longrightarrow> b \<in> owned w \<or> blocks (pm t) b = None"
  shows "changed D key t t' (entry_of (pm t') w') \<and> (half_stored D t' key \<longleftrightarrow> location w' = EMPTY \<and> actionValue w' \<noteq> None)"
proof -
  have m: "mem_inv (live D t) (pm t)" using inv by (simp add: art_inv_on_def)
  have L: "live D t' = live D t" by (simp add: live_def fun_eq_iff t'(1))
  have up: "mem_inv (live D t) (pm t')"
    "abs_mem (live D t) (pm t') = (abs_mem (live D t) (pm t))(rev key := entry_of (pm t') w')"
    using mem_inv_update [OF m p w'] fr by blast+
  have "art_map_on D t' = (art_map_on D t)(key := entry_of (pm t') w')" by (rule ext) (simp add: art_map_on_def up(2) L)
  moreover have "half_stored D t' k = half_stored D t k" if "k \<noteq> key" for k
  proof -
    have "live D t (rev k) \<noteq> Some i" using m p(1) that unfolding mem_inv_def by (metis rev_rev_ident)
    then show ?thesis by (auto simp: half_stored_def L w'(1))
  qed
  ultimately show ?thesis using inv up(1) t' p(1) by (simp add: changed_def art_inv_on_def L half_stored_def w'(1))
qed

lemma ART_Put_on:
  assumes inv: "art_inv_on D t" and len: "length key = 8" and r: "reserved_at t key b v" and k: "key \<notin> D"
  shows "\<exists>t'. ART_Put key t = (Inr (), t') \<and> changed D key t t' (Some (PmemVal v)) \<and> \<not> half_stored D t' key"
proof -
  obtain i w where w: "leaf (rootNode t) (rev key) = Some i" "wrappers (pm t) i = Some w" "location w = EMPTY"
    "locationPtr w = Some b" "actionValue w = Some b" "vsize w = length v" "blocks (pm t) b = Some (Value v)"
    using r by (auto simp: reserved_at_def)
  let ?w = "w\<lparr>locationVolatile := PMEM, location := PMEM\<rparr>"
  let ?t = "set_wrapper i ?w (t\<lparr>initialized := True\<rparr>)"
  have "entry_of (pm ?t) ?w = Some (PmemVal v)" using w by (simp add: entry_of_def set_wrapper_def)
  moreover have "changed D key t ?t (entry_of (pm ?t) ?w) \<and> (half_stored D ?t key \<longleftrightarrow> location ?w = EMPTY \<and> actionValue ?w \<noteq> None)"
    by (rule art_update [OF inv _ w(2), where F = "{}"]) (use w k in \<open>auto simp: set_wrapper_def wrapper_ok_def owned_def live_leaf\<close>)
  moreover have "ART_Put key t = (Inr (), ?t)" using w by (simp add: ART_Put_def find_on [OF inv len])
  ultimately show ?thesis by auto
qed

lemma write_block_on:
  assumes inv: "art_inv_on D t" and r: "reserved_at t key b u" and len: "length v = length u" and k: "key \<notin> D"
  shows "changed D key t (write_block b v t) None \<and> art_map_on D t key = None \<and> reserved_at (write_block b v t) key b v"
proof -
  obtain i w where w: "leaf (rootNode t) (rev key) = Some i" "wrappers (pm t) i = Some w" "location w = EMPTY"
    "locationPtr w = Some b" "actionValue w = Some b" "vsize w = length u" "blocks (pm t) b = Some (Value u)"
    using r by (auto simp: reserved_at_def)
  have "entry_of (pm (write_block b v t)) w = None" using w by (simp add: entry_of_def)
  moreover have "art_map_on D t key = None" using w k by (simp add: art_map_on_def abs_mem_def entry_of_def live_leaf)
  moreover have "changed D key t (write_block b v t) (entry_of (pm (write_block b v t)) w) \<and>
      (half_stored D (write_block b v t) key \<longleftrightarrow> location w = EMPTY \<and> actionValue w \<noteq> None)"
    by (rule art_update [OF inv _ w(2), where F = "{}"]) (use w len k in \<open>auto simp: write_block_def wrapper_ok_def owned_def live_leaf\<close>)
  ultimately show ?thesis using w len by (auto simp: reserved_at_def write_block_def)
qed

lemma ART_Get_on:
  assumes inv: "art_inv_on D t" and len: "length key = 8" and k: "key \<notin> D"
  shows "case art_map_on D t key of
       None \<Rightarrow> ART_Get key t = Inl (OperationFailed KEY_NOT_FOUND)
     | Some (PmemVal v) \<Rightarrow> \<exists>b. ART_Get key t = Inr (Some b, length v, PMEM) \<and> blocks (pm t) b = Some (Value v)
     | Some (DiskVal d n) \<Rightarrow> \<exists>b. ART_Get key t = Inr (Some b, n, DISK) \<and> blocks (pm t) b = Some (Iov d)"
proof (cases "leaf (rootNode t) (rev key)")
  case None
  then show ?thesis by (simp add: art_map_on_def abs_mem_def ART_Get_def find_on [OF inv len] live_leaf [OF k])
next
  case (Some i)
  obtain w where w: "wrappers (pm t) i = Some w" "wrapper_ok (pm t) w" using inv Some live_leaf [OF k] art_leaf_wrapper by metis
  have "ART_Get key t = (if location w = EMPTY then Inl (OperationFailed KEY_NOT_FOUND) else Inr (locationPtr w, vsize w, location w))"
    using w Some by (cases "location w") (auto simp: ART_Get_def find_on [OF inv len] wrapper_ok_def)
  then show ?thesis using w Some
    by (cases "location w") (auto simp: art_map_on_def abs_mem_def entry_of_def wrapper_ok_def live_leaf [OF k])
qed

lemma mem_inv_same:
  assumes "blocks m' = blocks m" "wrappers m' = wrappers m"
  shows "mem_inv L m' = mem_inv L m" "abs_mem L m' = abs_mem L m"
proof -
  have e: "wrapper_ok m' w = wrapper_ok m w" "entry_of m' w = entry_of m w" for w
    unfolding wrapper_ok_def entry_of_def assms by (rule refl)+
  show "mem_inv L m' = mem_inv L m" unfolding mem_inv_def e assms(2) ..
  have "entry_of m' = entry_of m" by (rule ext) (rule e)
  then show "abs_mem L m' = abs_mem L m" by (intro ext) (simp add: abs_mem_def assms(2))
qed

text \<open>Growing the tree on the way to a key changes no entry.\<close>

lemma find_alloc_on:
  assumes inv: "art_inv_on D t" and len: "length key = 8" and fr: "fresh_reserve rsv" and k: "key \<notin> D"
  shows "\<exists>r n m. findValueAlloc LEAF_DEPTH rsv (keySize t) key (rootNode t) (pm t) = (r, n, m) \<and>
     changed D key t (t\<lparr>rootNode := n, pm := m\<rparr>) (art_map_on D t key) \<and>
     half_stored D (t\<lparr>rootNode := n, pm := m\<rparr>) key = half_stored D t key \<and>
     (case r of Inl e \<Rightarrow> e = OperationFailed PMEM_ALLOCATION_ERROR \<and> art_map_on D t key = None
      | Inr i \<Rightarrow> leaf n (rev key) = Some i)"
proof -
  have wf: "art_wf (rootNode t) 0" and ks: "keySize t = 8" and m0: "mem_inv (live D t) (pm t)"
    using inv by (auto simp: art_inv_on_def)
  obtain r n m where res: "findValueAlloc LEAF_DEPTH rsv (keySize t) key (rootNode t) (pm t) = (r, n, m)"
    using prod_cases3 by blast
  define t' where "t' = t\<lparr>rootNode := n, pm := m\<rparr>"
  have post: "alloc_post (rev key) (rootNode t) (pm t) (r, n, m)"
    using find_alloc_spec [OF fr len wf, of 8 "pm t"] res ks by (simp add: LEAF_DEPTH_8)
  have n: "art_wf n 0" "blocks m = blocks (pm t)" "\<And>q. q \<noteq> rev key \<Longrightarrow> leaf n q = leaf (rootNode t) q"
    using post art_wf_depth [OF wf] by (auto simp: alloc_post_def)
  have L: "live D t' q = live D t q" if "q \<noteq> rev key" for q using n(3) [OF that] by (simp add: live_def t'_def)
  have "mem_inv (live D t') m \<and> abs_mem (live D t') m = abs_mem (live D t) (pm t) \<and> (\<forall>q. half_stored D t' q = half_stored D t q)"
  proof (cases "wrappers m = wrappers (pm t)")
    case True
    have "leaf n (rev key) = leaf (rootNode t) (rev key)"
      using post True by (auto simp: alloc_post_def split: sum.splits if_splits) (metis fun_upd_same option.distinct(1))
    then have "live D t' q = live D t q" for q using L [of q] by (cases "q = rev key") (simp_all add: live_def t'_def)
    then have "live D t' = live D t" by (rule ext)
    then show ?thesis using m0 mem_inv_same [OF n(2) True] True by (simp add: half_stored_def t'_def)
  next
    case False
    then obtain i old where i: "leaf (rootNode t) (rev key) = None" "leaf n (rev key) = Some i" "wrappers (pm t) i = None"
      "wrappers m = (wrappers (pm t))(i \<mapsto> fresh_wrapper old)"
      using post by (auto simp: alloc_post_def split: sum.splits if_splits)
    have l: "live D t (rev key) = None" "live D t' (rev key) = Some i" using i(1,2) k by (simp_all add: live_leaf t'_def)
    have "half_stored D t' q = half_stored D t q" for q
    proof (cases "q = key")
      case True
      then show ?thesis using l i(4) by (simp add: half_stored_def t'_def fresh_wrapper_def)
    next
      case False
      then have "live D t' (rev q) = live D t (rev q)" using L [of "rev q"] by (metis rev_rev_ident)
      moreover have "live D t (rev q) \<noteq> Some i" using m0 i(3) unfolding mem_inv_def by (metis option.distinct(1))
      ultimately show ?thesis using i(4) by (auto simp: half_stored_def t'_def)
    qed
    then show ?thesis using mem_inv_new_leaf [OF m0 l L i(3,4) n(2)] by blast
  qed
  moreover have "case r of Inl e \<Rightarrow> e = OperationFailed PMEM_ALLOCATION_ERROR \<and> art_map_on D t key = None
      | Inr i \<Rightarrow> leaf n (rev key) = Some i"
    using post k by (auto simp: alloc_post_def art_map_on_def abs_mem_def live_leaf split: sum.splits if_splits)
  moreover have "pm t' = m" "rootNode t' = n" "keySize t' = 8" using ks by (simp_all add: t'_def)
  ultimately show ?thesis using res n(1) unfolding t'_def [symmetric] changed_def art_inv_on_def art_map_on_def
    by (intro exI [of _ r] exI [of _ n] exI [of _ m]) (auto simp: t'_def [symmetric] fun_eq_iff art_map_on_def)
qed

lemma AllocValueForKey_on:
  assumes inv: "art_inv_on D t" and len: "length key = 8" and fr: "fresh_reserve rsv" and k: "key \<notin> D"
  shows "\<exists>r t'. AllocValueForKey rsv key sz t = (r, t') \<and> changed D key t t' (art_map_on D t key) \<and>
     (case r of Inl e \<Rightarrow> e = OperationFailed PMEM_ALLOCATION_ERROR \<and> (half_stored D t' key \<longrightarrow> half_stored D t key)
      | Inr b \<Rightarrow> art_map_on D t key = None \<and> reserved_at t' key b (replicate sz 0))"
proof -
  obtain r n m where f: "findValueAlloc LEAF_DEPTH rsv (keySize t) key (rootNode t) (pm t) = (r, n, m)"
    "changed D key t (t\<lparr>rootNode := n, pm := m\<rparr>) (art_map_on D t key)" "half_stored D (t\<lparr>rootNode := n, pm := m\<rparr>) key = half_stored D t key"
    "case r of Inl e \<Rightarrow> e = OperationFailed PMEM_ALLOCATION_ERROR \<and> art_map_on D t key = None | Inr i \<Rightarrow> leaf n (rev key) = Some i"
    using find_alloc_on [OF assms] by blast
  let ?t = "t\<lparr>rootNode := n, pm := m\<rparr>"
  have inv': "art_inv_on D ?t" "art_map_on D ?t key = art_map_on D t key" using f(2) by (auto simp: changed_def)
  show ?thesis
  proof (cases r)
    case (Inl e)
    then show ?thesis using f by (auto simp: AllocValueForKey_def)
  next
    case (Inr i)
    then have i: "live D ?t (rev key) = Some i" using f(4) k by (simp add: live_leaf)
    obtain w where w: "wrappers (pm ?t) i = Some w" "wrapper_ok (pm ?t) w" using inv'(1) i by (rule art_leaf_wrapper)
    show ?thesis
    proof (cases "location w = EMPTY")
      case False
      then have "AllocValueForKey rsv key sz t = (Inl (OperationFailed PMEM_ALLOCATION_ERROR), ?t)"
        using f(1) Inr w by (simp add: AllocValueForKey_def)
      then show ?thesis using f(2,3) by simp
    next
      case True
      have "art_map_on D ?t key = None" using True i w by (simp add: art_map_on_def abs_mem_def entry_of_def)
      then have none: "art_map_on D t key = None" using inv'(2) by simp
      show ?thesis
      proof (cases "rsv m ALLOC_CLASS_VALUE sz")
        case None
        let ?w = "w\<lparr>locationPtr := None, actionValue := None\<rparr>"
        have "changed D key ?t (set_wrapper i ?w ?t) (entry_of (pm (set_wrapper i ?w ?t)) ?w) \<and>
            (half_stored D (set_wrapper i ?w ?t) key \<longleftrightarrow> location ?w = EMPTY \<and> actionValue ?w \<noteq> None)"
          by (rule art_update [OF inv'(1) i w(1), where F = "{}"]) (use True in \<open>auto simp: set_wrapper_def wrapper_ok_def owned_def\<close>)
        moreover have "entry_of (pm (set_wrapper i ?w ?t)) ?w = None" using True by (simp add: entry_of_def)
        moreover have "AllocValueForKey rsv key sz t = (Inl (OperationFailed PMEM_ALLOCATION_ERROR), set_wrapper i ?w ?t)"
          using f(1) Inr w True None by (simp add: AllocValueForKey_def)
        ultimately show ?thesis using changed_trans [OF f(2)] none by auto
      next
        case (Some b)
        let ?w = "w\<lparr>locationPtr := Some b, actionValue := Some b, vsize := sz\<rparr>"
        let ?t' = "set_wrapper i ?w (?t\<lparr>pm := m\<lparr>blocks := (blocks m)(b \<mapsto> Value (replicate sz 0))\<rparr>\<rparr>)"
        have b: "blocks m b = None" using fr Some by (simp add: fresh_reserve_def)
        have "changed D key ?t ?t' (entry_of (pm ?t') ?w) \<and> (half_stored D ?t' key \<longleftrightarrow> location ?w = EMPTY \<and> actionValue ?w \<noteq> None)"
          by (rule art_update [OF inv'(1) i w(1), where F = "{b}"]) (use True b in \<open>auto simp: set_wrapper_def wrapper_ok_def owned_def\<close>)
        moreover have "entry_of (pm ?t') ?w = None" using True by (simp add: entry_of_def)
        moreover have "reserved_at ?t' key b (replicate sz 0)" using i True k by (auto simp: reserved_at_def set_wrapper_def live_leaf)
        moreover have "AllocValueForKey rsv key sz t = (Inr b, ?t')"
          using f(1) Inr w True Some by (simp add: AllocValueForKey_def Let_def)
        ultimately show ?thesis using changed_trans [OF f(2)] none by auto
      qed
    qed
  qed
qed

text \<open>The wrapper of a key that has an entry.\<close>

lemma entry_wrapper:
  assumes inv: "art_inv_on D t" and k: "key \<notin> D" and e: "art_map_on D t key = Some e"
  shows "\<exists>i w b. leaf (rootNode t) (rev key) = Some i \<and> live D t (rev key) = Some i \<and> wrappers (pm t) i = Some w \<and> locationPtr w = Some b \<and>
    (case e of
       PmemVal v \<Rightarrow> location w = PMEM \<and> locationVolatile w \<noteq> EMPTY \<and> actionValue w = Some b \<and> blocks (pm t) b = Some (Value v) \<and> length v = vsize w
     | DiskVal d n \<Rightarrow> location w = DISK \<and> actionValue w = None \<and> blocks (pm t) b = Some (Iov d) \<and> n = vsize w)"
proof -
  obtain i where i: "live D t (rev key) = Some i" using e by (cases "live D t (rev key)") (auto simp: art_map_on_def abs_mem_def)
  obtain w where w: "wrappers (pm t) i = Some w" "wrapper_ok (pm t) w" using inv i by (rule art_leaf_wrapper)
  have x: "entry_of (pm t) w = Some e" using e i w(1) by (simp add: art_map_on_def abs_mem_def)
  then obtain b where b: "locationPtr w = Some b" by (cases "locationPtr w") (auto simp: entry_of_def split: if_splits)
  show ?thesis
    by (rule exI [of _ i], rule exI [of _ w], rule exI [of _ b])
      (use i k x w b in \<open>auto simp: live_leaf entry_of_def wrapper_ok_def split: LOCATIONS.splits if_splits\<close>)
qed

lemma pmem_wrapper:
  assumes "art_inv_on D t" "key \<notin> D" "art_map_on D t key = Some (PmemVal v)"
  obtains i w b where "leaf (rootNode t) (rev key) = Some i" "live D t (rev key) = Some i" "wrappers (pm t) i = Some w" "locationPtr w = Some b"
    "location w = PMEM" "locationVolatile w \<noteq> EMPTY" "actionValue w = Some b" "blocks (pm t) b = Some (Value v)" "length v = vsize w"
  using entry_wrapper [OF assms] by auto

lemma disk_wrapper:
  assumes "art_inv_on D t" "key \<notin> D" "art_map_on D t key = Some (DiskVal d n)"
  obtains i w b where "leaf (rootNode t) (rev key) = Some i" "live D t (rev key) = Some i" "wrappers (pm t) i = Some w" "locationPtr w = Some b"
    "location w = DISK" "actionValue w = None" "blocks (pm t) b = Some (Iov d)" "n = vsize w"
  using entry_wrapper [OF assms] by auto

lemma missing_wrapper:
  assumes inv: "art_inv_on D t" and k: "key \<notin> D" and e: "art_map_on D t key = None" and i: "leaf (rootNode t) (rev key) = Some i"
  obtains w where "live D t (rev key) = Some i" "wrappers (pm t) i = Some w" "location w = EMPTY"
proof -
  have l: "live D t (rev key) = Some i" using i k by (simp add: live_leaf)
  obtain w where w: "wrappers (pm t) i = Some w" "wrapper_ok (pm t) w" using inv l by (rule art_leaf_wrapper)
  show thesis by (rule that [OF l w(1)]) (use e l w in \<open>cases "location w"; auto simp: art_map_on_def abs_mem_def entry_of_def wrapper_ok_def\<close>)
qed

text \<open>Moving a value to disk replaces its entry, whichever block the reservation returns.\<close>

lemma offload_on:
  assumes inv: "art_inv_on D t" and len: "length key = 8" and fr: "fresh_reserve rsv" and k: "key \<notin> D" and v: "art_map_on D t key = Some (PmemVal v)"
  shows "AllocateAndUpdateValueWrapper rsv key sz d t = (Inl Undefined, t) \<or>
     (\<exists>t'. AllocateAndUpdateValueWrapper rsv key sz d t = (Inr (), t') \<and> changed D key t t' (Some (DiskVal d (length v))) \<and> \<not> half_stored D t' key)"
proof -
  obtain i w b where w: "leaf (rootNode t) (rev key) = Some i" "live D t (rev key) = Some i" "wrappers (pm t) i = Some w" "locationPtr w = Some b"
     "location w = PMEM" "locationVolatile w \<noteq> EMPTY" "actionValue w = Some b" "blocks (pm t) b = Some (Value v)" "length v = vsize w"
    by (rule pmem_wrapper [OF inv k v])
  let ?m = "(pm t)\<lparr>blocks := (blocks (pm t))(b := None)\<rparr>"
  show ?thesis
  proof (cases "rsv ?m ALLOC_CLASS_VALUE sz")
    case None
    then show ?thesis using w by (simp add: AllocateAndUpdateValueWrapper_def find_on [OF inv len] Let_def)
  next
    case (Some c)
    have "blocks ?m c = None" using fr Some unfolding fresh_reserve_def by blast
    then have c: "c = b \<or> blocks (pm t) c = None" by (simp split: if_splits)
    let ?w = "w\<lparr>locationPtr := Some c, location := DISK, actionValue := None\<rparr>"
    let ?t = "set_wrapper i ?w (t\<lparr>pm := ?m\<lparr>blocks := (blocks ?m)(c \<mapsto> Iov d)\<rparr>\<rparr>)"
    have "changed D key t ?t (entry_of (pm ?t) ?w) \<and> (half_stored D ?t key \<longleftrightarrow> location ?w = EMPTY \<and> actionValue ?w \<noteq> None)"
      by (rule art_update [OF inv w(2,3), where F = "{c}"]) (use w c in \<open>auto simp: set_wrapper_def wrapper_ok_def owned_def\<close>)
    moreover have "entry_of (pm ?t) ?w = Some (DiskVal d (length v))" using w(9) by (simp add: entry_of_def set_wrapper_def)
    moreover have "AllocateAndUpdateValueWrapper rsv key sz d t = (Inr (), ?t)"
      using w Some by (simp add: AllocateAndUpdateValueWrapper_def find_on [OF inv len] Let_def)
    ultimately show ?thesis by auto
  qed
qed

lemma offload_missing_on:
  assumes inv: "art_inv_on D t" and len: "length key = 8" and k: "key \<notin> D" and v: "art_map_on D t key = None" and h: "\<not> half_stored D t key"
  shows "AllocateAndUpdateValueWrapper rsv key sz d t = (Inl Undefined, t) \<or>
     AllocateAndUpdateValueWrapper rsv key sz d t = (Inl (OperationFailed PMEM_ALLOCATION_ERROR), t)"
proof (cases "leaf (rootNode t) (rev key)")
  case None
  then show ?thesis by (simp add: AllocateAndUpdateValueWrapper_def find_on [OF inv len])
next
  case (Some i)
  then obtain w where "live D t (rev key) = Some i" "wrappers (pm t) i = Some w" "location w = EMPTY" using missing_wrapper [OF inv k v Some] by blast
  then show ?thesis using h Some by (simp add: AllocateAndUpdateValueWrapper_def find_on [OF inv len] half_stored_def)
qed

lemma offload_disk_on:
  assumes inv: "art_inv_on D t" and len: "length key = 8" and k: "key \<notin> D" and v: "art_map_on D t key = Some (DiskVal d' n)"
  shows "AllocateAndUpdateValueWrapper rsv key sz d t = (Inl Undefined, t)"
proof -
  obtain i w b where w: "leaf (rootNode t) (rev key) = Some i" "live D t (rev key) = Some i" "wrappers (pm t) i = Some w" "locationPtr w = Some b"
     "location w = DISK" "actionValue w = None" "blocks (pm t) b = Some (Iov d')" "n = vsize w"
    by (rule disk_wrapper [OF inv k v])
  then show ?thesis by (simp add: AllocateAndUpdateValueWrapper_def find_on [OF inv len])
qed

lemma remove_disk_on:
  assumes inv: "art_inv_on D t" and len: "length key = 8" and k: "key \<notin> D" and v: "art_map_on D t key = Some (DiskVal d n)"
  shows "\<exists>t'. ART_Remove key t = (Inr (), t') \<and> changed D key t t' None \<and> \<not> half_stored D t' key"
proof -
  obtain i w b where w: "leaf (rootNode t) (rev key) = Some i" "live D t (rev key) = Some i" "wrappers (pm t) i = Some w" "locationPtr w = Some b"
     "location w = DISK" "actionValue w = None" "blocks (pm t) b = Some (Iov d)" "n = vsize w"
    by (rule disk_wrapper [OF inv k v])
  let ?w = "w\<lparr>location := EMPTY\<rparr>" let ?t = "set_wrapper i ?w t"
  have "changed D key t ?t (entry_of (pm ?t) ?w) \<and> (half_stored D ?t key \<longleftrightarrow> location ?w = EMPTY \<and> actionValue ?w \<noteq> None)"
    by (rule art_update [OF inv w(2,3), where F = "{}"]) (use w in \<open>auto simp: set_wrapper_def wrapper_ok_def owned_def\<close>)
  moreover have "entry_of (pm ?t) ?w = None" by (simp add: entry_of_def)
  moreover have "ART_Remove key t = (Inr (), ?t)"
    using w by (simp add: ART_Remove_def find_on [OF inv len] isLocationReservedNotPublished_def)
  ultimately show ?thesis using w(6) by auto
qed

lemma remove_missing_on:
  assumes inv: "art_inv_on D t" and len: "length key = 8" and k: "key \<notin> D" and v: "art_map_on D t key = None"
  shows "ART_Remove key t = (Inl (OperationFailed KEY_NOT_FOUND), t)"
proof (cases "leaf (rootNode t) (rev key)")
  case None
  then show ?thesis by (simp add: ART_Remove_def find_on [OF inv len])
next
  case (Some i)
  then obtain w where "wrappers (pm t) i = Some w" "location w = EMPTY" using missing_wrapper [OF inv k v Some] by blast
  then show ?thesis using Some by (simp add: ART_Remove_def find_on [OF inv len])
qed

lemma mem_inv_drop:
  assumes inv: "mem_inv L m" and p: "L p = Some i" "wrappers m i = Some w"
    and m': "wrappers m' = (wrappers m)(i := None)" "\<And>b. b \<notin> owned w \<Longrightarrow> blocks m' b = blocks m b"
  shows "mem_inv (L(p := None)) m'" "abs_mem (L(p := None)) m' = (abs_mem L m)(p := None)"
proof -
  have other: "j \<noteq> i \<and> (\<exists>v. wrappers m j = Some v \<and> wrapper_ok m v \<and> (\<forall>b \<in> owned v. blocks m' b = blocks m b))" if "L q = Some j" "q \<noteq> p" for q j
  proof -
    have ji: "j \<noteq> i" using inv p(1) that unfolding mem_inv_def by blast
    obtain v where v: "wrappers m j = Some v" "wrapper_ok m v" using inv \<open>L q = Some j\<close> unfolding mem_inv_def by blast
    have "owned v \<inter> owned w = {}" using inv \<open>L q = Some j\<close> p v(1) ji unfolding mem_inv_def by blast
    then show ?thesis using ji v m'(2) by blast
  qed
  show "mem_inv (L(p := None)) m'" unfolding mem_inv_def
  proof (intro conjI allI impI, goal_cases)
    case (1 q r j)
    then show ?case using inv unfolding mem_inv_def by (auto split: if_splits)
  next
    case (2 q j)
    then show ?case using other [of q j] m'(1) wrapper_ok_cong by (fastforce split: if_splits)
  next
    case (3 q r j k u v)
    then have "L q = Some j" "L r = Some k" "wrappers m j = Some u" "wrappers m k = Some v"
      using m'(1) by (auto split: if_splits)
    then show ?case using inv 3(5) unfolding mem_inv_def by blast
  qed
  show "abs_mem (L(p := None)) m' = (abs_mem L m)(p := None)"
  proof
    fix q
    show "abs_mem (L(p := None)) m' q = ((abs_mem L m)(p := None)) q"
    proof (cases "L q")
      case (Some j)
      then show ?thesis using other [OF Some] m'(1) by (cases "q = p") (auto simp: abs_mem_def intro!: entry_of_cong)
    qed (simp add: abs_mem_def)
  qed
qed

text \<open>The removal of a value in persistent memory ends the use of the key.\<close>

lemma remove_pmem_on:
  assumes inv: "art_inv_on D t" and len: "length key = 8" and k: "key \<notin> D" and v: "art_map_on D t key = Some (PmemVal v)"
  shows "\<exists>t'. ART_Remove key t = (Inr (), t') \<and> art_inv_on (insert key D) t' \<and> art_map_on (insert key D) t' = (art_map_on D t)(key := None) \<and>
     (\<forall>q. half_stored (insert key D) t' q \<longrightarrow> half_stored D t q)"
proof -
  obtain i w b where w: "leaf (rootNode t) (rev key) = Some i" "live D t (rev key) = Some i" "wrappers (pm t) i = Some w" "locationPtr w = Some b"
     "location w = PMEM" "locationVolatile w \<noteq> EMPTY" "actionValue w = Some b" "blocks (pm t) b = Some (Value v)" "length v = vsize w"
    by (rule pmem_wrapper [OF inv k v])
  let ?w = "w\<lparr>location := EMPTY\<rparr>" let ?t = "free_wrapper i ?w (cancel_block b (set_wrapper i ?w t))"
  have r: "ART_Remove key t = (Inr (), ?t)"
    using w by (simp add: ART_Remove_def find_on [OF inv len] isLocationReservedNotPublished_def Let_def)
  have t': "rootNode ?t = rootNode t" "keySize ?t = keySize t" "wrappers (pm ?t) = (wrappers (pm t))(i := None)"
    "blocks (pm ?t) = (blocks (pm t))(b := None)" by (simp_all add: free_wrapper_def cancel_block_def set_wrapper_def)
  have L: "live (insert key D) ?t = (live D t)(rev key := None)" by (auto simp: live_def fun_eq_iff t'(1))
  have m: "mem_inv (live D t) (pm t)" using inv by (simp add: art_inv_on_def)
  have d: "mem_inv ((live D t)(rev key := None)) (pm ?t)" "abs_mem ((live D t)(rev key := None)) (pm ?t) = (abs_mem (live D t) (pm t))(rev key := None)"
    using mem_inv_drop [OF m w(2,3) t'(3)] w(4,5) by (simp_all add: t'(4) owned_def)
  have "art_inv_on (insert key D) ?t" using inv d(1) t'(1,2) by (simp add: art_inv_on_def L)
  moreover have "art_map_on (insert key D) ?t = (art_map_on D t)(key := None)" by (rule ext) (simp add: art_map_on_def L d(2))
  moreover have "half_stored D t q" if "half_stored (insert key D) ?t q" for q
    using that by (auto simp: half_stored_def L t'(3) split: if_splits)
  ultimately show ?thesis using r by blast
qed

text \<open>The same with all keys in use.\<close>

lemma find_in_tree:
  "art_inv t \<Longrightarrow> length key = 8 \<Longrightarrow> findValueInNode (rootNode t) (keySize t) key = Inr (leaf (rootNode t) (rev key))"
  by (simp add: art_inv_live find_on)

lemma ART_Put_spec:
  assumes "art_inv t" "length key = 8" "reserved_at t key b v"
  shows "\<exists>t'. ART_Put key t = (Inr (), t') \<and> art_inv t' \<and> art_map t' = (art_map t)(key \<mapsto> PmemVal v)"
  using ART_Put_on [of "{}" t key b v] assms changed_empty by (fastforce simp: art_inv_live(1))

lemma write_block_spec:
  assumes "art_inv t" "reserved_at t key b u" "length v = length u"
  shows "art_inv (write_block b v t) \<and> art_map (write_block b v t) = art_map t \<and> reserved_at (write_block b v t) key b v"
  using write_block_on [of "{}" t key b u v] assms changed_empty [of key t "write_block b v t" None] by (auto simp: art_inv_live fun_upd_idem)

lemma ART_Get_spec:
  assumes "art_inv t" "length key = 8"
  shows "case art_map t key of
       None \<Rightarrow> ART_Get key t = Inl (OperationFailed KEY_NOT_FOUND)
     | Some (PmemVal v) \<Rightarrow> \<exists>b. ART_Get key t = Inr (Some b, length v, PMEM) \<and> blocks (pm t) b = Some (Value v)
     | Some (DiskVal d n) \<Rightarrow> \<exists>b. ART_Get key t = Inr (Some b, n, DISK) \<and> blocks (pm t) b = Some (Iov d)"
  using ART_Get_on [of "{}" t key] assms by (simp add: art_inv_live)

lemma AllocValueForKey_spec:
  assumes "art_inv t" "length key = 8" "fresh_reserve rsv"
  shows "\<exists>r t'. AllocValueForKey rsv key sz t = (r, t') \<and> art_inv t' \<and> art_map t' = art_map t \<and>
     (case r of Inl e \<Rightarrow> e = OperationFailed PMEM_ALLOCATION_ERROR
      | Inr b \<Rightarrow> art_map t key = None \<and> reserved_at t' key b (replicate sz 0))"
proof -
  obtain r t' where a: "AllocValueForKey rsv key sz t = (r, t')" "changed {} key t t' (art_map t key)"
     "case r of Inl e \<Rightarrow> e = OperationFailed PMEM_ALLOCATION_ERROR \<and> (half_stored {} t' key \<longrightarrow> half_stored {} t key)
      | Inr b \<Rightarrow> art_map t key = None \<and> reserved_at t' key b (replicate sz 0)"
    using AllocValueForKey_on [of "{}" t key rsv sz] assms unfolding art_inv_live by auto
  then show ?thesis using changed_empty [OF a(2)] by (auto split: sum.splits)
qed

lemma offload_spec:
  assumes "art_inv t" "length key = 8" "fresh_reserve rsv" "art_map t key = Some (PmemVal v)"
  shows "AllocateAndUpdateValueWrapper rsv key sz d t = (Inl Undefined, t) \<or>
     (\<exists>t'. AllocateAndUpdateValueWrapper rsv key sz d t = (Inr (), t') \<and> art_inv t' \<and>
        art_map t' = (art_map t)(key \<mapsto> DiskVal d (length v)))"
  using offload_on [of "{}" t key rsv v sz d] assms changed_empty by (fastforce simp: art_inv_live(1) simp flip: art_inv_live(2))

lemma offload_succeeds:
  assumes inv: "art_inv t" and len: "length key = 8" and v: "art_map t key = Some (PmemVal v)"
    and room: "\<And>b. blocks (pm t) b = Some (Value v) \<Longrightarrow> rsv ((pm t)\<lparr>blocks := (blocks (pm t))(b := None)\<rparr>) ALLOC_CLASS_VALUE sz \<noteq> None"
  shows "fst (AllocateAndUpdateValueWrapper rsv key sz d t) = Inr ()"
proof -
  obtain i w b where w: "leaf (rootNode t) (rev key) = Some i" "wrappers (pm t) i = Some w" "actionValue w = Some b" "blocks (pm t) b = Some (Value v)"
    using pmem_wrapper [of "{}" t key v] inv v unfolding art_inv_live by blast
  then show ?thesis using room [OF w(4)]
    by (auto simp: AllocateAndUpdateValueWrapper_def find_in_tree [OF inv len] Let_def)
qed

section \<open>Storing a value\<close>

text \<open>The steps of a store: reserve, copy, publish.\<close>

definition art_store :: "reserve_fn \<Rightarrow> u8 list \<Rightarrow> bytes \<Rightarrow> ARTree \<Rightarrow> (exn + unit) \<times> ARTree" where
  "art_store rsv key v t =
     (case AllocValueForKey rsv key (length v) t of
        (Inl e, t) \<Rightarrow> (Inl e, t)
      | (Inr b, t) \<Rightarrow> ART_Put key (write_block b v t))"

lemma art_store_on:
  assumes inv: "art_inv_on D t" and len: "length key = 8" and fr: "fresh_reserve rsv" and k: "key \<notin> D"
  shows "\<exists>r t'. art_store rsv key v t = (r, t') \<and>
     (case r of Inl e \<Rightarrow> e = OperationFailed PMEM_ALLOCATION_ERROR \<and> changed D key t t' (art_map_on D t key) \<and> (half_stored D t' key \<longrightarrow> half_stored D t key)
      | Inr u \<Rightarrow> art_map_on D t key = None \<and> changed D key t t' (Some (PmemVal v)) \<and> \<not> half_stored D t' key)"
proof -
  obtain r t1 where a: "AllocValueForKey rsv key (length v) t = (r, t1)" "changed D key t t1 (art_map_on D t key)"
    "case r of Inl e \<Rightarrow> e = OperationFailed PMEM_ALLOCATION_ERROR \<and> (half_stored D t1 key \<longrightarrow> half_stored D t key)
      | Inr b \<Rightarrow> art_map_on D t key = None \<and> reserved_at t1 key b (replicate (length v) 0)"
    using AllocValueForKey_on [OF assms] by blast
  show ?thesis
  proof (cases r)
    case (Inl e)
    then show ?thesis using a by (simp add: art_store_def)
  next
    case (Inr b)
    have inv1: "art_inv_on D t1" using a(2) by (simp add: changed_def)
    have w: "changed D key t1 (write_block b v t1) None" "reserved_at (write_block b v t1) key b v"
      using write_block_on [OF inv1, of key b "replicate (length v) 0" v] a(3) Inr k by auto
    obtain t' where t': "ART_Put key (write_block b v t1) = (Inr (), t')" "changed D key (write_block b v t1) t' (Some (PmemVal v))"
      "\<not> half_stored D t' key" using ART_Put_on [OF _ len w(2) k] w(1) by (auto simp: changed_def)
    then show ?thesis using a Inr changed_trans [OF a(2) changed_trans [OF w(1) t'(2)]] by (simp add: art_store_def)
  qed
qed

lemma art_store_spec:
  assumes "art_inv t" "length key = 8" "fresh_reserve rsv"
  shows "\<exists>r t'. art_store rsv key v t = (r, t') \<and> art_inv t' \<and>
     (case r of Inl e \<Rightarrow> e = OperationFailed PMEM_ALLOCATION_ERROR \<and> art_map t' = art_map t
      | Inr u \<Rightarrow> art_map t key = None \<and> art_map t' = (art_map t)(key \<mapsto> PmemVal v))"
proof -
  obtain r t' where a: "art_store rsv key v t = (r, t')"
     "case r of Inl e \<Rightarrow> e = OperationFailed PMEM_ALLOCATION_ERROR \<and> changed {} key t t' (art_map t key) \<and> (half_stored {} t' key \<longrightarrow> half_stored {} t key)
      | Inr u \<Rightarrow> art_map t key = None \<and> changed {} key t t' (Some (PmemVal v)) \<and> \<not> half_stored {} t' key"
    using art_store_on [of "{}" t key rsv v] assms unfolding art_inv_live by auto
  then show ?thesis by (cases r) (auto dest!: changed_empty)
qed

lemma TreeImpl_create_inv:
  assumes "TreeImpl_create rsv m = Inr t" "wrappers m = Map.empty"
  shows "art_inv (snd (SetKeySize k t)) \<and> art_map (snd (SetKeySize k t)) = Map.empty"
proof -
  obtain i where t: "t = \<lparr>rootNode = Node256 0 (\<lambda>_. Some (new_child 1)), initialized = False, keySize = 0, pm = m\<lparr>node_arrays := i\<rparr>\<rparr>"
    using assms(1) by (auto simp: TreeImpl_create_def allocateFullLevels_def PREALLOC_LEVELS_def split: option.splits)
  have wf: "art_wf (Node256 0 (\<lambda>_. Some (new_child 1))) 0" using full_children_wf [of 0] by (simp add: LEAF_DEPTH_8)
  then show ?thesis unfolding t
    by (auto simp: SetKeySize_def art_inv_def LEVEL_TYPE_def mem_inv_def leaf_full_children art_map_def abs_mem_def)
qed

section \<open>Sequences of operations\<close>

datatype art_cmd = Store "u8 list" bytes | Offload "u8 list" nat DeviceAddr | Delete "u8 list"

fun art_exec :: "reserve_fn \<Rightarrow> art_cmd \<Rightarrow> ARTree \<Rightarrow> (exn + unit) \<times> ARTree" where
  "art_exec rsv (Store key v) t = art_store rsv key v t"
| "art_exec rsv (Offload key sz d) t = AllocateAndUpdateValueWrapper rsv key sz d t"
| "art_exec rsv (Delete key) t = ART_Remove key t"

definition cmd_key :: "art_cmd \<Rightarrow> u8 list" where
  "cmd_key c = (case c of Store key v \<Rightarrow> key | Offload key sz d \<Rightarrow> key | Delete key \<Rightarrow> key)"

text \<open>The key whose wrapper a command frees: the key of a removal while its value is in persistent memory.\<close>

definition freed :: "art_cmd \<Rightarrow> ARTree \<Rightarrow> u8 list set" where
  "freed c t = (case c of Delete key \<Rightarrow> (case ART_Get key t of Inr (p, sz, loc) \<Rightarrow> if loc = PMEM then {key} else {} | Inl e \<Rightarrow> {}) | _ \<Rightarrow> {})"

text \<open>A history: commands with their results, and the keys whose wrapper was freed on the way, which are not used again. A move to disk
  that uses a null pointer ends the history.\<close>

inductive art_history :: "reserve_fn \<Rightarrow> ARTree \<Rightarrow> (art_cmd \<times> (exn + unit)) list \<Rightarrow> ARTree \<Rightarrow> u8 list set \<Rightarrow> bool"
  for rsv t0 where
  start: "art_history rsv t0 [] t0 {}"
| step: "art_history rsv t0 h t D \<Longrightarrow> length (cmd_key c) = 8 \<Longrightarrow> cmd_key c \<notin> D \<Longrightarrow> art_exec rsv c t = (r, t') \<Longrightarrow>
    (\<exists>key sz d. c = Offload key sz d) \<longrightarrow> r \<noteq> Inl Undefined \<Longrightarrow> art_history rsv t0 (h @ [(c, r)]) t' (D \<union> freed c t)"

text \<open>The same commands on a map: the results each may have, with the map it leaves.\<close>

fun map_results :: "art_cmd \<Rightarrow> (u8 list \<rightharpoonup> entry) \<Rightarrow> ((exn + unit) \<times> (u8 list \<rightharpoonup> entry)) set" where
  "map_results (Store key v) M =
     (if M key = None then {(Inr (), M(key \<mapsto> PmemVal v))} else {}) \<union> {(Inl (OperationFailed PMEM_ALLOCATION_ERROR), M)}"
| "map_results (Offload key sz d) M =
     (case M key of
        None \<Rightarrow> {(Inl (OperationFailed PMEM_ALLOCATION_ERROR), M)}
      | Some (PmemVal v) \<Rightarrow> {(Inr (), M(key \<mapsto> DiskVal d (length v)))}
      | Some (DiskVal d' n) \<Rightarrow> {})"
| "map_results (Delete key) M =
     (if M key = None then {(Inl (OperationFailed KEY_NOT_FOUND), M)} else {(Inr (), M(key := None))})"

inductive map_history :: "(u8 list \<rightharpoonup> entry) \<Rightarrow> (art_cmd \<times> (exn + unit)) list \<Rightarrow> (u8 list \<rightharpoonup> entry) \<Rightarrow> bool"
  for M0 where
  map_start: "map_history M0 [] M0"
| map_step: "map_history M0 h M \<Longrightarrow> (r, M') \<in> map_results c M \<Longrightarrow> map_history M0 (h @ [(c, r)]) M'"

lemma changed_unused: "changed D key t t' e \<Longrightarrow> \<forall>q. \<not> half_stored D t q \<Longrightarrow> \<not> half_stored D t' key \<Longrightarrow> \<forall>q. \<not> half_stored D t' q"
  unfolding changed_def by metis

lemma delete_spec:
  assumes inv: "art_inv_on D t" and h: "\<forall>q. \<not> half_stored D t q" and len: "length key = 8" and k: "key \<notin> D" and ex: "ART_Remove key t = (r, t')"
  shows "art_inv_on (D \<union> freed (Delete key) t) t' \<and> (\<forall>q. \<not> half_stored (D \<union> freed (Delete key) t) t' q) \<and>
     (r, art_map_on (D \<union> freed (Delete key) t) t') \<in> map_results (Delete key) (art_map_on D t)"
proof (cases "art_map_on D t key")
  case None
  then show ?thesis using remove_missing_on [OF inv len k None] ART_Get_on [OF inv len k] ex inv h by (auto simp: freed_def)
next
  case (Some e)
  show ?thesis
  proof (cases e)
    case (PmemVal v)
    then have "freed (Delete key) t = {key}" using ART_Get_on [OF inv len k] Some by (auto simp: freed_def)
    then show ?thesis using remove_pmem_on [OF inv len k] Some PmemVal ex h by auto
  next
    case (DiskVal d n)
    then have f: "freed (Delete key) t = {}" using ART_Get_on [OF inv len k] Some by (auto simp: freed_def)
    have c: "r = Inr ()" "changed D key t t' None" "\<not> half_stored D t' key"
      using remove_disk_on [OF inv len k] Some DiskVal ex by auto
    then show ?thesis using changed_unused [OF c(2) h c(3)] Some f by (simp add: changed_def)
  qed
qed

lemma art_exec_spec:
  assumes inv: "art_inv_on D t" and h: "\<forall>q. \<not> half_stored D t q" and fr: "fresh_reserve rsv"
    and len: "length (cmd_key c) = 8" and k: "cmd_key c \<notin> D" and ex: "art_exec rsv c t = (r, t')"
    and ud: "(\<exists>key sz d. c = Offload key sz d) \<longrightarrow> r \<noteq> Inl Undefined"
  shows "art_inv_on (D \<union> freed c t) t' \<and> (\<forall>q. \<not> half_stored (D \<union> freed c t) t' q) \<and>
     (r, art_map_on (D \<union> freed c t) t') \<in> map_results c (art_map_on D t)"
proof (cases c)
  case (Store key v)
  then have "\<exists>e. changed D key t t' e \<and> \<not> half_stored D t' key \<and> (r, (art_map_on D t)(key := e)) \<in> map_results c (art_map_on D t)"
    using art_store_on [OF inv _ fr, of key v] len k ex h by (cases r) (auto simp: cmd_key_def)
  then obtain e where e: "changed D key t t' e" "\<not> half_stored D t' key" "(r, (art_map_on D t)(key := e)) \<in> map_results c (art_map_on D t)" by blast
  show ?thesis using changed_unused [OF e(1) h e(2)] e(1,3) Store by (simp add: freed_def changed_def)
next
  case (Offload key sz d)
  then have o: "length key = 8" "key \<notin> D" "r \<noteq> Inl Undefined" "AllocateAndUpdateValueWrapper rsv key sz d t = (r, t')" using len k ud ex by (auto simp: cmd_key_def)
  have f: "freed c t = {}" using Offload by (simp add: freed_def)
  consider (none) "art_map_on D t key = None" | (pmem) v where "art_map_on D t key = Some (PmemVal v)"
    | (disk) d' n where "art_map_on D t key = Some (DiskVal d' n)" by (metis entry.exhaust option.exhaust)
  then show ?thesis
  proof cases
    case none
    then show ?thesis using offload_missing_on [OF inv o(1,2) none, of rsv sz d] h o(3,4) inv Offload f by auto
  next
    case pmem
    then have c: "r = Inr ()" "changed D key t t' (Some (DiskVal d (length v)))" "\<not> half_stored D t' key"
      using offload_on [OF inv o(1) fr o(2) pmem, of sz d] o(3,4) by auto
    show ?thesis using changed_unused [OF c(2) h c(3)] c(1,2) pmem Offload f by (simp add: changed_def)
  next
    case disk
    then show ?thesis using offload_disk_on [OF inv o(1,2) disk, of rsv sz d] o(3,4) by simp
  qed
next
  case (Delete key)
  then show ?thesis using delete_spec [OF inv h, of key r t'] len k ex by (simp add: cmd_key_def)
qed

lemma art_history_refines:
  assumes "art_history rsv t0 h t D" "art_inv t0" "\<forall>q. \<not> half_stored {} t0 q" "fresh_reserve rsv"
  shows "art_inv_on D t \<and> (\<forall>q. \<not> half_stored D t q) \<and> map_history (art_map t0) h (art_map_on D t)"
  using assms
proof (induction rule: art_history.induct)
  case start
  then show ?case by (simp add: art_inv_live map_history.map_start)
next
  case (step h t D c r t')
  then show ?case using art_exec_spec [of D t rsv c r t'] map_history.map_step [of "art_map t0" h "art_map_on D t" r _ c] by auto
qed

text \<open>A block with an address on disk is never written or freed again, which is why copies of the address will do.\<close>

lemma art_exec_keeps_addresses:
  assumes inv: "art_inv_on D t" and fr: "fresh_reserve rsv" and len: "length (cmd_key c) = 8" and k: "cmd_key c \<notin> D"
    and b: "blocks (pm t) b = Some (Iov d)"
  shows "blocks (pm (snd (art_exec rsv c t))) b = Some (Iov d)"
proof (cases c)
  case (Store key v)
  obtain r t1 where a: "AllocValueForKey rsv key (length v) t = (r, t1)" by fastforce
  obtain r0 n m where f: "findValueAlloc LEAF_DEPTH rsv (keySize t) key (rootNode t) (pm t) = (r0, n, m)" using prod_cases3 by blast
  have "alloc_post (rev key) (rootNode t) (pm t) (r0, n, m)"
    using find_alloc_spec [OF fr, of key "rootNode t" 0 8 "pm t"] inv len Store f by (simp add: art_inv_on_def LEAF_DEPTH_8 cmd_key_def)
  then have m: "blocks m = blocks (pm t)" by (simp add: alloc_post_def)
  have "rsv m ALLOC_CLASS_VALUE (length v) = Some c \<Longrightarrow> c \<noteq> b" for c
    using fr b m unfolding fresh_reserve_def by (metis option.distinct(1))
  then have t1: "blocks (pm t1) b = Some (Iov d) \<and> (\<forall>c. r = Inr c \<longrightarrow> c \<noteq> b)"
    using a f m b by (auto simp: AllocValueForKey_def set_wrapper_def Let_def split: sum.splits option.splits if_splits)
  have "blocks (pm (snd (ART_Put key t2))) b = blocks (pm t2) b" for t2
    by (auto simp: ART_Put_def set_wrapper_def Let_def split: sum.splits option.splits)
  then show ?thesis using Store a t1 by (cases r) (auto simp: art_store_def write_block_def)
next
  case (Offload key sz dd)
  have i: "actionValue w \<noteq> Some b" if "leaf (rootNode t) (rev key) = Some i" "wrappers (pm t) i = Some w" for i w
    using that art_leaf_wrapper [OF inv, of "rev key" i] k Offload b
    by (fastforce simp: live_leaf cmd_key_def wrapper_ok_def split: LOCATIONS.splits)
  have "rsv m ALLOC_CLASS_VALUE sz \<noteq> Some b" if "blocks m b = Some (Iov d)" for m
    using fr that unfolding fresh_reserve_def by (metis option.distinct(1))
  then show ?thesis using Offload i b find_on [OF inv, of key] len
    by (fastforce simp: AllocateAndUpdateValueWrapper_def set_wrapper_def Let_def cmd_key_def split: option.splits)
next
  case (Delete key)
  have i: "actionValue w \<noteq> Some b" if "leaf (rootNode t) (rev key) = Some i" "wrappers (pm t) i = Some w" for i w
    using that art_leaf_wrapper [OF inv, of "rev key" i] k Delete b
    by (fastforce simp: live_leaf cmd_key_def wrapper_ok_def split: LOCATIONS.splits)
  then show ?thesis using Delete b find_on [OF inv, of key] len
    by (auto simp: ART_Remove_def set_wrapper_def free_wrapper_def cancel_block_def Let_def cmd_key_def split: option.splits)
qed

section \<open>Opening a file\<close>

text \<open>After a restart, the keys of values on disk are found again, and no others.\<close>

lemma reopen_Get:
  assumes inv: "art_inv_on D t" and len: "length key = 8" and k: "key \<notin> D" and t': "rootNode t' = rootNode t" "keySize t' = 8" "pm t' = reopen (pm t)"
  shows "case art_map_on D t key of
       Some (DiskVal d n) \<Rightarrow> \<exists>b. ART_Get key t' = Inr (Some b, n, DISK) \<and> blocks (pm t') b = Some (Iov d)
     | _ \<Rightarrow> ART_Get key t' = Inl (OperationFailed KEY_NOT_FOUND)"
proof -
  have f: "findValueInNode (rootNode t') (keySize t') key = Inr (leaf (rootNode t) (rev key))"
    using find_on [OF inv len] inv t'(1,2) by (simp add: art_inv_on_def)
  show ?thesis
  proof (cases "art_map_on D t key")
    case None
    show ?thesis
    proof (cases "leaf (rootNode t) (rev key)")
      case (Some i)
      then obtain w where "wrappers (pm t) i = Some w" "location w = EMPTY" using missing_wrapper [OF inv k None Some] by blast
      then show ?thesis using None Some f by (simp add: ART_Get_def t'(3) reopen_def)
    qed (use None f in \<open>simp add: ART_Get_def\<close>)
  next
    case (Some e)
    obtain i w b where w: "leaf (rootNode t) (rev key) = Some i" "wrappers (pm t) i = Some w" "locationPtr w = Some b"
      "case e of PmemVal v \<Rightarrow> location w = PMEM \<and> locationVolatile w \<noteq> EMPTY \<and> actionValue w = Some b \<and> blocks (pm t) b = Some (Value v) \<and> length v = vsize w
       | DiskVal d n \<Rightarrow> location w = DISK \<and> actionValue w = None \<and> blocks (pm t) b = Some (Iov d) \<and> n = vsize w"
      using entry_wrapper [OF inv k Some] by blast
    then show ?thesis using Some f by (cases e) (simp_all add: ART_Get_def t'(3) reopen_def)
  qed
qed

section \<open>Properties\<close>

text \<open>A reservation function and a tree for the closed examples: the first unused of three objects,
  and an empty tree.\<close>

definition small_reserve :: reserve_fn where
  "small_reserve m c sz =
     (if wrappers m 0 = None \<and> blocks m 0 = None then Some 0
      else if wrappers m 1 = None \<and> blocks m 1 = None then Some 1
      else if wrappers m 2 = None \<and> blocks m 2 = None then Some 2 else None)"

definition empty_mem :: art_mem where
  "empty_mem = \<lparr>wrappers = Map.empty, blocks = Map.empty, node_arrays = 0, residue = (\<lambda>i. (0, EMPTY))\<rparr>"

definition empty_tree :: ARTree where
  "empty_tree = \<lparr>rootNode = Node256 0 (\<lambda>_. Some (new_child 1)), initialized = False, keySize = 8, pm = empty_mem\<lparr>node_arrays := 2\<rparr>\<rparr>"

lemma small_reserve_fresh: "fresh_reserve small_reserve"
  by (auto simp: fresh_reserve_def small_reserve_def split: if_splits)

lemma empty_tree_created: "map_sum id (\<lambda>t. snd (SetKeySize 16 t)) (TreeImpl_create small_reserve empty_mem) = Inr empty_tree"
  by (simp add: TreeImpl_create_def allocateFullLevels_def PREALLOC_LEVELS_def small_reserve_def empty_mem_def
      SetKeySize_def LEVEL_TYPE_def empty_tree_def)

lemma empty_tree_inv: "art_inv empty_tree" "art_map empty_tree = Map.empty"
proof -
  obtain t where t: "TreeImpl_create small_reserve empty_mem = Inr t" "snd (SetKeySize 16 t) = empty_tree"
    using empty_tree_created by (cases "TreeImpl_create small_reserve empty_mem") auto
  then show "art_inv empty_tree" "art_map empty_tree = Map.empty"
    using TreeImpl_create_inv [OF t(1), of 16] by (auto simp: empty_mem_def)
qed

definition key1 :: "u8 list" where
  "key1 = [1, 2, 3, 4, 5, 6, 7, 8]"

lemma alloc_key1:
  "\<exists>t1. AllocValueForKey small_reserve key1 n empty_tree = (Inr 1, t1) \<and> wrappers (pm t1) 1 = None \<and> dom (blocks (pm t1)) \<subseteq> {1}"
  by (simp add: AllocValueForKey_def empty_tree_def key1_def LEAF_DEPTH_8 numeral_eq_Suc fresh_wrapper_def
      allocateFullLevels_def new_child_def LEVEL_TYPE_def child_class_def small_reserve_def empty_mem_def Let_def set_wrapper_def)

lemma store_key1_any:
  "\<exists>t. art_store small_reserve key1 v empty_tree = (Inr (), t) \<and> wrappers (pm t) 1 = None \<and> dom (blocks (pm t)) \<subseteq> {1}"
proof -
  obtain t1 where a: "AllocValueForKey small_reserve key1 (length v) empty_tree = (Inr 1, t1)" "wrappers (pm t1) 1 = None" "dom (blocks (pm t1)) \<subseteq> {1}"
    using alloc_key1 by blast
  have len: "length key1 = 8" by (simp add: key1_def)
  have r: "art_inv t1" "reserved_at t1 key1 1 (replicate (length v) 0)"
    using AllocValueForKey_spec [OF empty_tree_inv(1) len small_reserve_fresh, of "length v"] a by auto
  have "art_inv (write_block 1 v t1)" "reserved_at (write_block 1 v t1) key1 1 v"
    using write_block_spec [OF r, of v] by auto
  then obtain t' where t': "ART_Put key1 (write_block 1 v t1) = (Inr (), t')" using ART_Put_spec [OF _ len] by blast
  then have "wrappers (pm t') 1 = None" "dom (blocks (pm t')) \<subseteq> {1}"
    using a(2,3) by (auto 0 3 simp: ART_Put_def write_block_def set_wrapper_def Let_def dom_def split: sum.splits option.splits if_splits)
  then show ?thesis using a t' by (simp add: art_store_def)
qed

lemmas store_key1 = store_key1_any [of "[9, 9]"]


text \<open>An empty tree has no reservations.\<close>

lemma empty_tree_unused: "\<not> half_stored D empty_tree q"
  by (simp add: half_stored_def empty_tree_def empty_mem_def)


text \<open>C8. An operation on one key leaves every other key alone: after a store, whether it succeeds
  or runs out of memory halfway down the tree, and however much of the tree it had to build,
  every other key has the entry it had, and a key that already has a value is refused.\<close>

theorem art_store_isolates_keys:
  assumes "art_inv t" "length key = 8" "fresh_reserve rsv" "art_store rsv key v t = (r, t')"
  shows "art_inv t' \<and> (\<forall>k. k \<noteq> key \<longrightarrow> art_map t' k = art_map t k) \<and>
     (art_map t key \<noteq> None \<longrightarrow> r = Inl (OperationFailed PMEM_ALLOCATION_ERROR) \<and> art_map t' key = art_map t key)"
  using art_store_spec [OF assms(1-3), of v] assms(4) by (auto split: sum.splits)

theorem art_store_isolates_keys_witness:
  "\<exists>t1 t2. art_store small_reserve key1 [9, 9] empty_tree = (Inr (), t1) \<and>
     art_store small_reserve key1 [5] t1 = (Inl (OperationFailed PMEM_ALLOCATION_ERROR), t2) \<and>
     art_map t2 key1 = Some (PmemVal [9, 9])"
proof -
  obtain t1 where t1: "art_store small_reserve key1 [9, 9] empty_tree = (Inr (), t1)" using store_key1 by blast
  obtain r t2 where t2: "art_store small_reserve key1 [5] t1 = (r, t2)" by fastforce
  have len: "length key1 = 8" by (simp add: key1_def)
  have m: "art_inv t1" "art_map t1 key1 = Some (PmemVal [9, 9])"
    using art_store_spec [OF empty_tree_inv(1) len small_reserve_fresh, of "[9, 9]"] t1 by auto
  from art_store_isolates_keys [OF m(1) len small_reserve_fresh t2] m t1 t2 show ?thesis by auto
qed

text \<open>C0. A value that is still in persistent memory does not survive a restart, and its key cannot be used again: when the file
  is opened by a new process, \<open>Get\<close> does not find the key, a store of any value for it is refused, and only \<open>Remove\<close> still succeeds.\<close>

theorem restart_loses_pmem_values:
  assumes "art_inv t" "length key = 8" "art_map t key = Some (PmemVal v)" "ps_file ps = Some t" "new_TreeImpl rsv ps = Inr t1" "fresh_reserve rsv"
  shows "ART_Get key t1 = Inl (OperationFailed KEY_NOT_FOUND) \<and> fst (art_store rsv key u t1) = Inl (OperationFailed PMEM_ALLOCATION_ERROR) \<and>
    fst (ART_Remove key t1) = Inr ()"
proof -
  have t1: "t1 = t\<lparr>pm := reopen (pm t)\<rparr>" using assms(4,5) by (simp add: new_TreeImpl_def split: if_splits)
  obtain i w where w: "leaf (rootNode t) (rev key) = Some i" "wrappers (pm t) i = Some w" "location w = PMEM"
    using pmem_wrapper [of "{}" t key v] assms(1,3) unfolding art_inv_live by blast
  have w1: "wrappers (pm t1) i = Some (w\<lparr>locationVolatile := EMPTY, actionValue := None\<rparr>)" using w(2) by (simp add: t1 reopen_def)
  have f: "findValueInNode (rootNode t1) (keySize t1) key = Inr (Some i)" using find_in_tree [OF assms(1,2)] w(1) by (simp add: t1)
  obtain r n m where a: "findValueAlloc LEAF_DEPTH rsv (keySize t1) key (rootNode t1) (pm t1) = (r, n, m)" using prod_cases3 by blast
  have "alloc_post (rev key) (rootNode t1) (pm t1) (r, n, m)"
    using find_alloc_spec [OF assms(6,2), of "rootNode t1" 0 8 "pm t1"] a assms(1) by (simp add: t1 art_inv_def LEAF_DEPTH_8)
  then have "r = Inr i" "wrappers m = wrappers (pm t1)" using w(1) by (auto simp: alloc_post_def t1 split: sum.splits)
  then have "fst (art_store rsv key u t1) = Inl (OperationFailed PMEM_ALLOCATION_ERROR)"
    using a w1 w(3) by (simp add: art_store_def AllocValueForKey_def)
  then show ?thesis using f w1 w(3) by (simp add: ART_Get_def ART_Remove_def isLocationReservedNotPublished_def)
qed

theorem restart_loses_pmem_values_witness:
  "\<exists>t t1. art_store small_reserve key1 [9, 9] empty_tree = (Inr (), t) \<and>
     new_TreeImpl small_reserve \<lparr>ps_ctl = (0, 0), ps_usable = True, ps_classes = True, ps_file = Some t, ps_mem = empty_mem\<rparr> = Inr t1 \<and>
     ART_Get key1 t1 = Inl (OperationFailed KEY_NOT_FOUND) \<and> fst (art_store small_reserve key1 [5] t1) = Inl (OperationFailed PMEM_ALLOCATION_ERROR)"
proof -
  obtain t where t: "art_store small_reserve key1 [9, 9] empty_tree = (Inr (), t)" using store_key1 by blast
  have len: "length key1 = 8" by (simp add: key1_def)
  have m: "art_inv t" "art_map t key1 = Some (PmemVal [9, 9])"
    using art_store_spec [OF empty_tree_inv(1) len small_reserve_fresh, of "[9, 9]"] t by auto
  let ?ps = "\<lparr>ps_ctl = (0, 0), ps_usable = True, ps_classes = True, ps_file = Some t, ps_mem = empty_mem\<rparr>"
  have "new_TreeImpl small_reserve ?ps = Inr (t\<lparr>pm := reopen (pm t)\<rparr>)" by (simp add: new_TreeImpl_def)
  with restart_loses_pmem_values [OF m(1) len m(2) _ this small_reserve_fresh, of "[5]"] t show ?thesis by auto
qed

text \<open>C12. Removing a value that is still in persistent memory frees its wrapper but leaves the
  pointer to it in the leaf: the removal succeeds, and the next \<open>Get\<close>, \<open>Put\<close>, \<open>Remove\<close> or
  allocation for the key reads freed memory.\<close>

theorem art_remove_leaves_dangling_pointer:
  assumes "art_inv t" "length key = 8" "art_map t key = Some (PmemVal v)"
  shows "\<exists>t' i. ART_Remove key t = (Inr (), t') \<and> leaf (rootNode t') (rev key) = Some i \<and> wrappers (pm t') i = None \<and>
     ART_Get key t' = Inl Undefined \<and> fst (ART_Put key t') = Inl Undefined \<and> fst (ART_Remove key t') = Inl Undefined"
proof -
  obtain i w b where w: "leaf (rootNode t) (rev key) = Some i" "wrappers (pm t) i = Some w" "location w = PMEM"
     "locationVolatile w \<noteq> EMPTY" "actionValue w = Some b"
    using pmem_wrapper [of "{}" t key v] assms(1,3) unfolding art_inv_live by blast
  note f = find_in_tree [OF assms(1,2)]
  let ?w = "w\<lparr>location := EMPTY\<rparr>" let ?t = "free_wrapper i ?w (cancel_block b (set_wrapper i ?w t))"
  have t': "rootNode ?t = rootNode t" "keySize ?t = keySize t" "wrappers (pm ?t) i = None"
    by (simp_all add: free_wrapper_def cancel_block_def set_wrapper_def)
  have "ART_Remove key t = (Inr (), ?t)" using w by (simp add: ART_Remove_def f isLocationReservedNotPublished_def Let_def)
  moreover have "ART_Get key ?t = Inl Undefined" "fst (ART_Put key ?t) = Inl Undefined" "fst (ART_Remove key ?t) = Inl Undefined"
    using f w(1) t' by (simp_all add: ART_Get_def ART_Put_def ART_Remove_def)
  ultimately show ?thesis using w(1) t' by auto
qed

theorem art_remove_leaves_dangling_pointer_witness:
  "\<exists>t t'. art_store small_reserve key1 [9, 9] empty_tree = (Inr (), t) \<and> ART_Remove key1 t = (Inr (), t') \<and>
     ART_Get key1 t' = Inl Undefined"
proof -
  obtain t where t: "art_store small_reserve key1 [9, 9] empty_tree = (Inr (), t)" using store_key1 by blast
  have len: "length key1 = 8" by (simp add: key1_def)
  have m: "art_inv t" "art_map t key1 = Some (PmemVal [9, 9])"
    using art_store_spec [OF empty_tree_inv(1) len small_reserve_fresh, of "[9, 9]"] t by auto
  from art_remove_leaves_dangling_pointer [OF m(1) len m(2)] t show ?thesis by blast
qed

end
