(* ===== verification/Offload_Engine.thy ===== *)
theory Offload_Engine
  imports Bdev ART_Tree
begin

text \<open>
  The threads between the index and one block device: \<^verbatim>\<open>lib/offload/OffloadPoller.cpp\<close> takes requests and
  makes device tasks of them, \<^verbatim>\<open>lib/spdk/SpdkIoEngine.cpp\<close> starts the tasks on the device, and
  \<^verbatim>\<open>lib/offload/FinalizePoller.cpp\<close> ends them. Each loop over a batch is a recursion over its list. The
  request pools are not part of the state: returning a request is an event of the trace. Requests and tasks are
  values, so the branches for null pointers in \<open>OffloadPoller::_processUpdate\<close> and \<open>FinalizePoller::process\<close> have no
  counterpart; the first cannot be reached, since \<open>process\<close> reads the operation of the request before. A task has a copy of the device
  address its pointer leads to: a block with an address is never written or freed again (\<open>art_exec_keeps_addresses\<close>).
\<close>

type_synonym rqst = "OffloadOperation Rqst"

record ('q, 'r) offload_sys =
  sys_tree :: ARTree
  sys_poller :: "(rqst, 'q) Poller"
  sys_dev :: "'r SpdkBdev"
  sys_env :: io_env

text \<open>The outside of the engine: rings, allocators, what SPDK answers to the \<open>k\<close>-th call of a batch, and what the stack holds where
  a device address is made.\<close>

record ('q, 'r) outside =
  rq_ring :: "(rqst, 'q) ring_ops"
  task_ring :: "(task, 'r) ring_ops"
  dma :: zmalloc_fn
  lba_alloc :: allocator
  reserve :: reserve_fn
  spdk_rc :: "nat \<Rightarrow> int \<times> int"
  stack_junk :: u64

definition rqstClb :: "rqst \<Rightarrow> StatusCode \<Rightarrow> event list" where
  "rqstClb r st = (case rq_clb r of None \<Rightarrow> [] | Some c \<Rightarrow> [Callback c st (rq_key r) None])"

definition answer :: "rqst \<Rightarrow> StatusCode \<Rightarrow> OffloadOperation \<Rightarrow> ('q, 'r) offload_sys \<Rightarrow> ('q, 'r) offload_sys" where
  "answer r st pool s = s\<lparr>sys_env := log (rqstClb r st @ [PoolPut pool (rq_id r)]) (sys_env s)\<rparr>"

section \<open>OffloadPoller\<close>

definition getValCtx :: "rqst \<Rightarrow> ARTree \<Rightarrow> exn + StatusCode \<times> mem \<times> u64 \<times> LOCATIONS" where
  "getValCtx r t =
     (case ART_Get (rq_key r) t of
        Inl e \<Rightarrow> if e = Undefined then Inl Undefined else Inr (UNKNOWN_ERROR, Null, 0, EMPTY)
      | Inr (p, sz, loc) \<Rightarrow>
         (case map_option (blocks (pm t)) p of
            None \<Rightarrow> Inr (OK, Null, of_nat sz, loc)
          | Some None \<Rightarrow> Inl Undefined
          | Some (Some (Value bs)) \<Rightarrow> Inr (OK, Bytes bs, of_nat sz, loc)
          | Some (Some (Iov a)) \<Rightarrow> Inr (OK, AddrBlock a, of_nat sz, loc)))"

definition new_task :: "u64 \<Rightarrow> u32 \<Rightarrow> DeviceAddr option \<Rightarrow> bool \<Rightarrow> rqst \<Rightarrow> OffloadOperation \<Rightarrow> bytes \<Rightarrow> task" where
  "new_task sz blk a iov r op key =
     \<lparr>t_buff = None, t_size = sz, t_blockSize = blk, t_bdevAddr = a, t_updatePmemIOV = iov, t_dev = 0, t_rqst = r, t_op = op,
      t_key = key, t_result = False, t_freeLba = 0, t_routing = True\<rparr>"

text \<open>The pointer to the address of a value, as the code casts it.\<close>

definition addr_ptr :: "mem \<Rightarrow> exn + DeviceAddr" where
  "addr_ptr p = (case p of AddrBlock a \<Rightarrow> Inr a | _ \<Rightarrow> Inl Undefined)"

text \<open>The address of an update of a value on disk is copied from the value of the request.\<close>

definition SIZEOF_DeviceAddr :: nat where
  "SIZEOF_DeviceAddr = 16"

definition bytes_word :: "bytes \<Rightarrow> u64" where
  "bytes_word bs = (\<Sum>i\<leftarrow>[0..<8]. push_bit (8 * i) (ucast (bs ! i)))"

definition copy_addr :: "mem \<Rightarrow> exn + DeviceAddr" where
  "copy_addr p =
     map_sum id (\<lambda>bs. \<lparr>dev_lba = bytes_word (take 8 bs), busAddr = bytes_word (drop 8 bs)\<rparr>) (mem_read p SIZEOF_DeviceAddr)"

text \<open>A task handed to the device; one that is refused is answered at once.\<close>

definition submit :: "rqst \<Rightarrow> OffloadOperation \<Rightarrow> exn + bool \<times> 'r SpdkBdev \<times> io_env \<Rightarrow> ('q, 'r) offload_sys \<Rightarrow> exn + ('q, 'r) offload_sys" where
  "submit r pool res s =
     (case res of
        Inl e \<Rightarrow> Inl e
      | Inr (ok, b, v) \<Rightarrow>
         (let s = s\<lparr>sys_dev := b, sys_env := v\<rparr> in Inr (if ok then s else answer r UNKNOWN_ERROR pool s)))"

definition poller_processGet :: "('q, 'r) outside \<Rightarrow> int \<times> int \<Rightarrow> rqst \<Rightarrow> ('q, 'r) offload_sys \<Rightarrow> exn + ('q, 'r) offload_sys" where
  "poller_processGet x rcs r s =
     (case getValCtx r (sys_tree s) of
        Inl e \<Rightarrow> Inl e
      | Inr (rc, val, sz, loc) \<Rightarrow>
         (if rc \<noteq> OK then Inr (answer r rc OFFLOAD_GET s)
          else if loc = PMEM then Inr (answer r KEY_NOT_FOUND OFFLOAD_GET s)
          else case addr_ptr val of
                 Inl e \<Rightarrow> Inl e
               | Inr a \<Rightarrow>
                  (if TASK_KEY_SIZE < length (rq_key r) then Inl Undefined
                   else let r = r\<lparr>rq_valueSize := sz\<rparr>;
                            t = new_task (getOptimalSize (spBdevCtx (sys_dev s)) sz) 0 (Some a) False r OFFLOAD_GET (rq_key r)
                        in submit r OFFLOAD_GET (bdev_read (dma x) rcs (task_ring x) t (sys_dev s) (sys_env s)) s)))"

definition poller_processUpdate :: "('q, 'r) outside \<Rightarrow> int \<times> int \<Rightarrow> rqst \<Rightarrow> ('q, 'r) offload_sys \<Rightarrow> exn + ('q, 'r) offload_sys" where
  "poller_processUpdate x rcs r s =
     (let c = spBdevCtx (sys_dev s);
          put = (\<lambda>a iov blk. submit r OFFLOAD_UPDATE
                   (bdev_write (dma x) rcs (task_ring x)
                      (new_task (getOptimalSize c (rq_valueSize r)) blk a iov r OFFLOAD_UPDATE (rq_key r)) (sys_dev s) (sys_env s)) s)
      in if rq_loc r = EMPTY then Inr (answer r KEY_NOT_FOUND OFFLOAD_UPDATE s)
         else if rq_loc r = DISK \<and> rq_valueSize r = 0 then Inr (answer r OK OFFLOAD_UPDATE s)
         else case getSizeInBlk c (getAlignedSize c (rq_valueSize r)) of
                Inl e \<Rightarrow> Inl e
              | Inr blk \<Rightarrow>
                 (if TASK_KEY_SIZE < length (rq_key r) then Inl Undefined
                  else if rq_loc r = PMEM then put None True blk
                  else case copy_addr (rq_value r) of Inl e \<Rightarrow> Inl e | Inr a \<Rightarrow> put (Some a) False blk))"

text \<open>\<open>delete[]\<close> of the value of a request: no caller gives a removal a value, and one that points elsewhere than to an array of
  the heap must not be deleted.\<close>

definition delete_value :: "rqst \<Rightarrow> exn + unit" where
  "delete_value r = (if 0 < rq_valueSize r \<and> rq_value r \<noteq> Null then Inl Undefined else Inr ())"

text \<open>The task of a removal gets no key: its buffer stays zero.\<close>

definition poller_processRemove :: "('q, 'r) outside \<Rightarrow> rqst \<Rightarrow> ('q, 'r) offload_sys \<Rightarrow> exn + ('q, 'r) offload_sys" where
  "poller_processRemove x r s =
     (case getValCtx r (sys_tree s) of
        Inl e \<Rightarrow> Inl e
      | Inr (rc, val, sz, loc) \<Rightarrow>
         (if rc \<noteq> OK then map_sum id (\<lambda>u. answer r rc OFFLOAD_REMOVE s) (delete_value r)
          else if loc = PMEM then map_sum id (\<lambda>u. answer r KEY_NOT_FOUND OFFLOAD_REMOVE s) (delete_value r)
          else case addr_ptr val of
                 Inl e \<Rightarrow> Inl e
               | Inr a \<Rightarrow>
                  submit r OFFLOAD_REMOVE
                    (bdev_remove (lba_alloc x) (task_ring x)
                       (new_task (getOptimalSize (spBdevCtx (sys_dev s)) (rq_valueSize r)) 0 (Some a) False r OFFLOAD_REMOVE
                          (replicate (length (rq_key r)) 0)) (sys_dev s) (sys_env s)) s))"

definition poller_process1 :: "('q, 'r) outside \<Rightarrow> int \<times> int \<Rightarrow> rqst \<Rightarrow> ('q, 'r) offload_sys \<Rightarrow> exn + ('q, 'r) offload_sys" where
  "poller_process1 x rcs r s =
     (case rq_op r of
        OFFLOAD_GET \<Rightarrow> poller_processGet x rcs r s
      | OFFLOAD_UPDATE \<Rightarrow> poller_processUpdate x rcs r s
      | OFFLOAD_REMOVE \<Rightarrow> poller_processRemove x r s
      | OFFLOAD_NONE \<Rightarrow> Inr s)"

fun poller_loop :: "('q, 'r) outside \<Rightarrow> nat \<Rightarrow> rqst list \<Rightarrow> ('q, 'r) offload_sys \<Rightarrow> exn + ('q, 'r) offload_sys" where
  "poller_loop x k [] s = Inr s"
| "poller_loop x k (r # rs) s =
     (case poller_process1 x (spdk_rc x k) r s of Inl e \<Rightarrow> Inl e | Inr s \<Rightarrow> poller_loop x (k + 1) rs s)"

definition poller_process :: "('q, 'r) outside \<Rightarrow> ('q, 'r) offload_sys \<Rightarrow> exn + ('q, 'r) offload_sys" where
  "poller_process x s =
     map_sum id (\<lambda>s. s\<lparr>sys_poller := (sys_poller s)\<lparr>requests := []\<rparr>\<rparr>) (poller_loop x 0 (requests (sys_poller s)) s)"

text \<open>The work of one turn of the main loop of \<open>SpdkCore\<close>.\<close>

definition poller_turn :: "('q, 'r) outside \<Rightarrow> ('q, 'r) offload_sys \<Rightarrow> exn + ('q, 'r) offload_sys" where
  "poller_turn x s = poller_process x (s\<lparr>sys_poller := poller_dequeue (rq_ring x) DEQUEUE_RING_LIMIT (sys_poller s)\<rparr>)"

text \<open>The whole turn: \<open>running\<close> is the flag of the poller. At its end the device is stopped; \<open>deinit\<close> waits until the thread of the
  device, asked by \<open>isRunning = 4\<close>, leaves its loop, which is what \<open>leaves\<close> says.\<close>

definition spdkCoreMainLoop :: "('q, 'r) outside \<Rightarrow> bool \<Rightarrow> bool \<Rightarrow> ('q, 'r) offload_sys \<Rightarrow> exn + int \<times> ('q, 'r) offload_sys" where
  "spdkCoreMainLoop x running leaves s =
     (case poller_turn x s of
        Inl e \<Rightarrow> Inl e
      | Inr s \<Rightarrow>
         (if running then Inr (0, s)
          else if \<not> leaves then Inl NoReturn
          else Inr (1, s\<lparr>sys_dev := (sys_dev s)\<lparr>isRunning := 0\<rparr>\<rparr>)))"

text \<open>A client that adds a request.\<close>

definition offload_enqueue :: "('q, 'r) outside \<Rightarrow> rqst \<Rightarrow> ('q, 'r) offload_sys \<Rightarrow> bool \<times> ('q, 'r) offload_sys" where
  "offload_enqueue x r s = (case poller_enqueue (rq_ring x) r (sys_poller s) of (ok, p) \<Rightarrow> (ok, s\<lparr>sys_poller := p\<rparr>))"

section \<open>SpdkIoEngine\<close>

definition engine_process1 :: "('q, 'r) outside \<Rightarrow> int \<times> int \<Rightarrow> task \<Rightarrow> ('q, 'r) offload_sys \<Rightarrow> exn + ('q, 'r) offload_sys" where
  "engine_process1 x rcs t s =
     (let t = t\<lparr>t_routing := False\<rparr>
      in case t_op t of
           OFFLOAD_GET \<Rightarrow> submit (t_rqst t) OFFLOAD_GET (bdev_read (dma x) rcs (task_ring x) t (sys_dev s) (sys_env s)) s
         | OFFLOAD_UPDATE \<Rightarrow> submit (t_rqst t) OFFLOAD_UPDATE (bdev_write (dma x) rcs (task_ring x) t (sys_dev s) (sys_env s)) s
         | OFFLOAD_REMOVE \<Rightarrow> submit (t_rqst t) OFFLOAD_REMOVE (bdev_remove (lba_alloc x) (task_ring x) t (sys_dev s) (sys_env s)) s
         | OFFLOAD_NONE \<Rightarrow> Inr s)"

fun engine_loop :: "('q, 'r) outside \<Rightarrow> nat \<Rightarrow> task list \<Rightarrow> ('q, 'r) offload_sys \<Rightarrow> exn + ('q, 'r) offload_sys" where
  "engine_loop x k [] s = Inr s"
| "engine_loop x k (t # ts) s =
     (case engine_process1 x (spdk_rc x k) t s of Inl e \<Rightarrow> Inl e | Inr s \<Rightarrow> engine_loop x (k + 1) ts s)"

definition engine_process :: "('q, 'r) outside \<Rightarrow> ('q, 'r) offload_sys \<Rightarrow> exn + ('q, 'r) offload_sys" where
  "engine_process x s =
     (case ioEngine (sys_dev s) of
        None \<Rightarrow> Inl Undefined
      | Some e \<Rightarrow>
         map_sum id (\<lambda>s. s\<lparr>sys_dev := (sys_dev s)\<lparr>ioEngine := map_option (\<lambda>e. e\<lparr>requests := []\<rparr>) (ioEngine (sys_dev s))\<rparr>\<rparr>)
           (engine_loop x 0 (requests e) s))"

definition ioEngineIoFunction :: "('q, 'r) outside \<Rightarrow> ('q, 'r) offload_sys \<Rightarrow> exn + ('q, 'r) offload_sys" where
  "ioEngineIoFunction x s =
     (let b = sys_dev s; can_queue_cnt = canQueue b
      in if isRunning b \<noteq> 0 \<and> can_queue_cnt \<noteq> 0
         then engine_process x (s\<lparr>sys_dev := b\<lparr>ioEngine := map_option (poller_dequeue (task_ring x) (unat can_queue_cnt)) (ioEngine b)\<rparr>\<rparr>)
         else Inr s)"

section \<open>FinalizePoller\<close>

definition taskClb :: "task \<Rightarrow> StatusCode \<Rightarrow> bytes option \<Rightarrow> event list" where
  "taskClb t st val = (case rq_clb (t_rqst t) of None \<Rightarrow> [] | Some c \<Rightarrow> [Callback c st (t_key t) val])"

definition log_sys :: "event list \<Rightarrow> ('q, 'r) offload_sys \<Rightarrow> ('q, 'r) offload_sys" where
  "log_sys es s = s\<lparr>sys_env := log es (sys_env s)\<rparr>"

definition fin_processGet :: "task \<Rightarrow> ('q, 'r) offload_sys \<Rightarrow> exn + ('q, 'r) offload_sys" where
  "fin_processGet t s =
     (case t_buff t of
        None \<Rightarrow> Inl Undefined
      | Some r \<Rightarrow>
         (let n = unat (rq_valueSize (t_rqst t));
              clb = (if t_result t
                     then (case spdkDmaBuf (bufMgr (sys_env s)) r of
                             None \<Rightarrow> Inl Undefined
                           | Some bs \<Rightarrow> if length bs < n then Inl Undefined else Inr (taskClb t OK (Some (take n bs))))
                     else Inr (taskClb t UNKNOWN_ERROR None))
          in case clb of
               Inl e \<Rightarrow> Inl e
             | Inr es \<Rightarrow>
                (case put_task_buf putIoReadBuf t (log es (sys_env s)) of
                   Inl e \<Rightarrow> Inl e
                 | Inr v \<Rightarrow>
                    Inr (s\<lparr>sys_dev := (sys_dev s)\<lparr>ioBufsInUse := ioBufsInUse (sys_dev s) - 1\<rparr>,
                           sys_env := log [PoolPut OFFLOAD_GET (rq_id (t_rqst t))] v\<rparr>))))"

text \<open>The address of a task; the bytes of the bus address behind the PCI address keep what the stack had.\<close>

definition task_addr :: "u64 \<Rightarrow> task \<Rightarrow> 'r SpdkBdev \<Rightarrow> DeviceAddr" where
  "task_addr junk t b = \<lparr>dev_lba = t_freeLba t, busAddr = set_pci (pci_addr (spBdevCtx b)) junk\<rparr>"

definition fin_processUpdate :: "('q, 'r) outside \<Rightarrow> task \<Rightarrow> ('q, 'r) offload_sys \<Rightarrow> exn + ('q, 'r) offload_sys" where
  "fin_processUpdate x t s =
     (let done1 = (\<lambda>st s. Inr (log_sys (taskClb t st None @ [PoolPut OFFLOAD_UPDATE (rq_id (t_rqst t))]) s))
      in if t_result t
         then if t_updatePmemIOV t
              then (case AllocateAndUpdateValueWrapper (reserve x) (t_key t) SIZEOF_DeviceAddr (task_addr (stack_junk x) t (sys_dev s)) (sys_tree s) of
                      (Inl e, tr) \<Rightarrow> if e = Undefined then Inl Undefined else done1 UNKNOWN_ERROR (s\<lparr>sys_tree := tr\<rparr>)
                    | (Inr u, tr) \<Rightarrow> done1 OK (s\<lparr>sys_tree := tr\<rparr>))
              else done1 OK s
         else done1 UNKNOWN_ERROR s)"

definition fin_processRemove :: "task \<Rightarrow> ('q, 'r) offload_sys \<Rightarrow> exn + ('q, 'r) offload_sys" where
  "fin_processRemove t s =
     (let done1 = (\<lambda>st s. Inr (log_sys (taskClb t st None @ [PoolPut OFFLOAD_REMOVE (rq_id (t_rqst t))]) s))
      in if t_result t
         then (case ART_Remove (rq_key (t_rqst t)) (sys_tree s) of
                 (Inl e, tr) \<Rightarrow> Inl (if e = Undefined then Undefined else Abort)
               | (Inr u, tr) \<Rightarrow> done1 OK (s\<lparr>sys_tree := tr\<rparr>))
         else done1 UNKNOWN_ERROR s)"

definition fin_process1 :: "('q, 'r) outside \<Rightarrow> task \<Rightarrow> ('q, 'r) offload_sys \<Rightarrow> exn + ('q, 'r) offload_sys" where
  "fin_process1 x t s =
     (if t_op t = OFFLOAD_NONE then Inr s
      else if fin_state (sys_dev s) \<noteq> FP_READY then Inr (log_sys [PoolPut (t_op t) (rq_id (t_rqst t))] s)
      else case t_op t of
             OFFLOAD_GET \<Rightarrow> fin_processGet t s
           | OFFLOAD_UPDATE \<Rightarrow> fin_processUpdate x t s
           | _ \<Rightarrow> fin_processRemove t s)"

fun fin_loop :: "('q, 'r) outside \<Rightarrow> task list \<Rightarrow> ('q, 'r) offload_sys \<Rightarrow> exn + ('q, 'r) offload_sys" where
  "fin_loop x [] s = Inr s"
| "fin_loop x (t # ts) s = (case fin_process1 x t s of Inl e \<Rightarrow> Inl e | Inr s \<Rightarrow> fin_loop x ts s)"

text \<open>The state is compared with and set to \<open>FP_QUIESCENT\<close> when there is nothing to do.\<close>

definition fin_process :: "('q, 'r) outside \<Rightarrow> ('q, 'r) offload_sys \<Rightarrow> exn + ('q, 'r) offload_sys" where
  "fin_process x s =
     (if requests (finalizer (sys_dev s)) \<noteq> []
      then map_sum id (\<lambda>s. s\<lparr>sys_dev := (sys_dev s)\<lparr>finalizer := (finalizer (sys_dev s))\<lparr>requests := []\<rparr>\<rparr>\<rparr>)
             (fin_loop x (requests (finalizer (sys_dev s))) s)
      else if fin_state (sys_dev s) = FP_QUIESCENT then Inr (s\<lparr>sys_dev := (sys_dev s)\<lparr>fin_state := FP_QUIESCENT\<rparr>\<rparr>)
      else Inr s)"

text \<open>One turn of the thread, which waits while the device starts and ends when it has stopped.\<close>

definition fin_turn :: "('q, 'r) outside \<Rightarrow> ('q, 'r) offload_sys \<Rightarrow> exn + ('q, 'r) offload_sys" where
  "fin_turn x s =
     (if isRunning (sys_dev s) = 3 \<or> isRunning (sys_dev s) = 0 then Inr s
      else fin_process x (s\<lparr>sys_dev := (sys_dev s)\<lparr>finalizer := poller_dequeue (task_ring x) DEQUEUE_RING_LIMIT (finalizer (sys_dev s))\<rparr>\<rparr>))"

section \<open>SPDK\<close>

text \<open>SPDK ends the \<open>k\<close>-th call it has accepted; a read puts \<open>data\<close> into the buffer of the task.\<close>

definition drop_nth :: "nat \<Rightarrow> 'a list \<Rightarrow> 'a list" where
  "drop_nth k xs = take k xs @ drop (Suc k) xs"

definition dev_complete :: "('q, 'r) outside \<Rightarrow> nat \<Rightarrow> bool \<Rightarrow> bytes \<Rightarrow> ('q, 'r) offload_sys \<Rightarrow> exn + ('q, 'r) offload_sys" where
  "dev_complete x k success data s =
     (let v = sys_env s; io = inflight v ! k; v = v\<lparr>inflight := drop_nth k (inflight v)\<rparr>
      in case (case io_kind io of
                 WriteIo \<Rightarrow> writeComplete (task_ring x) success (io_task io) (sys_dev s) v
               | ReadIo \<Rightarrow>
                  (case t_buff (io_task io) of
                     None \<Rightarrow> Inl Undefined
                   | Some r \<Rightarrow>
                      readComplete (task_ring x) success (io_task io) (sys_dev s)
                        (if success then v\<lparr>bufMgr := setSpdkDmaBuf r (Some data) (bufMgr v)\<rparr> else v))) of
           Inl e \<Rightarrow> Inl e
         | Inr (b, v) \<Rightarrow> Inr (s\<lparr>sys_dev := b, sys_env := v\<rparr>))"

text \<open>SPDK calls back the \<open>k\<close>-th waiting task, with the function \<open>reschedule\<close> gave it.\<close>

definition dev_retry :: "int \<times> int \<Rightarrow> nat \<Rightarrow> ('q, 'r) offload_sys \<Rightarrow> exn + ('q, 'r) offload_sys" where
  "dev_retry rcs k s =
     (let v = sys_env s; t = ioWaits v ! k
      in map_sum id (\<lambda>(b, v). s\<lparr>sys_dev := b, sys_env := v\<rparr>)
           (writeQueueIoWait rcs t (sys_dev s) (v\<lparr>ioWaits := drop_nth k (ioWaits v)\<rparr>)))"

end
