(* ===== verification/Offload_Account.thy ===== *)
theory Offload_Account
  imports Offload_Engine "HOL-Library.Multiset"
begin

text \<open>
  What becomes of the requests of the offload engine. A \<open>balance\<close> adds up the weights of the requests
  and tasks in the queues and of the events of the trace; the locale \<open>request_account\<close> states what
  makes a weight one that every step of the threads keeps, up to a relation. It is used with the number of the
  request and with the number of its callback: with equality as long as the device is not asked to stop, and with the
  inclusion that still holds afterwards.
\<close>

section \<open>Balances\<close>

definition rw :: "(rqst \<Rightarrow> 'a multiset) \<Rightarrow> rqst \<Rightarrow> 'a multiset" where
  "rw w r = (if rq_op r = OFFLOAD_NONE then {#} else w r)"

definition tw :: "(rqst \<Rightarrow> 'a multiset) \<Rightarrow> task \<Rightarrow> 'a multiset" where
  "tw w t = (if t_op t = OFFLOAD_NONE then {#} else w (t_rqst t))"

definition engine_tasks :: "('r \<Rightarrow> task list) \<Rightarrow> 'r SpdkBdev \<Rightarrow> task list" where
  "engine_tasks cr b = (case ioEngine b of None \<Rightarrow> [] | Some e \<Rightarrow> cr (rqstRing e))"

definition live_tasks :: "('r \<Rightarrow> task list) \<Rightarrow> 'r SpdkBdev \<Rightarrow> io_env \<Rightarrow> task list" where
  "live_tasks cr b v = engine_tasks cr b @ map io_task (inflight v) @ ioWaits v @ cr (rqstRing (finalizer b))"

definition dev_balance :: "(rqst \<Rightarrow> 'a multiset) \<Rightarrow> (event \<Rightarrow> 'a multiset) \<Rightarrow> ('r \<Rightarrow> task list) \<Rightarrow> 'r SpdkBdev \<Rightarrow> io_env \<Rightarrow> 'a multiset" where
  "dev_balance w ev cr b v = (\<Sum>t\<leftarrow>live_tasks cr b v. tw w t) + (\<Sum>e\<leftarrow>trace v. ev e)"

definition balance :: "(rqst \<Rightarrow> 'a multiset) \<Rightarrow> (event \<Rightarrow> 'a multiset) \<Rightarrow> ('q \<Rightarrow> rqst list) \<Rightarrow> ('r \<Rightarrow> task list) \<Rightarrow> ('q, 'r) offload_sys \<Rightarrow> 'a multiset" where
  "balance w ev cq cr s = (\<Sum>r\<leftarrow>cq (rqstRing (sys_poller s)). rw w r) + dev_balance w ev cr (sys_dev s) (sys_env s)"

text \<open>A device that has not been asked to stop.\<close>

definition calm :: "'r SpdkBdev \<Rightarrow> bool" where
  "calm b \<longleftrightarrow> IoState b \<in> {BDEV_IO_INIT, BDEV_IO_READY, BDEV_IO_STOPPED} \<and> fin_state b = FP_READY"

lemma map_sum_Inr: "map_sum id f r = Inr y \<longleftrightarrow> (\<exists>z. r = Inr z \<and> y = f z)"
  by (cases r) auto

lemma calm_stateMachine: "calm b \<Longrightarrow> stateMachine b = Inr (False, b)"
  by (auto simp: calm_def stateMachine_def)

lemma calm_fin: "calm b \<Longrightarrow> fin_state b = FP_READY"
  by (simp add: calm_def)

lemma log_sys_dev: "sys_dev (log_sys es s) = sys_dev s"
  by (simp add: log_sys_def)

lemmas balance_simps = dev_balance_def live_tasks_def engine_tasks_def calm_def upd_stats_def

lemma tw_upd [simp]:
  "tw w (t\<lparr>t_routing := x1\<rparr>) = tw w t" "tw w (t\<lparr>t_result := x1\<rparr>) = tw w t" "tw w (t\<lparr>t_buff := x2\<rparr>) = tw w t"
  "tw w (t\<lparr>t_freeLba := x3\<rparr>) = tw w t" "tw w (t\<lparr>t_blockSize := x4\<rparr>) = tw w t"
  by (simp_all add: tw_def)

lemma balance_inflight:
  "dev_balance w ev cr b (v\<lparr>inflight := inflight v @ [io]\<rparr>) = dev_balance w ev cr b v + tw w (io_task io)"
  "dev_balance w ev cr b (v\<lparr>ioWaits := ioWaits v @ [t]\<rparr>) = dev_balance w ev cr b v + tw w t"
  "dev_balance w ev cr b (v\<lparr>bufMgr := m\<rparr>) = dev_balance w ev cr b v"
  "dev_balance w ev cr b (v\<lparr>bufMgr := m, inflight := inflight v @ [io]\<rparr>) = dev_balance w ev cr b v + tw w (io_task io)"
  "dev_balance w ev cr b (v\<lparr>bufMgr := m, ioWaits := ioWaits v @ [t]\<rparr>) = dev_balance w ev cr b v + tw w t"
  by (simp_all add: balance_simps)

lemma balance_dev:
  "dev_balance w ev cr (b\<lparr>ioBufsInUse := n\<rparr>) v = dev_balance w ev cr b v"
  "dev_balance w ev cr (b\<lparr>lbaAllocator := al\<rparr>) v = dev_balance w ev cr b v"
  "dev_balance w ev cr (upd_stats f b) v = dev_balance w ev cr b v"
  by (simp_all add: balance_simps)

lemma calm_dev:
  "calm (b\<lparr>ioBufsInUse := n\<rparr>) = calm b" "calm (b\<lparr>lbaAllocator := al\<rparr>) = calm b" "calm (upd_stats f b) = calm b"
  "calm (b\<lparr>finalizer := f'\<rparr>) = calm b" "calm (b\<lparr>ioEngine := e\<rparr>) = calm b"
  by (simp_all add: balance_simps)

lemmas bal = balance_inflight balance_dev calm_dev

lemma route_balance:
  assumes "ring_ok rd cr n" "route rd t b = Some (ok, b')"
  shows "dev_balance w ev cr b' v = dev_balance w ev cr b v + (if ok then tw w t else {#}) \<and> calm b' = calm b"
proof -
  obtain e where e: "ioEngine b = Some e" "ok = fst (poller_enqueue rd t e)" "b' = b\<lparr>ioEngine := Some (snd (poller_enqueue rd t e))\<rparr>"
    using assms(2) by (auto simp: route_def split: option.splits if_splits prod.splits)
  then show ?thesis using poller_enqueue_spec [OF assms(1), of t e] by (auto simp: balance_simps)
qed

lemma stateMachine_balance:
  assumes "stateMachine b = Inr (q, b')"
  shows "dev_balance w ev cr b' v = dev_balance w ev cr b v" "calm b \<longrightarrow> calm b' \<and> \<not> q" "finalizer b' = finalizer b" "spBdevCtx b' = spBdevCtx b"
  using assms by (auto simp: stateMachine_def balance_simps split: IOState.splits if_splits)

lemma put_task_buf_balance: "put_task_buf pf t v = Inr v' \<Longrightarrow> dev_balance w ev cr b v' = dev_balance w ev cr b v"
  by (auto simp: put_task_buf_def balance_simps split: option.splits sum.splits)

lemma doRead_balance:
  assumes "doRead zm rcs t b v = Inr (ok, b', v')"
  shows "dev_balance w ev cr b' v' = dev_balance w ev cr b v + (if ok then tw w t else {#}) \<and> (calm b \<longrightarrow> calm b')"
proof -
  obtain q b1 where m: "stateMachine b = Inr (q, b1)" using assms by (cases "stateMachine b") (auto simp: doRead_def)
  note sm = stateMachine_balance [OF m]
  show ?thesis using assms sm(1) [of w ev cr v] sm(2) unfolding doRead_def m
    by (cases q) (auto simp: Let_def io_failed_def reschedule_def bal split: sum.splits prod.splits option.splits if_splits dest!: put_task_buf_balance [where w = w and ev = ev and cr = cr and b = b1])
qed

lemma doWrite_balance:
  assumes "doWrite zm rcs t b v = Inr (ok, b', v')"
  shows "dev_balance w ev cr b' v' = dev_balance w ev cr b v + (if ok then tw w t else {#}) \<and> (calm b \<longrightarrow> calm b')"
proof -
  obtain q b0 where m: "stateMachine b = Inr (q, b0)" using assms by (cases "stateMachine b") (auto simp: doWrite_def)
  note sm = stateMachine_balance [OF m]
  show ?thesis
  proof (cases q)
    case True
    then show ?thesis using assms sm(1) [of w ev cr v] sm(2) unfolding doWrite_def m
      by (auto simp: bal split: sum.splits dest!: put_task_buf_balance [where w = w and ev = ev and cr = cr and b = b0])
  next
    case False
    let ?g = "if rq_loc (t_rqst t) = PMEM
       then map_sum id (\<lambda>(lba, b). (t\<lparr>t_freeLba := word_of_int lba\<rparr>, b)) (getFreeLba (rq_valueSize (t_rqst t)) b0) else Inr (t, b0)"
    obtain t1 b1 where g: "?g = Inr (t1, b1)"
      using assms False unfolding doWrite_def m by (cases ?g) (auto simp: Let_def)
    then have t1: "tw w t1 = tw w t" "dev_balance w ev cr b1 v = dev_balance w ev cr b v" "calm b \<longrightarrow> calm b1" "t_rqst t1 = t_rqst t"
      using sm(1) [of w ev cr v] sm(2) by (auto simp: getFreeLba_def map_sum_def bal split: if_splits sum.splits)
    show ?thesis using assms t1 False unfolding doWrite_def m
      by (auto simp: Let_def g io_failed_def reschedule_def bal split: sum.splits prod.splits option.splits if_splits)
  qed
qed

lemma finalizer_balance:
  assumes "ring_ok rd cr n"
  shows "dev_balance w ev cr (b\<lparr>finalizer := snd (poller_enqueue rd t (finalizer b))\<rparr>) v =
    dev_balance w ev cr b v + (if fst (poller_enqueue rd t (finalizer b)) then tw w t else {#})"
  using poller_enqueue_spec [OF assms, of t "finalizer b"] by (simp add: balance_simps)

text \<open>A removal on a device that has stopped returns the request to its pool, and reports that it was refused.\<close>

lemma doRemove_balance:
  assumes "ring_ok rd cr n" "doRemove alloc rd t b v = Inr (ok, b', v')"
  shows "(dev_balance w ev cr b' v' = dev_balance w ev cr b v + (if ok then tw w t else {#}) \<or>
     \<not> ok \<and> \<not> calm b \<and> dev_balance w ev cr b' v' = dev_balance w ev cr b v + ev (PoolPut OFFLOAD_REMOVE (rq_id (t_rqst t)))) \<and> (calm b \<longrightarrow> calm b')"
proof -
  obtain q b0 where m: "stateMachine b = Inr (q, b0)" using assms(2) by (cases "stateMachine b") (auto simp: doRemove_def)
  note sm = stateMachine_balance [OF m]
  show ?thesis
  proof (cases q)
    case True
    then show ?thesis using assms(2) sm(1) [of w ev cr v] sm(2) by (auto simp: doRemove_def m balance_simps log_def)
  next
    case False
    obtain a where a: "t_bdevAddr t = Some a" using assms(2) False by (auto simp: doRemove_def m split: option.splits)
    obtain b1 where b1: "putFreeLba alloc a (getAlignedSize (spBdevCtx b0) (rq_valueSize (t_rqst t))) b0 = Inr b1"
      using assms(2) a False by (auto simp: doRemove_def m split: sum.splits)
    obtain al where al: "b1 = b0\<lparr>lbaAllocator := al\<rparr>" using b1 by (auto simp: putFreeLba_def map_sum_def split: sum.splits)
    obtain ok' f where e: "poller_enqueue rd (t\<lparr>t_result := True\<rparr>) (finalizer b1) = (ok', f)" by fastforce
    then have r: "ok = ok'" "b' = b1\<lparr>finalizer := f\<rparr>" "v' = v"
      using assms(2) a b1 False by (simp_all add: doRemove_def m)
    show ?thesis using finalizer_balance [OF assms(1), where b = b1 and t = "t\<lparr>t_result := True\<rparr>" and v = v and w = w and ev = ev] sm(1) [of w ev cr v] sm(2) e
      by (simp add: r al bal)
  qed
qed

lemma bdev_op_balance:
  assumes "ring_ok rd cr n"
  shows "bdev_read zm rcs rd t b v = Inr (ok, b', v') \<Longrightarrow>
      dev_balance w ev cr b' v' = dev_balance w ev cr b v + (if ok then tw w t else {#}) \<and> (calm b \<longrightarrow> calm b')"
    and "bdev_write zm rcs rd t b v = Inr (ok, b', v') \<Longrightarrow>
      dev_balance w ev cr b' v' = dev_balance w ev cr b v + (if ok then tw w t else {#}) \<and> (calm b \<longrightarrow> calm b')"
    and "bdev_remove alloc rd t b v = Inr (ok, b', v') \<Longrightarrow>
      (dev_balance w ev cr b' v' = dev_balance w ev cr b v + (if ok then tw w t else {#}) \<or>
       \<not> ok \<and> \<not> calm b \<and> dev_balance w ev cr b' v' = dev_balance w ev cr b v + ev (PoolPut OFFLOAD_REMOVE (rq_id (t_rqst t)))) \<and> (calm b \<longrightarrow> calm b')"
proof -
  note rt = route_balance [OF assms, of t b _ _ w ev v]
  show "bdev_read zm rcs rd t b v = Inr (ok, b', v') \<Longrightarrow>
      dev_balance w ev cr b' v' = dev_balance w ev cr b v + (if ok then tw w t else {#}) \<and> (calm b \<longrightarrow> calm b')"
    using rt doRead_balance [of zm rcs t b v ok b' v' w ev cr] by (cases "route rd t b") (auto simp: bdev_read_def simp del: split_paired_All)
  show "bdev_write zm rcs rd t b v = Inr (ok, b', v') \<Longrightarrow>
      dev_balance w ev cr b' v' = dev_balance w ev cr b v + (if ok then tw w t else {#}) \<and> (calm b \<longrightarrow> calm b')"
    using rt doWrite_balance [of zm rcs t b v ok b' v' w ev cr] by (cases "route rd t b") (auto simp: bdev_write_def simp del: split_paired_All)
  show "bdev_remove alloc rd t b v = Inr (ok, b', v') \<Longrightarrow>
      (dev_balance w ev cr b' v' = dev_balance w ev cr b v + (if ok then tw w t else {#}) \<or>
       \<not> ok \<and> \<not> calm b \<and> dev_balance w ev cr b' v' = dev_balance w ev cr b v + ev (PoolPut OFFLOAD_REMOVE (rq_id (t_rqst t)))) \<and> (calm b \<longrightarrow> calm b')"
    using rt doRemove_balance [OF assms, of alloc t b v ok b' v' w ev] by (cases "route rd t b") (fastforce simp: bdev_remove_def)+
qed

section \<open>Runs of the threads\<close>

text \<open>
  The steps of the threads in any order: clients add requests, the three threads take their turns, SPDK ends accepted calls
  and calls waiting tasks back, and someone may ask the device to stop or to abort; what SPDK answers is new in every step. The
  lists are the requests accepted and the requests lost: SPDK ends a call while the ring of the finalizer is full, and the code
  does not look at the result of \<open>enqueue\<close> there. The truth value says whether the device was asked to stop.
\<close>

inductive sys_step ::
  "('q, 'r) outside \<Rightarrow> ('r \<Rightarrow> task list) \<Rightarrow> nat \<Rightarrow> ('q, 'r) offload_sys \<Rightarrow> rqst list \<Rightarrow> rqst list \<Rightarrow> bool \<Rightarrow> ('q, 'r) offload_sys \<Rightarrow> bool"
  for x cr n where
  request: "offload_enqueue x r s = (True, s') \<Longrightarrow> sys_step x cr n s [r] [] False s'"
| refused: "offload_enqueue x r s = (False, s') \<Longrightarrow> sys_step x cr n s [] [] False s'"
| poll: "spdkCoreMainLoop (x\<lparr>spdk_rc := rc\<rparr>) running leaves s = Inr (ret, s') \<Longrightarrow> sys_step x cr n s [] [] False s'"
| io: "ioEngineIoFunction (x\<lparr>spdk_rc := rc\<rparr>) s = Inr s' \<Longrightarrow> sys_step x cr n s [] [] False s'"
| finish: "fin_turn x s = Inr s' \<Longrightarrow> sys_step x cr n s [] [] False s'"
| complete: "k < length (inflight (sys_env s)) \<Longrightarrow> t = io_task (inflight (sys_env s) ! k) \<Longrightarrow> dev_complete x k success data s = Inr s' \<Longrightarrow>
    sys_step x cr n s [] (if length (cr (rqstRing (finalizer (sys_dev s)))) < n \<or> t_op t = OFFLOAD_NONE then [] else [t_rqst t]) False s'"
| retry: "k < length (ioWaits (sys_env s)) \<Longrightarrow> dev_retry rcs k s = Inr s' \<Longrightarrow> sys_step x cr n s [] [] False s'"
| quiesce: "sys_step x cr n s [] [] True (s\<lparr>sys_dev := IOQuiesce (sys_dev s)\<rparr>)"
| abort: "sys_step x cr n s [] [] True (s\<lparr>sys_dev := IOAbort (sys_dev s)\<rparr>)"

inductive sys_run ::
  "('q, 'r) outside \<Rightarrow> ('r \<Rightarrow> task list) \<Rightarrow> nat \<Rightarrow> ('q, 'r) offload_sys \<Rightarrow> rqst list \<Rightarrow> rqst list \<Rightarrow> bool \<Rightarrow> ('q, 'r) offload_sys \<Rightarrow> bool"
  for x cr n where
  stop: "sys_run x cr n s [] [] False s"
| go: "sys_step x cr n s rs ls q s' \<Longrightarrow> sys_run x cr n s' rs' ls' q' s'' \<Longrightarrow> sys_run x cr n s (rs @ rs') (ls @ ls') (q \<or> q') s''"

lemma sum_drop_nth: "k < length xs \<Longrightarrow> (\<Sum>y\<leftarrow>xs. f y) = (\<Sum>y\<leftarrow>drop_nth k xs. f y) + (f (xs ! k) :: 'b :: comm_monoid_add)"
  by (subst id_take_nth_drop [of k xs]) (simp_all add: drop_nth_def ac_simps)

lemma drop_inflight_balance:
  "k < length (inflight v) \<Longrightarrow>
    dev_balance w ev cr b v = dev_balance w ev cr b (v\<lparr>inflight := drop_nth k (inflight v)\<rparr>) + tw w (io_task (inflight v ! k))"
  "k < length (ioWaits v) \<Longrightarrow>
    dev_balance w ev cr b v = dev_balance w ev cr b (v\<lparr>ioWaits := drop_nth k (ioWaits v)\<rparr>) + tw w (ioWaits v ! k)"
  using sum_drop_nth [of k "map io_task (inflight v)" "tw w"] sum_drop_nth [of k "ioWaits v" "tw w"]
  by (simp_all add: balance_simps drop_nth_def take_map drop_map ac_simps)

lemma complete_task_balance:
  assumes "ring_ok rd cr n" "complete_task rd ok t b v = Inr (b', v')"
  shows "dev_balance w ev cr b' v' = dev_balance w ev cr b v + (if length (cr (rqstRing (finalizer b))) < n then tw w t else {#}) \<and> (calm b \<longrightarrow> calm b')"
proof -
  obtain q b1 where m: "stateMachine b = Inr (q, b1)" using assms(2) by (cases "stateMachine b") (auto simp: complete_task_def)
  note sm = stateMachine_balance [OF m]
  have "fst (poller_enqueue rd (t\<lparr>t_result := ok\<rparr>) (finalizer b1)) \<longleftrightarrow> length (cr (rqstRing (finalizer b))) < n"
    using poller_enqueue_spec [OF assms(1), of "t\<lparr>t_result := ok\<rparr>" "finalizer b1"] sm(3) by (auto split: if_splits)
  then show ?thesis using assms(2) sm(1) [of w ev cr v] sm(2) finalizer_balance [OF assms(1), where w = w and ev = ev and b = b1 and t = "t\<lparr>t_result := ok\<rparr>" and v = v]
    by (auto simp: complete_task_def m bal)
qed

lemma upd_stats_finalizer: "finalizer (upd_stats f b) = finalizer b"
  by (simp add: upd_stats_def)

lemma dev_complete_balance:
  assumes x: "ring_ok (task_ring x) cr n" and k: "k < length (inflight (sys_env s))" and p: "dev_complete x k success data s = Inr s'"
  shows "balance w ev cq cr s' + (if length (cr (rqstRing (finalizer (sys_dev s)))) < n then {#} else tw w (io_task (inflight (sys_env s) ! k))) =
    balance w ev cq cr s \<and> (calm (sys_dev s) \<longrightarrow> calm (sys_dev s'))"
proof -
  define v where "v = (sys_env s)\<lparr>inflight := drop_nth k (inflight (sys_env s))\<rparr>"
  define t where "t = io_task (inflight (sys_env s) ! k)"
  obtain b1 v1 b' v' where r: "complete_task (task_ring x) success t b1 v1 = Inr (b', v')" "s' = s\<lparr>sys_dev := b', sys_env := v'\<rparr>"
     and b1: "calm (sys_dev s) \<longrightarrow> calm b1" "finalizer b1 = finalizer (sys_dev s)" "dev_balance w ev cr b1 v1 = dev_balance w ev cr (sys_dev s) v"
    using p
    by (auto simp: dev_complete_def Let_def v_def [symmetric] t_def [symmetric] writeComplete_def readComplete_def put_task_buf_def
          bal upd_stats_finalizer split: io_kind.splits sum.splits option.splits prod.splits if_splits)
  show ?thesis
    using complete_task_balance [OF x r(1), of w ev] b1 r(2) drop_inflight_balance(1) [OF k, of w ev cr "sys_dev s"]
    by (auto simp: balance_def v_def t_def ac_simps)
qed

lemma writeQueueIoWait_balance:
  assumes "writeQueueIoWait rcs t b v = Inr (b', v')"
  shows "dev_balance w ev cr b' v' = dev_balance w ev cr b v + tw w t \<and> calm b' = calm b"
  using assms by (auto simp: writeQueueIoWait_def bal split: option.splits if_splits)

lemma dev_retry_balance:
  assumes k: "k < length (ioWaits (sys_env s))" and p: "dev_retry rcs k s = Inr s'"
  shows "balance w ev cq cr s' = balance w ev cq cr s \<and> calm (sys_dev s') = calm (sys_dev s)"
proof -
  define v where "v = (sys_env s)\<lparr>ioWaits := drop_nth k (ioWaits (sys_env s))\<rparr>"
  obtain b' v' where r: "writeQueueIoWait rcs (ioWaits (sys_env s) ! k) (sys_dev s) v = Inr (b', v')" "s' = s\<lparr>sys_dev := b', sys_env := v'\<rparr>"
    using p by (auto simp: dev_retry_def Let_def map_sum_Inr v_def)
  then show ?thesis using drop_inflight_balance(2) [OF k, of w ev cr "sys_dev s"] writeQueueIoWait_balance [OF r(1), of w ev cr]
    by (simp add: balance_def v_def)
qed

lemma offload_enqueue_balance:
  assumes "ring_ok (rq_ring x) cq m" "offload_enqueue x r s = (ok, s')"
  shows "balance w ev cq cr s' = balance w ev cq cr s + (if ok then rw w r else {#}) \<and> sys_dev s' = sys_dev s"
  using assms(2) poller_enqueue_spec [OF assms(1), of r "sys_poller s"]
  by (auto simp: offload_enqueue_def balance_def ac_simps split: prod.splits)

lemma stop_balance:
  "balance w ev cq cr (s\<lparr>sys_dev := IOQuiesce (sys_dev s)\<rparr>) = balance w ev cq cr s"
  "balance w ev cq cr (s\<lparr>sys_dev := IOAbort (sys_dev s)\<rparr>) = balance w ev cq cr s"
  "balance w ev cq cr (s\<lparr>sys_dev := (sys_dev s)\<lparr>isRunning := i\<rparr>\<rparr>) = balance w ev cq cr s" "calm (b\<lparr>isRunning := i\<rparr>) = calm b"
  by (simp_all add: balance_def balance_simps IOQuiesce_def IOAbort_def)

section \<open>Weights\<close>

text \<open>\<open>rel\<close> compares what a step leaves with what was there before. With \<open>strict\<close> it is used on devices that are not asked to stop;
  without it, it has to allow that a request goes back to its pool without a callback, and once too often.\<close>

locale request_account =
  fixes w :: "rqst \<Rightarrow> 'a multiset" and ev :: "event \<Rightarrow> 'a multiset" and rel :: "'a multiset \<Rightarrow> 'a multiset \<Rightarrow> bool" and strict :: bool
  assumes w_size: "w (r\<lparr>rq_valueSize := n\<rparr>) = w r"
    and w_answer: "(\<Sum>e\<leftarrow>rqstClb r st @ [PoolPut pool (rq_id r)]. ev e) = w r"
    and w_task: "(\<Sum>e\<leftarrow>taskClb t st val @ [PoolPut pool (rq_id (t_rqst t))]. ev e) = w (t_rqst t)"
    and rel_refl: "rel a a"
    and rel_trans: "rel a b \<Longrightarrow> rel b c \<Longrightarrow> rel a c"
    and rel_add: "rel a b \<Longrightarrow> rel (a + c) (b + c)"
    and w_dropped: "\<not> strict \<Longrightarrow> rel (ev (PoolPut pool (rq_id r))) (w r)"
    and w_extra: "\<not> strict \<Longrightarrow> rel (ev (PoolPut pool i)) {#}"
begin

lemma rel_seq: "rel b (a + x) \<Longrightarrow> rel c (b + y) \<Longrightarrow> rel c (a + (x + y))"
  using rel_trans [of c "b + y" "a + x + y"] rel_add [of b "a + x" y] by (simp add: add.assoc)

lemma rel_add_left: "rel a b \<Longrightarrow> rel (c + a) (c + b)"
  using rel_add [of a b c] by (simp add: add.commute)

lemma balance_log: "balance w ev cq cr (log_sys es s) = balance w ev cq cr s + (\<Sum>e\<leftarrow>es. ev e)"
  by (simp add: balance_def balance_simps log_sys_def log_def)

lemma balance_answer:
  "balance w ev cq cr (answer r st pool s) = balance w ev cq cr s + w r" "sys_dev (answer r st pool s) = sys_dev s"
proof -
  have "answer r st pool s = log_sys (rqstClb r st @ [PoolPut pool (rq_id r)]) s" by (simp add: answer_def log_sys_def)
  then show "balance w ev cq cr (answer r st pool s) = balance w ev cq cr s + w r"
    by (simp only: balance_log w_answer)
qed (simp add: answer_def)

lemma submit_balance:
  assumes p: "submit r pool res s = Inr s'" and c: "strict \<longrightarrow> calm (sys_dev s)"
    and d: "\<And>ok b v. res = Inr (ok, b, v) \<Longrightarrow>
      (dev_balance w ev cr b v = dev_balance w ev cr (sys_dev s) (sys_env s) + (if ok then w r else {#}) \<or>
       \<not> ok \<and> \<not> calm (sys_dev s) \<and> dev_balance w ev cr b v = dev_balance w ev cr (sys_dev s) (sys_env s) + ev (PoolPut pool i)) \<and>
      (calm (sys_dev s) \<longrightarrow> calm b)"
  shows "rel (balance w ev cq cr s') (balance w ev cq cr s + w r) \<and> (strict \<longrightarrow> calm (sys_dev s'))"
proof (cases res)
  case (Inr a)
  obtain ok b v where a: "a = (ok, b, v)" by (cases a) auto
  define s1 where "s1 = s\<lparr>sys_dev := b, sys_env := v\<rparr>"
  define D where "D = dev_balance w ev cr (sys_dev s) (sys_env s)"
  have s': "s' = (if ok then s1 else answer r UNKNOWN_ERROR pool s1)" using p Inr a by (auto simp: submit_def s1_def Let_def)
  then have cl: "strict \<longrightarrow> calm (sys_dev s')" using d [of ok b v] Inr a c by (auto simp: balance_answer s1_def)
  have b1: "balance w ev cq cr s1 + D = balance w ev cq cr s + dev_balance w ev cr b v" by (simp add: balance_def s1_def D_def ac_simps)
  from d [of ok b v] Inr a consider (exact) "dev_balance w ev cr b v = D + (if ok then w r else {#})"
    | (extra) "\<not> ok" "\<not> calm (sys_dev s)" "dev_balance w ev cr b v = D + ev (PoolPut pool i)" by (auto simp: D_def)
  then show ?thesis
  proof cases
    case exact
    then have "balance w ev cq cr s' = balance w ev cq cr s + w r" using b1 by (cases ok) (simp_all add: s' balance_answer ac_simps)
    then show ?thesis using cl by (simp add: rel_refl)
  next
    case extra
    then have "balance w ev cq cr s' = (balance w ev cq cr s + w r) + ev (PoolPut pool i)" using b1 by (simp add: s' balance_answer ac_simps)
    then show ?thesis using cl rel_add_left [OF w_extra, of "balance w ev cq cr s + w r" pool i] extra(2) c by auto
  qed
qed (use p in \<open>simp add: submit_def\<close>)

lemma poller_process1_balance:
  assumes x: "ring_ok (task_ring x) cr n" and c: "strict \<longrightarrow> calm (sys_dev s)" and p: "poller_process1 x rcs r s = Inr s'"
  shows "rel (balance w ev cq cr s') (balance w ev cq cr s + rw w r) \<and> (strict \<longrightarrow> calm (sys_dev s'))"
proof (cases "rq_op r")
  case OFFLOAD_NONE
  then show ?thesis using p c by (simp add: poller_process1_def rw_def rel_refl)
next
  case OFFLOAD_GET
  note bd = bdev_op_balance(1) [OF x]
  have rw: "rw w r = w r" by (simp add: rw_def OFFLOAD_GET)
  from p consider st where "s' = answer r st OFFLOAD_GET s"
    | sz t where "submit (r\<lparr>rq_valueSize := sz\<rparr>) OFFLOAD_GET (bdev_read (dma x) rcs (task_ring x) t (sys_dev s) (sys_env s)) s = Inr s'"
        "t_op t = OFFLOAD_GET" "t_rqst t = r\<lparr>rq_valueSize := sz\<rparr>"
    by (auto simp: poller_process1_def OFFLOAD_GET poller_processGet_def Let_def new_task_def split: sum.splits if_splits prod.splits)
  then show ?thesis
  proof cases
    case 1
    then show ?thesis using c by (simp add: balance_answer rw rel_refl)
  next
    case 2
    then have "tw w t = w (r\<lparr>rq_valueSize := sz\<rparr>)" by (simp add: tw_def)
    then show ?thesis using submit_balance [OF 2(1) c, of cr] bd [of "dma x" rcs t "sys_dev s" "sys_env s" _ _ _ w ev] by (simp add: w_size rw)
  qed
next
  case OFFLOAD_UPDATE
  note bd = bdev_op_balance(2) [OF x]
  have rw: "rw w r = w r" by (simp add: rw_def OFFLOAD_UPDATE)
  from p consider st where "s' = answer r st OFFLOAD_UPDATE s"
    | t where "submit r OFFLOAD_UPDATE (bdev_write (dma x) rcs (task_ring x) t (sys_dev s) (sys_env s)) s = Inr s'"
        "t_op t = OFFLOAD_UPDATE" "t_rqst t = r"
    by (auto simp: poller_process1_def OFFLOAD_UPDATE poller_processUpdate_def Let_def new_task_def split: sum.splits if_splits prod.splits)
  then show ?thesis
  proof cases
    case 1
    then show ?thesis using c by (simp add: balance_answer rw rel_refl)
  next
    case 2
    then have "tw w t = w r" by (simp add: tw_def)
    then show ?thesis using submit_balance [OF 2(1) c, of cr] bd [of "dma x" rcs t "sys_dev s" "sys_env s" _ _ _ w ev] by (simp add: rw)
  qed
next
  case OFFLOAD_REMOVE
  note bd = bdev_op_balance(3) [OF x]
  have rw: "rw w r = w r" by (simp add: rw_def OFFLOAD_REMOVE)
  from p consider st where "s' = answer r st OFFLOAD_REMOVE s"
    | t where "submit r OFFLOAD_REMOVE (bdev_remove (lba_alloc x) (task_ring x) t (sys_dev s) (sys_env s)) s = Inr s'"
        "t_op t = OFFLOAD_REMOVE" "t_rqst t = r"
    by (auto simp: poller_process1_def OFFLOAD_REMOVE poller_processRemove_def new_task_def map_sum_Inr split: sum.splits if_splits prod.splits)
  then show ?thesis
  proof cases
    case 1
    then show ?thesis using c by (simp add: balance_answer rw rel_refl)
  next
    case 2
    then have tw: "tw w t = w r" by (simp add: tw_def)
    then show ?thesis using submit_balance [OF 2(1) c bd [where w = w and ev = ev and t = t, unfolded tw]] by (simp add: rw)
  qed
qed

lemma engine_process1_balance:
  assumes x: "ring_ok (task_ring x) cr n" and c: "strict \<longrightarrow> calm (sys_dev s)" and p: "engine_process1 x rcs t s = Inr s'"
  shows "rel (balance w ev cq cr s') (balance w ev cq cr s + tw w t) \<and> (strict \<longrightarrow> calm (sys_dev s'))"
proof -
  let ?t = "t\<lparr>t_routing := False\<rparr>"
  note bd = bdev_op_balance [OF x]
  show ?thesis
  proof (cases "t_op t")
    case OFFLOAD_NONE
    then show ?thesis using p c by (simp add: engine_process1_def tw_def rel_refl)
  next
    case OFFLOAD_GET
    then have tw: "tw w ?t = w (t_rqst t)" "tw w t = w (t_rqst t)" by (simp_all add: tw_def)
    show ?thesis using p submit_balance [of "t_rqst t" OFFLOAD_GET "bdev_read (dma x) rcs (task_ring x) ?t (sys_dev s) (sys_env s)" s s' cr]
      bd(1) [of "dma x" rcs ?t "sys_dev s" "sys_env s" _ _ _ w ev] tw c by (simp add: engine_process1_def OFFLOAD_GET)
  next
    case OFFLOAD_UPDATE
    then have tw: "tw w ?t = w (t_rqst t)" "tw w t = w (t_rqst t)" by (simp_all add: tw_def)
    show ?thesis using p submit_balance [of "t_rqst t" OFFLOAD_UPDATE "bdev_write (dma x) rcs (task_ring x) ?t (sys_dev s) (sys_env s)" s s' cr]
      bd(2) [of "dma x" rcs ?t "sys_dev s" "sys_env s" _ _ _ w ev] tw c by (simp add: engine_process1_def OFFLOAD_UPDATE)
  next
    case OFFLOAD_REMOVE
    then have tw: "tw w ?t = w (t_rqst t)" "tw w t = w (t_rqst t)" by (simp_all add: tw_def)
    have "submit (t_rqst t) OFFLOAD_REMOVE (bdev_remove (lba_alloc x) (task_ring x) ?t (sys_dev s) (sys_env s)) s = Inr s'"
      using p by (simp add: engine_process1_def OFFLOAD_REMOVE)
    from submit_balance [OF this c bd(3) [where w = w and ev = ev and t = ?t, unfolded tw]] show ?thesis using tw by simp
  qed
qed

lemma balance_tree: "balance w ev cq cr (s\<lparr>sys_tree := tr\<rparr>) = balance w ev cq cr s"
  by (simp add: balance_def)

lemma fin_processGet_balance:
  assumes "t_op t = OFFLOAD_GET" "fin_processGet t s = Inr s'"
  shows "balance w ev cq cr s' = balance w ev cq cr s + tw w t \<and> calm (sys_dev s') = calm (sys_dev s)"
proof -
  obtain st val v where v: "put_task_buf putIoReadBuf t (log (taskClb t st val) (sys_env s)) = Inr v"
     "s' = s\<lparr>sys_dev := (sys_dev s)\<lparr>ioBufsInUse := ioBufsInUse (sys_dev s) - 1\<rparr>, sys_env := log [PoolPut OFFLOAD_GET (rq_id (t_rqst t))] v\<rparr>"
    using assms(2) by (auto simp: fin_processGet_def Let_def split: option.splits sum.splits if_splits)
  obtain m where m: "v = (log (taskClb t st val) (sys_env s))\<lparr>bufMgr := m\<rparr>"
    using v(1) by (cases "t_buff t") (auto simp: put_task_buf_def split: sum.splits intro: that [of "bufMgr v"])
  have "balance w ev cq cr s' = balance w ev cq cr s + (\<Sum>e\<leftarrow>taskClb t st val @ [PoolPut OFFLOAD_GET (rq_id (t_rqst t))]. ev e)"
    by (simp add: balance_def balance_simps v(2) m log_def)
  then show ?thesis using w_task [of t st val OFFLOAD_GET] assms(1) v(2) by (simp add: tw_def bal)
qed

lemma fin_done_balance:
  assumes "t_op t \<noteq> OFFLOAD_NONE"
  shows "balance w ev cq cr (log_sys (taskClb t st val @ [PoolPut pool (rq_id (t_rqst t))]) s) = balance w ev cq cr s + tw w t"
  using assms by (simp only: balance_log w_task) (simp add: tw_def)

lemma fin_ready_balance:
  assumes f: "fin_state (sys_dev s) = FP_READY" and p: "fin_process1 x t s = Inr s'"
  shows "balance w ev cq cr s' = balance w ev cq cr s + tw w t \<and> calm (sys_dev s') = calm (sys_dev s)"
proof (cases "t_op t")
  case OFFLOAD_NONE
  then show ?thesis using p by (simp add: fin_process1_def tw_def)
next
  case OFFLOAD_GET
  then show ?thesis using p f fin_processGet_balance [OF OFFLOAD_GET, of s s' cq cr] by (simp add: fin_process1_def)
next
  case OFFLOAD_UPDATE
  obtain st s1 where "s' = log_sys (taskClb t st None @ [PoolPut OFFLOAD_UPDATE (rq_id (t_rqst t))]) s1"
     "sys_dev s1 = sys_dev s" "balance w ev cq cr s1 = balance w ev cq cr s"
    using p OFFLOAD_UPDATE f
    by (auto simp: fin_process1_def fin_processUpdate_def Let_def balance_tree simp del: split_paired_Ex split: if_splits prod.splits sum.splits)
  then show ?thesis using OFFLOAD_UPDATE by (simp add: fin_done_balance log_sys_dev)
next
  case OFFLOAD_REMOVE
  obtain st s1 where "s' = log_sys (taskClb t st None @ [PoolPut OFFLOAD_REMOVE (rq_id (t_rqst t))]) s1"
     "sys_dev s1 = sys_dev s" "balance w ev cq cr s1 = balance w ev cq cr s"
    using p OFFLOAD_REMOVE f
    by (auto simp: fin_process1_def fin_processRemove_def Let_def balance_tree simp del: split_paired_Ex split: if_splits prod.splits sum.splits)
  then show ?thesis using OFFLOAD_REMOVE by (simp add: fin_done_balance log_sys_dev)
qed

lemma fin_process1_balance:
  assumes c: "strict \<longrightarrow> calm (sys_dev s)" and p: "fin_process1 x t s = Inr s'"
  shows "rel (balance w ev cq cr s') (balance w ev cq cr s + tw w t) \<and> (strict \<longrightarrow> calm (sys_dev s'))"
proof (cases "fin_state (sys_dev s) = FP_READY \<or> t_op t = OFFLOAD_NONE")
  case True
  then have "balance w ev cq cr s' = balance w ev cq cr s + tw w t \<and> calm (sys_dev s') = calm (sys_dev s)"
    using fin_ready_balance [OF _ p] p by (auto simp: fin_process1_def tw_def)
  then show ?thesis using c by (simp add: rel_refl)
next
  case False
  then have "\<not> strict" using c calm_fin by blast
  moreover have "s' = log_sys [PoolPut (t_op t) (rq_id (t_rqst t))] s" using p False by (simp add: fin_process1_def)
  ultimately show ?thesis using rel_add_left [OF w_dropped [of "t_op t" "t_rqst t"]] False by (simp add: balance_log tw_def)
qed

lemma loops_balance:
  assumes x: "ring_ok (task_ring x) cr n"
  shows "strict \<longrightarrow> calm (sys_dev s) \<Longrightarrow> poller_loop x k rs s = Inr s' \<Longrightarrow>
      rel (balance w ev cq cr s') (balance w ev cq cr s + (\<Sum>r\<leftarrow>rs. rw w r)) \<and> (strict \<longrightarrow> calm (sys_dev s'))"
    and "strict \<longrightarrow> calm (sys_dev s) \<Longrightarrow> engine_loop x k ts s = Inr s' \<Longrightarrow>
      rel (balance w ev cq cr s') (balance w ev cq cr s + (\<Sum>t\<leftarrow>ts. tw w t)) \<and> (strict \<longrightarrow> calm (sys_dev s'))"
    and "strict \<longrightarrow> calm (sys_dev s) \<Longrightarrow> fin_loop x ts s = Inr s' \<Longrightarrow>
      rel (balance w ev cq cr s') (balance w ev cq cr s + (\<Sum>t\<leftarrow>ts. tw w t)) \<and> (strict \<longrightarrow> calm (sys_dev s'))"
proof -
  show "strict \<longrightarrow> calm (sys_dev s) \<Longrightarrow> poller_loop x k rs s = Inr s' \<Longrightarrow>
      rel (balance w ev cq cr s') (balance w ev cq cr s + (\<Sum>r\<leftarrow>rs. rw w r)) \<and> (strict \<longrightarrow> calm (sys_dev s'))"
  proof (induction rs arbitrary: k s)
    case (Cons r rs)
    then obtain s1 where s1: "poller_process1 x (spdk_rc x k) r s = Inr s1" "poller_loop x (k + 1) rs s1 = Inr s'"
      by (auto split: sum.splits)
    note b = poller_process1_balance [OF x Cons.prems(1) s1(1), of cq]
    show ?case using rel_seq [OF conjunct1 [OF b]] Cons.IH [OF conjunct2 [OF b] s1(2)] by simp
  qed (simp add: rel_refl)
  show "strict \<longrightarrow> calm (sys_dev s) \<Longrightarrow> engine_loop x k ts s = Inr s' \<Longrightarrow>
      rel (balance w ev cq cr s') (balance w ev cq cr s + (\<Sum>t\<leftarrow>ts. tw w t)) \<and> (strict \<longrightarrow> calm (sys_dev s'))"
  proof (induction ts arbitrary: k s)
    case (Cons t ts)
    then obtain s1 where s1: "engine_process1 x (spdk_rc x k) t s = Inr s1" "engine_loop x (k + 1) ts s1 = Inr s'"
      by (auto split: sum.splits)
    note b = engine_process1_balance [OF x Cons.prems(1) s1(1), of cq]
    show ?case using rel_seq [OF conjunct1 [OF b]] Cons.IH [OF conjunct2 [OF b] s1(2)] by simp
  qed (simp add: rel_refl)
  show "strict \<longrightarrow> calm (sys_dev s) \<Longrightarrow> fin_loop x ts s = Inr s' \<Longrightarrow>
      rel (balance w ev cq cr s') (balance w ev cq cr s + (\<Sum>t\<leftarrow>ts. tw w t)) \<and> (strict \<longrightarrow> calm (sys_dev s'))"
  proof (induction ts arbitrary: s)
    case (Cons t ts)
    then obtain s1 where s1: "fin_process1 x t s = Inr s1" "fin_loop x ts s1 = Inr s'" by (auto split: sum.splits)
    note b = fin_process1_balance [OF Cons.prems(1) s1(1), of cq cr]
    show ?case using rel_seq [OF conjunct1 [OF b]] Cons.IH [OF conjunct2 [OF b] s1(2)] by simp
  qed (simp add: rel_refl)
qed

lemma poller_turn_balance:
  assumes x: "ring_ok (task_ring x) cr n" "ring_ok (rq_ring x) cq m"
    and c: "strict \<longrightarrow> calm (sys_dev s)" and p: "poller_turn x s = Inr s'"
  shows "rel (balance w ev cq cr s') (balance w ev cq cr s) \<and> (strict \<longrightarrow> calm (sys_dev s'))"
proof -
  define p1 where "p1 = poller_dequeue (rq_ring x) DEQUEUE_RING_LIMIT (sys_poller s)"
  obtain s1 where s1: "poller_loop x 0 (requests p1) (s\<lparr>sys_poller := p1\<rparr>) = Inr s1" "s' = s1\<lparr>sys_poller := (sys_poller s1)\<lparr>requests := []\<rparr>\<rparr>"
    using p by (auto simp: poller_turn_def poller_process_def p1_def map_sum_Inr)
  have "cq (rqstRing (sys_poller s)) = requests p1 @ cq (rqstRing p1)"
    using poller_dequeue_spec [OF x(2), of DEQUEUE_RING_LIMIT "sys_poller s"] by (auto simp: p1_def DEQUEUE_RING_LIMIT_def)
  then have "balance w ev cq cr s = balance w ev cq cr (s\<lparr>sys_poller := p1\<rparr>) + (\<Sum>r\<leftarrow>requests p1. rw w r)"
    by (simp add: balance_def ac_simps)
  moreover have "balance w ev cq cr s' = balance w ev cq cr s1" by (simp add: s1(2) balance_def)
  ultimately show ?thesis using loops_balance(1) [OF x(1) _ s1(1), of cq] c s1(2) by simp
qed

lemma core_turn_balance:
  assumes x: "ring_ok (task_ring x) cr n" "ring_ok (rq_ring x) cq m"
    and c: "strict \<longrightarrow> calm (sys_dev s)" and p: "spdkCoreMainLoop x running leaves s = Inr (ret, s')"
  shows "rel (balance w ev cq cr s') (balance w ev cq cr s) \<and> (strict \<longrightarrow> calm (sys_dev s'))"
proof -
  obtain s1 where s1: "poller_turn x s = Inr s1" "s' = s1 \<or> s' = s1\<lparr>sys_dev := (sys_dev s1)\<lparr>isRunning := 0\<rparr>\<rparr>"
    using p by (auto simp: spdkCoreMainLoop_def split: sum.splits if_splits)
  then show ?thesis using poller_turn_balance [OF x c s1(1)] by (auto simp: stop_balance)
qed

lemma engine_turn_balance:
  assumes x: "ring_ok (task_ring x) cr n" and c: "strict \<longrightarrow> calm (sys_dev s)" and p: "ioEngineIoFunction x s = Inr s'"
  shows "rel (balance w ev cq cr s') (balance w ev cq cr s) \<and> (strict \<longrightarrow> calm (sys_dev s'))"
proof (cases "isRunning (sys_dev s) \<noteq> 0 \<and> canQueue (sys_dev s) \<noteq> 0")
  case False
  then show ?thesis using p c by (auto simp: ioEngineIoFunction_def Let_def rel_refl split: if_splits)
next
  case True
  define k where "k = unat (canQueue (sys_dev s))"
  obtain e where e: "ioEngine (sys_dev s) = Some e"
    using p True by (auto simp: ioEngineIoFunction_def Let_def engine_process_def split: option.splits)
  define e1 where "e1 = poller_dequeue (task_ring x) k e"
  define s0 where "s0 = s\<lparr>sys_dev := (sys_dev s)\<lparr>ioEngine := Some e1\<rparr>\<rparr>"
  obtain s1 where s1: "engine_loop x 0 (requests e1) s0 = Inr s1"
      "s' = s1\<lparr>sys_dev := (sys_dev s1)\<lparr>ioEngine := map_option (\<lambda>e. e\<lparr>requests := []\<rparr>) (ioEngine (sys_dev s1))\<rparr>\<rparr>"
    using p True by (auto simp: ioEngineIoFunction_def Let_def engine_process_def e e1_def s0_def k_def map_sum_Inr)
  have "cr (rqstRing e) = requests e1 @ cr (rqstRing e1)"
    using poller_dequeue_spec [OF x, of k e] True by (simp add: e1_def k_def unat_gt_0)
  then have "balance w ev cq cr s = balance w ev cq cr s0 + (\<Sum>t\<leftarrow>requests e1. tw w t)"
    by (simp add: balance_def balance_simps e s0_def ac_simps)
  moreover have "strict \<longrightarrow> calm (sys_dev s0)" using c by (simp add: s0_def bal)
  moreover have "balance w ev cq cr s' = balance w ev cq cr s1"
    by (cases "ioEngine (sys_dev s1)") (simp_all add: s1(2) balance_def balance_simps)
  ultimately show ?thesis using loops_balance(2) [OF x _ s1(1), of cq] s1(2) by (simp add: bal)
qed

lemma fin_turn_balance:
  assumes x: "ring_ok (task_ring x) cr n" and c: "strict \<longrightarrow> calm (sys_dev s)" and p: "fin_turn x s = Inr s'"
  shows "rel (balance w ev cq cr s') (balance w ev cq cr s) \<and> (strict \<longrightarrow> calm (sys_dev s'))"
proof (cases "isRunning (sys_dev s) = 3 \<or> isRunning (sys_dev s) = 0")
  case True
  then show ?thesis using p c by (auto simp: fin_turn_def rel_refl)
next
  case False
  define f where "f = poller_dequeue (task_ring x) DEQUEUE_RING_LIMIT (finalizer (sys_dev s))"
  define s0 where "s0 = s\<lparr>sys_dev := (sys_dev s)\<lparr>finalizer := f\<rparr>\<rparr>"
  have c0: "strict \<longrightarrow> calm (sys_dev s0)" using c by (simp add: s0_def bal)
  obtain s1 where s1: "fin_loop x (requests f) s0 = Inr s1"
      "s' = s1 \<or> s' = s1\<lparr>sys_dev := (sys_dev s1)\<lparr>finalizer := (finalizer (sys_dev s1))\<lparr>requests := []\<rparr>\<rparr>\<rparr>"
    using p False unfolding fin_turn_def fin_process_def f_def [symmetric] s0_def [symmetric]
    by (cases "requests f = []") (auto simp: s0_def map_sum_Inr split: if_splits)
  have "cr (rqstRing (finalizer (sys_dev s))) = requests f @ cr (rqstRing f)"
    using poller_dequeue_spec [OF x, of DEQUEUE_RING_LIMIT "finalizer (sys_dev s)"] by (auto simp: f_def DEQUEUE_RING_LIMIT_def)
  then have "balance w ev cq cr s = balance w ev cq cr s0 + (\<Sum>t\<leftarrow>requests f. tw w t)"
    by (simp add: balance_def balance_simps s0_def ac_simps)
  moreover have "balance w ev cq cr s' = balance w ev cq cr s1" using s1(2) by (auto simp: balance_def balance_simps)
  ultimately show ?thesis using loops_balance(3) [OF x c0 s1(1), of cq] s1(2) by (auto simp: bal)
qed

lemma sys_step_balance:
  assumes x: "ring_ok (task_ring x) cr n" "ring_ok (rq_ring x) cq m"
    and st: "sys_step x cr n s rs ls q s'" and c: "strict \<longrightarrow> calm (sys_dev s) \<and> \<not> q"
  shows "rel (balance w ev cq cr s' + (\<Sum>r\<leftarrow>ls. w r)) (balance w ev cq cr s + (\<Sum>r\<leftarrow>rs. rw w r)) \<and> (strict \<longrightarrow> calm (sys_dev s'))"
proof -
  have c': "strict \<longrightarrow> calm (sys_dev s)" using c by simp
  show ?thesis using st
  proof cases
    case (request r)
    then show ?thesis using offload_enqueue_balance [OF x(2) request(4), of w ev cr] c by (simp add: rel_refl)
  next
    case (refused r)
    then show ?thesis using offload_enqueue_balance [OF x(2) refused(4), of w ev cr] c by (simp add: rel_refl)
  next
    case (poll rc running leaves ret)
    then show ?thesis using core_turn_balance [OF _ _ c' poll(4)] x by simp
  next
    case (io rc)
    then show ?thesis using engine_turn_balance [OF _ c' io(4)] x by simp
  next
    case finish
    then show ?thesis using fin_turn_balance [OF x(1) c' finish(4)] by simp
  next
    case (complete k t success data)
    then show ?thesis using dev_complete_balance [OF x(1) complete(4,6), of w ev cq] c by (auto simp: tw_def rel_refl split: if_splits)
  next
    case (retry k rcs)
    then show ?thesis using dev_retry_balance [OF retry(4,5), of w ev cq cr] c by (simp add: rel_refl)
  qed (use c in \<open>auto simp: stop_balance rel_refl\<close>)
qed

lemma sys_run_balance:
  assumes x: "ring_ok (task_ring x) cr n" "ring_ok (rq_ring x) cq m"
    and "sys_run x cr n s rs ls q s'" "strict \<longrightarrow> calm (sys_dev s) \<and> \<not> q"
  shows "rel (balance w ev cq cr s' + (\<Sum>r\<leftarrow>ls. w r)) (balance w ev cq cr s + (\<Sum>r\<leftarrow>rs. rw w r))"
  using assms(3,4)
proof induction
  case (go s rs ls q s' rs' ls' q' s'')
  have a: "strict \<longrightarrow> calm (sys_dev s) \<and> \<not> q" using go.prems by simp
  note b = sys_step_balance [OF x go.hyps(1) a]
  have "rel (balance w ev cq cr s'' + (\<Sum>r\<leftarrow>ls'. w r)) (balance w ev cq cr s' + (\<Sum>r\<leftarrow>rs'. rw w r))" using go.IH b go.prems by simp
  from rel_trans [OF rel_add [OF this, of "\<Sum>r\<leftarrow>ls. w r"], of "balance w ev cq cr s + (\<Sum>r\<leftarrow>rs. rw w r) + (\<Sum>r\<leftarrow>rs'. rw w r)"]
    rel_add [OF conjunct1 [OF b], of "\<Sum>r\<leftarrow>rs'. rw w r"]
  show ?case by (simp add: ac_simps)
qed (simp add: rel_refl)

end

fun returned :: "event \<Rightarrow> nat multiset" where
  "returned (PoolPut pool i) = {#i#}"
| "returned (Callback c st k val) = {#}"

fun called :: "event \<Rightarrow> nat multiset" where
  "called (PoolPut pool i) = {#}"
| "called (Callback c st k val) = {#c#}"

definition id_weight :: "rqst \<Rightarrow> nat multiset" where
  "id_weight r = {#rq_id r#}"

definition clb_weight :: "rqst \<Rightarrow> nat multiset" where
  "clb_weight r = (case rq_clb r of None \<Rightarrow> {#} | Some c \<Rightarrow> {#c#})"

lemmas weight_simps = id_weight_def clb_weight_def rqstClb_def taskClb_def

interpretation by_id: request_account id_weight returned "(=)" True
  by unfold_locales (simp_all add: weight_simps split: option.splits)

interpretation by_clb: request_account clb_weight called "(=)" True
  by unfold_locales (simp_all add: weight_simps split: option.splits)

text \<open>On a device that may be asked to stop: no request disappears, and no callback is called twice.\<close>

interpretation id_kept: request_account id_weight returned "\<lambda>a b. b \<subseteq># a" False
  by unfold_locales (auto simp: weight_simps split: option.splits)

interpretation clb_once: request_account clb_weight called "(\<subseteq>#)" False
  by unfold_locales (auto simp: weight_simps split: option.splits)

section \<open>Properties\<close>

text \<open>The requests a system still holds: queued, or in a task of the device.\<close>

definition pending :: "('q \<Rightarrow> rqst list) \<Rightarrow> ('r \<Rightarrow> task list) \<Rightarrow> ('q, 'r) offload_sys \<Rightarrow> rqst list" where
  "pending cq cr s = [r \<leftarrow> cq (rqstRing (sys_poller s)). rq_op r \<noteq> OFFLOAD_NONE] @
     map t_rqst [t \<leftarrow> live_tasks cr (sys_dev s) (sys_env s). t_op t \<noteq> OFFLOAD_NONE]"

lemma sum_pending: "balance w ev cq cr s = (\<Sum>r\<leftarrow>pending cq cr s. w r) + (\<Sum>e\<leftarrow>trace (sys_env s). ev e)"
proof -
  have "(\<Sum>r\<leftarrow>rs. rw w r) = (\<Sum>r\<leftarrow>[r \<leftarrow> rs. rq_op r \<noteq> OFFLOAD_NONE]. w r)" for rs
    by (induction rs) (auto simp: rw_def)
  moreover have "(\<Sum>t\<leftarrow>ts. tw w t) = (\<Sum>r\<leftarrow>map t_rqst [t \<leftarrow> ts. t_op t \<noteq> OFFLOAD_NONE]. w r)" for ts
    by (induction ts) (auto simp: tw_def)
  ultimately show ?thesis by (simp add: balance_def dev_balance_def pending_def add.assoc)
qed

lemma sum_rw: "\<forall>r \<in> set rs. rq_op r \<noteq> OFFLOAD_NONE \<Longrightarrow> (\<Sum>r\<leftarrow>rs. rw w r) = (\<Sum>r\<leftarrow>rs. w r)"
  by (induction rs) (auto simp: rw_def)

lemma sum_ids: "(\<Sum>r\<leftarrow>rs. id_weight r) = mset (map rq_id rs)"
  by (induction rs) (auto simp: id_weight_def)

lemma sum_clbs: "(\<Sum>r\<leftarrow>rs. clb_weight r) = mset (List.map_filter rq_clb rs)"
  by (induction rs) (auto simp: clb_weight_def List.map_filter_def split: option.splits)


text \<open>A system over rings that are lists, with two requests: the update of a value on disk, and one without a value.\<close>

definition ex_outside :: "(rqst list, task list) outside" where
  "ex_outside = \<lparr>rq_ring = list_ring 64, task_ring = list_ring 64, dma = zeros, lba_alloc = (\<lambda>h. None), reserve = small_reserve,
     spdk_rc = (\<lambda>k. (0, 0)), stack_junk = 0\<rparr>"

definition ex_dev :: "task list SpdkBdev" where
  "ex_dev = \<lparr>spBdevCtx = ctx512, bdev_state = SPDK_BDEV_READY, IoState = BDEV_IO_INIT, stats = new_stats, isRunning = 1, maxIoBufs = 64,
     ioBufsInUse = 0, blkNumForLba = 8, lbaAllocator = \<lparr>lba_buckets = [], freeLbaList = new_free_list 1024\<rparr>,
     ioEngine = Some \<lparr>rqstRing = [], requests = []\<rparr>, finalizer = \<lparr>rqstRing = [], requests = []\<rparr>, fin_state = FP_READY\<rparr>"

definition ex_sys :: "(rqst list, task list) offload_sys" where
  "ex_sys = \<lparr>sys_tree = empty_tree, sys_poller = \<lparr>rqstRing = [], requests = []\<rparr>, sys_dev = ex_dev,
     sys_env = \<lparr>bufMgr = new_SpdkIoBufMgr (io_pools DefaultAllocStrategy 64), inflight = [], ioWaits = [], trace = []\<rparr>\<rparr>"

definition ex_rqst :: rqst where
  "ex_rqst = \<lparr>rq_id = 3, rq_op = OFFLOAD_UPDATE, rq_key = key1, rq_value = AddrBlock \<lparr>dev_lba = 5, busAddr = 0\<rparr>, rq_valueSize = 8,
     rq_clb = Some 7, rq_loc = DISK\<rparr>"

definition ex_rqst2 :: rqst where
  "ex_rqst2 = ex_rqst\<lparr>rq_id := 4, rq_clb := Some 8, rq_loc := EMPTY\<rparr>"

definition ex_run :: "exn + (rqst list, task list) offload_sys" where
  "ex_run = poller_turn ex_outside (snd (offload_enqueue ex_outside ex_rqst2
     (snd (offload_enqueue ex_outside ex_rqst ex_sys))))"

lemma ex_run_ok: "\<exists>s. ex_run = Inr s"
proof -
  have "\<not> isl ex_run" by code_simp
  then have "ex_run = Inr (projr ex_run)" by simp
  then show ?thesis by (rule exI)
qed

lemma ex_rings: "ring_ok (rq_ring ex_outside) id 64" "ring_ok (task_ring ex_outside) id 64"
  by (simp_all add: ex_outside_def list_ring_ok)

lemma ex_accepted:
  "fst (offload_enqueue ex_outside ex_rqst ex_sys)"
  "fst (offload_enqueue ex_outside ex_rqst2 (snd (offload_enqueue ex_outside ex_rqst ex_sys)))"
  by (simp_all add: offload_enqueue_def poller_enqueue_def ex_outside_def ex_sys_def list_ring_def)

lemma ex_sys_run:
  assumes "ex_run = Inr s"
  shows "sys_run ex_outside id 64 ex_sys [ex_rqst, ex_rqst2] [] True (s\<lparr>sys_dev := IOQuiesce (sys_dev s)\<rparr>)"
    and "sys_run ex_outside id 64 ex_sys [ex_rqst, ex_rqst2] [] False s"
proof -
  define s1 where "s1 = snd (offload_enqueue ex_outside ex_rqst ex_sys)"
  define s2 where "s2 = snd (offload_enqueue ex_outside ex_rqst2 s1)"
  have "spdkCoreMainLoop (ex_outside\<lparr>spdk_rc := spdk_rc ex_outside\<rparr>) True True s2 = Inr (0, s)"
    using assms by (simp add: ex_run_def s1_def s2_def spdkCoreMainLoop_def)
  then have 3: "sys_step ex_outside id 64 s2 [] [] False s" by (rule sys_step.poll)
  have 1: "sys_step ex_outside id 64 ex_sys [ex_rqst] [] False s1"
    by (rule sys_step.request) (simp add: s1_def ex_accepted prod_eq_iff)
  have 2: "sys_step ex_outside id 64 s1 [ex_rqst2] [] False s2"
    by (rule sys_step.request) (simp add: s1_def s2_def ex_accepted prod_eq_iff)
  note run = sys_run.go [OF 1 sys_run.go [OF 2 sys_run.go [OF 3]]]
  from run [OF sys_run.stop] show "sys_run ex_outside id 64 ex_sys [ex_rqst, ex_rqst2] [] False s" by simp
  from run [OF sys_run.go [OF sys_step.quiesce sys_run.stop]]
  show "sys_run ex_outside id 64 ex_sys [ex_rqst, ex_rqst2] [] True (s\<lparr>sys_dev := IOQuiesce (sys_dev s)\<rparr>)" by simp
qed


end
