(* ===== verification/Offload_Quiesce.thy ===== *)
theory Offload_Quiesce
  imports Offload_Account
begin

text \<open>
  Stopping the offload: \<^verbatim>\<open>KVStore::QuiesceOffload\<close> of \<^verbatim>\<open>lib/core/KVStore.cpp\<close>, which asks the device to
  stop and waits until \<open>isIOQuiescent\<close> holds, and the threads that run meanwhile.
\<close>

section \<open>Waiting\<close>

text \<open>The list has the states of the device the loop sees, a second apart; \<open>None\<close> is a loop that has seen
  them all and still waits.\<close>

fun quiesce_wait :: "bool \<Rightarrow> nat \<Rightarrow> 'r SpdkBdev list \<Rightarrow> 'r SpdkBdev option" where
  "quiesce_wait forceAbort num_tries [] = None"
| "quiesce_wait forceAbort num_tries (b # bs) =
     (if isIOQuiescent b then Some b
      else if forceAbort \<and> 20 < num_tries then Some (IOAbort b)
      else quiesce_wait forceAbort (if forceAbort then num_tries + 1 else num_tries) bs)"

definition QuiesceOffload :: "bool \<Rightarrow> bool \<Rightarrow> bool \<Rightarrow> 'r SpdkBdev list \<Rightarrow> bool option" where
  "QuiesceOffload bdevFound offloadPoller forceAbort bs =
     (if bdevFound \<and> offloadPoller then map_option isIOQuiescent (quiesce_wait forceAbort 0 bs) else Some True)"

text \<open>The states of a device that has been asked to stop, while the threads go on.\<close>

inductive stopping :: "('q, 'r) outside \<Rightarrow> ('r \<Rightarrow> task list) \<Rightarrow> ('q, 'r) offload_sys \<Rightarrow> ('q, 'r) offload_sys \<Rightarrow> bool"
  for x cr s where
  asked: "stopping x cr s (s\<lparr>sys_dev := IOQuiesce (sys_dev s)\<rparr>)"
| threads: "stopping x cr s s' \<Longrightarrow> sys_step x cr n s' rs ls q s'' \<Longrightarrow> stopping x cr s s''"

section \<open>The state of the finalizer\<close>

named_theorems fin_kept

lemma fin_kept_stateMachine [fin_kept]: "stateMachine b = Inr (q, b') \<Longrightarrow> fin_state b' = fin_state b"
  by (auto simp: stateMachine_def split: IOState.splits if_splits)

lemma fin_kept_route [fin_kept]: "route rd t b = Some (ok, b') \<Longrightarrow> fin_state b' = fin_state b"
  by (auto simp: route_def split: option.splits if_splits prod.splits)

lemma fin_kept_upd_stats [simp]: "fin_state (upd_stats f b) = fin_state b"
  by (simp add: upd_stats_def)

lemma fin_kept_io_failed [fin_kept]: "io_failed rc rc2 t b v = Inr (ok, b', v') \<Longrightarrow> fin_state b' = fin_state b"
  by (auto simp: io_failed_def split: if_splits prod.splits)

lemma fin_kept_doRead [fin_kept]: "doRead zm rcs t b v = Inr (ok, b', v') \<Longrightarrow> fin_state b' = fin_state b"
  by (auto simp: doRead_def Let_def split: sum.splits prod.splits bool.splits option.splits if_splits dest!: fin_kept)

lemma fin_kept_getFreeLba [fin_kept]: "getFreeLba n b = Inr (v, b') \<Longrightarrow> fin_state b' = fin_state b"
  by (auto simp: getFreeLba_def map_sum_Inr)

lemma fin_kept_doWrite [fin_kept]: "doWrite zm rcs t b v = Inr (ok, b', v') \<Longrightarrow> fin_state b' = fin_state b"
  by (auto simp: doWrite_def Let_def map_sum_Inr split: sum.splits prod.splits bool.splits option.splits if_splits dest!: fin_kept)

lemma fin_kept_doRemove [fin_kept]: "doRemove alloc rd t b v = Inr (ok, b', v') \<Longrightarrow> fin_state b' = fin_state b"
  by (auto simp: doRemove_def putFreeLba_def map_sum_Inr split: sum.splits prod.splits bool.splits option.splits dest!: fin_kept)

lemma fin_kept_bdev [fin_kept]:
  "bdev_read zm rcs rd t b v = Inr (ok, b', v') \<Longrightarrow> fin_state b' = fin_state b"
  "bdev_write zm rcs rd t b v = Inr (ok, b', v') \<Longrightarrow> fin_state b' = fin_state b"
  "bdev_remove alloc rd t b v = Inr (ok, b', v') \<Longrightarrow> fin_state b' = fin_state b"
  by (auto simp: bdev_read_def bdev_write_def bdev_remove_def split: option.splits prod.splits dest: fin_kept)

lemma fin_kept_answer [simp]: "sys_dev (answer r st pool s) = sys_dev s"
  by (simp add: answer_def)

lemma fin_kept_submit:
  assumes "submit r pool res s = Inr s'" "\<And>ok b' v'. res = Inr (ok, b', v') \<Longrightarrow> fin_state b' = fin_state (sys_dev s)"
  shows "fin_state (sys_dev s') = fin_state (sys_dev s)"
  using assms by (auto simp: submit_def Let_def split: sum.splits prod.splits if_splits)

lemma fin_kept_poller_process1: "poller_process1 x rcs r s = Inr s' \<Longrightarrow> fin_state (sys_dev s') = fin_state (sys_dev s)"
  by (auto simp: poller_process1_def poller_processGet_def poller_processUpdate_def poller_processRemove_def Let_def map_sum_Inr
      split: OffloadOperation.splits sum.splits prod.splits if_splits elim!: fin_kept_submit dest!: fin_kept)

lemma fin_kept_engine_process1: "engine_process1 x rcs t s = Inr s' \<Longrightarrow> fin_state (sys_dev s') = fin_state (sys_dev s)"
  by (auto simp: engine_process1_def Let_def split: OffloadOperation.splits elim!: fin_kept_submit dest!: fin_kept)

lemma fin_kept_fin_process1: "fin_process1 x t s = Inr s' \<Longrightarrow> fin_state (sys_dev s') = fin_state (sys_dev s)"
  by (auto simp: fin_process1_def fin_processGet_def fin_processUpdate_def fin_processRemove_def Let_def log_sys_dev
      split: OffloadOperation.splits sum.splits prod.splits option.splits if_splits)

lemma fin_kept_loops:
  "poller_loop x k rs s = Inr s' \<Longrightarrow> fin_state (sys_dev s') = fin_state (sys_dev s)"
  "engine_loop x k ts s = Inr s' \<Longrightarrow> fin_state (sys_dev s') = fin_state (sys_dev s)"
  "fin_loop x ts s = Inr s' \<Longrightarrow> fin_state (sys_dev s') = fin_state (sys_dev s)"
proof -
  show "poller_loop x k rs s = Inr s' \<Longrightarrow> fin_state (sys_dev s') = fin_state (sys_dev s)"
    by (induction rs arbitrary: k s) (auto split: sum.splits dest!: fin_kept_poller_process1)
  show "engine_loop x k ts s = Inr s' \<Longrightarrow> fin_state (sys_dev s') = fin_state (sys_dev s)"
    by (induction ts arbitrary: k s) (auto split: sum.splits dest!: fin_kept_engine_process1)
  show "fin_loop x ts s = Inr s' \<Longrightarrow> fin_state (sys_dev s') = fin_state (sys_dev s)"
    by (induction ts arbitrary: s) (auto split: sum.splits dest!: fin_kept_fin_process1)
qed

lemma fin_kept_complete: "complete_task rd ok t b v = Inr (b', v') \<Longrightarrow> fin_state b' = fin_state b"
  by (auto simp: complete_task_def split: sum.splits prod.splits dest!: fin_kept)

lemma fin_kept_turns:
  "poller_turn x s = Inr s' \<Longrightarrow> fin_state (sys_dev s') = fin_state (sys_dev s)"
  "ioEngineIoFunction x s = Inr s' \<Longrightarrow> fin_state (sys_dev s') = fin_state (sys_dev s)"
  "fin_turn x s = Inr s' \<Longrightarrow> fin_state (sys_dev s') = fin_state (sys_dev s)"
  "dev_complete x k ok data s = Inr s' \<Longrightarrow> fin_state (sys_dev s') = fin_state (sys_dev s)"
  "dev_retry rcs k s = Inr s' \<Longrightarrow> fin_state (sys_dev s') = fin_state (sys_dev s)"
proof -
  show "poller_turn x s = Inr s' \<Longrightarrow> fin_state (sys_dev s') = fin_state (sys_dev s)"
    by (auto simp: poller_turn_def poller_process_def map_sum_Inr dest!: fin_kept_loops(1))
  show "ioEngineIoFunction x s = Inr s' \<Longrightarrow> fin_state (sys_dev s') = fin_state (sys_dev s)"
    by (auto simp: ioEngineIoFunction_def engine_process_def map_sum_Inr Let_def split: if_splits option.splits dest!: fin_kept_loops(2))
  show "fin_turn x s = Inr s' \<Longrightarrow> fin_state (sys_dev s') = fin_state (sys_dev s)"
    by (auto simp: fin_turn_def fin_process_def map_sum_Inr split: if_splits dest!: fin_kept_loops(3))
  show "dev_complete x k ok data s = Inr s' \<Longrightarrow> fin_state (sys_dev s') = fin_state (sys_dev s)"
    by (auto simp: dev_complete_def writeComplete_def readComplete_def Let_def split: io_kind.splits sum.splits option.splits if_splits
        dest!: fin_kept_complete)
  show "dev_retry rcs k s = Inr s' \<Longrightarrow> fin_state (sys_dev s') = fin_state (sys_dev s)"
    by (auto simp: dev_retry_def writeQueueIoWait_def map_sum_Inr Let_def split: option.splits if_splits)
qed

lemma fin_kept_core: "spdkCoreMainLoop x running leaves s = Inr (ret, s') \<Longrightarrow> fin_state (sys_dev s') = fin_state (sys_dev s)"
  by (auto simp: spdkCoreMainLoop_def split: sum.splits if_splits dest: fin_kept_turns)

lemma fin_kept_step: "sys_step x cr n s rs ls q s' \<Longrightarrow> fin_state (sys_dev s) = FP_QUIESCING \<Longrightarrow> fin_state (sys_dev s') = FP_QUIESCING"
  by (induction rule: sys_step.induct)
    (auto simp: offload_enqueue_def IOQuiesce_def IOAbort_def split: prod.splits dest: fin_kept_turns fin_kept_core)

lemma stopping_fin_state: "stopping x cr s s' \<Longrightarrow> fin_state (sys_dev s') = FP_QUIESCING"
  by (induction rule: stopping.induct) (auto simp: IOQuiesce_def dest: fin_kept_step)

section \<open>Properties\<close>

lemma quiesce_waits: "\<forall>b \<in> set bs. \<not> isIOQuiescent b \<Longrightarrow> quiesce_wait False k bs = None"
  by (induction bs) auto

lemma quiesce_aborts:
  "\<forall>b \<in> set bs. fin_state b = FP_QUIESCING \<Longrightarrow> k \<le> 21 \<Longrightarrow> 22 - k \<le> length bs \<Longrightarrow>
    \<exists>b. quiesce_wait True k bs = Some b \<and> \<not> isIOQuiescent b"
proof (induction bs arbitrary: k)
  case (Cons b bs)
  then show ?case by (cases "k = 21") (auto simp: isIOQuiescent_def IOAbort_def)
qed simp

text \<open>C14. A device that has been asked to stop never reports that it has stopped: nothing sets the state of
  the finalizer to \<open>FP_QUIESCENT\<close>. Whatever the threads and SPDK do meanwhile, \<open>QuiesceOffload\<close> without
  \<open>forceAbort\<close> waits for ever, and with it gives up after 22 looks and returns false.\<close>

theorem quiesce_never_completes:
  assumes "\<forall>b \<in> set bs. \<exists>s'. stopping x cr s s' \<and> b = sys_dev s'"
  shows "QuiesceOffload True True False bs = None \<and> (22 \<le> length bs \<longrightarrow> QuiesceOffload True True True bs = Some False)"
proof -
  have f: "\<forall>b \<in> set bs. fin_state b = FP_QUIESCING" using assms by (auto dest!: stopping_fin_state dest: bspec)
  then have "quiesce_wait False 0 bs = None" by (intro quiesce_waits) (auto simp: isIOQuiescent_def)
  then show ?thesis using quiesce_aborts [OF f, of 0] by (auto simp: QuiesceOffload_def)
qed

theorem quiesce_never_completes_witness:
  "QuiesceOffload True True False (replicate 30 (IOQuiesce ex_dev)) = None \<and> QuiesceOffload True True True (replicate 30 (IOQuiesce ex_dev)) = Some False"
proof -
  have "stopping ex_outside id ex_sys (ex_sys\<lparr>sys_dev := IOQuiesce (sys_dev ex_sys)\<rparr>)" by (rule stopping.asked)
  then have "\<forall>b \<in> set (replicate 30 (IOQuiesce ex_dev)). \<exists>s'. stopping ex_outside id ex_sys s' \<and> b = sys_dev s'"
    by (auto simp: ex_sys_def intro!: exI)
  from quiesce_never_completes [OF this] show ?thesis by simp
qed

end
