(* ===== verification/Pmem_Poller.thy ===== *)
theory Pmem_Poller
  imports Offload_Account
begin

text \<open>
  The thread that serves asynchronous requests from the index, \<^verbatim>\<open>lib/pmem/PmemPoller.cpp\<close>: gets and puts,
  and requests for values on disk, which it hands to the offload thread. A request taken from a
  pool is an argument, in the state its last user left it.
\<close>

type_synonym pm_rqst = "RqstOperation Rqst"

definition pm_rqstClb :: "pm_rqst \<Rightarrow> StatusCode \<Rightarrow> bytes option \<Rightarrow> event list" where
  "pm_rqstClb r st val = (case rq_clb r of None \<Rightarrow> [] | Some c \<Rightarrow> [Callback c st (rq_key r) val])"

text \<open>Without an offload thread the error is reported, and then the missing thread is used.\<close>

definition pm_processTransfer :: "('q, 'r) outside \<Rightarrow> bool \<Rightarrow> rqst \<Rightarrow> pm_rqst \<Rightarrow> ('q, 'r) offload_sys \<Rightarrow> exn + ('q, 'r) offload_sys" where
  "pm_processTransfer x offloadPoller rq0 r s =
     (if \<not> offloadPoller then Inl Undefined
      else let getRqst = finalizeGet (rq_key r) Null 0 (rq_clb r) rq0
           in case offload_enqueue x getRqst s of
                (True, s) \<Rightarrow> Inr s
              | (False, s) \<Rightarrow> Inr (log_sys (PoolPut OFFLOAD_GET (rq_id getRqst) # pm_rqstClb r UNKNOWN_ERROR None) s))"

definition pm_processGet :: "('q, 'r) outside \<Rightarrow> bool \<Rightarrow> rqst \<Rightarrow> pm_rqst \<Rightarrow> ('q, 'r) offload_sys \<Rightarrow> exn + ('q, 'r) offload_sys" where
  "pm_processGet x offloadPoller rq0 r s =
     (case ART_Get (rq_key r) (sys_tree s) of
        Inl e \<Rightarrow> if e = Undefined then Inl Undefined else Inr (log_sys (pm_rqstClb r UNKNOWN_ERROR None) s)
      | Inr (None, sz, loc) \<Rightarrow> Inr (log_sys (pm_rqstClb r OK None) s)
      | Inr (Some p, sz, loc) \<Rightarrow>
         (if loc = DISK then pm_processTransfer x offloadPoller rq0 r s
          else case blocks (pm (sys_tree s)) p of
                 Some (Value bs) \<Rightarrow> if length bs < sz then Inl Undefined else Inr (log_sys (pm_rqstClb r OK (Some (take sz bs))) s)
               | _ \<Rightarrow> Inl Undefined))"

definition pm_processPut :: "pm_rqst \<Rightarrow> ('q, 'r) offload_sys \<Rightarrow> exn + ('q, 'r) offload_sys" where
  "pm_processPut r s =
     (case ART_Put (rq_key r) (sys_tree s) of
        (Inl e, t) \<Rightarrow> if e = Undefined then Inl Undefined else Inr (log_sys (pm_rqstClb r UNKNOWN_ERROR None) (s\<lparr>sys_tree := t\<rparr>))
      | (Inr u, t) \<Rightarrow> Inr (log_sys (pm_rqstClb r OK None) (s\<lparr>sys_tree := t\<rparr>)))"

definition pm_process1 :: "('q, 'r) outside \<Rightarrow> bool \<Rightarrow> rqst \<Rightarrow> pm_rqst \<Rightarrow> ('q, 'r) offload_sys \<Rightarrow> exn + ('q, 'r) offload_sys" where
  "pm_process1 x offloadPoller rq0 r s =
     (case rq_op r of
        RQST_PUT \<Rightarrow> pm_processPut r s
      | RQST_GET \<Rightarrow> pm_processGet x offloadPoller rq0 r s
      | _ \<Rightarrow> Inr s)"

text \<open>The batch; \<open>rq0\<close> are the requests the pool gives out meanwhile.\<close>

fun pm_loop :: "('q, 'r) outside \<Rightarrow> bool \<Rightarrow> (nat \<Rightarrow> rqst) \<Rightarrow> nat \<Rightarrow> pm_rqst list \<Rightarrow> ('q, 'r) offload_sys \<Rightarrow> exn + ('q, 'r) offload_sys" where
  "pm_loop x offloadPoller rq0 k [] s = Inr s"
| "pm_loop x offloadPoller rq0 k (r # rs) s =
     (case pm_process1 x offloadPoller (rq0 k) r s of Inl e \<Rightarrow> Inl e | Inr s \<Rightarrow> pm_loop x offloadPoller rq0 (k + 1) rs s)"

text \<open>One turn of the thread.\<close>

definition pm_turn ::
  "('q, 'r) outside \<Rightarrow> (pm_rqst, 'p) ring_ops \<Rightarrow> bool \<Rightarrow> (nat \<Rightarrow> rqst) \<Rightarrow> (pm_rqst, 'p) Poller \<Rightarrow> ('q, 'r) offload_sys \<Rightarrow>
    exn + (pm_rqst, 'p) Poller \<times> ('q, 'r) offload_sys" where
  "pm_turn x rp offloadPoller rq0 p s =
     (let p = poller_dequeue rp DEQUEUE_RING_LIMIT p
      in map_sum id (\<lambda>s. (p\<lparr>requests := []\<rparr>, s)) (pm_loop x offloadPoller rq0 0 (requests p) s))"

end
