(* ===== verification/Primary_Key.thy ===== *)
theory Primary_Key
  imports Key_Options Fifo_Spec
begin

text \<open>
  Primary keys: \<^verbatim>\<open>lib/primary/PrimaryKeyBase.cpp\<close> and \<^verbatim>\<open>lib/primary/PrimaryKeyNextQueue.cpp\<close>. A key is a
  byte string; the primary field decides which node the key is local to, and the queue of ready
  keys hands out local primary keys. The ring of SPDK that holds the queue is a parameter, of
  which the theorems assume that it is a bounded queue.
\<close>

unbundle bit_operations_syntax

section \<open>State and operations\<close>

record PrimaryKeyBase =
  pkb_keySize :: nat
  pKeySize :: nat
  pKeyOffset :: nat
  localNodeId :: u32
  nNodes :: u32

text \<open>The loop of \<open>modulo\<close>. Byte \<open>i\<close> is shifted by \<open>i\<close> bits, in an int that eight bytes cannot
  overflow.\<close>

fun or_bytes :: "bytes \<Rightarrow> nat \<Rightarrow> u64 \<Rightarrow> u64" where
  "or_bytes arr 0 val = val"
| "or_bytes arr (Suc n) val = or_bytes arr n (val OR push_bit n (ucast (arr ! n)))"

definition modulo :: "bytes \<Rightarrow> nat \<Rightarrow> u64 \<Rightarrow> exn + u64" where
  "modulo arr sz dv = (if dv = 0 \<or> length arr < sz then Inl Undefined else Inr (or_bytes arr sz 0 mod dv))"

text \<open>The constructor: the last primary field counts.\<close>

fun scan_fields :: "KeyDescriptor \<Rightarrow> PrimaryKeyBase \<Rightarrow> PrimaryKeyBase" where
  "scan_fields [] pk = pk"
| "scan_fields (f # fs) pk =
     (let pk = (if isPrimary f then pk\<lparr>pKeySize := fsize f, pKeyOffset := pkb_keySize pk\<rparr> else pk)
      in scan_fields fs (pk\<lparr>pkb_keySize := pkb_keySize pk + fsize f\<rparr>))"

definition new_PrimaryKeyBase :: "Options \<Rightarrow> exn + PrimaryKeyBase" where
  "new_PrimaryKeyBase opts =
     (let pk = scan_fields (opt_key opts) \<lparr>pkb_keySize = 0, pKeySize = 0, pKeyOffset = 0, localNodeId = 0, nNodes = 0\<rparr>;
          pk = pk\<lparr>localNodeId := dht_id (opt_dht opts), nNodes := of_nat (length (dht_neighbors (opt_dht opts)))\<rparr>
      in if 8 < pKeySize pk then Inl (OperationFailed NOT_SUPPORTED) else Inr pk)"

definition isLocal :: "PrimaryKeyBase \<Rightarrow> bytes \<Rightarrow> exn + bool" where
  "isLocal pk key = map_sum id (\<lambda>r. r = ucast (localNodeId pk))
     (modulo (drop (pKeyOffset pk) key) (pKeySize pk) (ucast (nNodes pk)))"

definition base_dequeueNext :: "bytes \<Rightarrow> exn + bytes" where
  "base_dequeueNext key = Inl NotSupported"

definition base_enqueueNext :: "bytes \<Rightarrow> exn + unit" where
  "base_enqueueNext key = Inr ()"

text \<open>The queue of ready keys; the ring answers \<open>Inl\<close> where the call of SPDK returns a count of zero.\<close>

type_synonym ('e, 'r) ring_enqueue = "bytes \<Rightarrow> 'r \<Rightarrow> 'e + 'r"
type_synonym ('e, 'r) ring_dequeue = "'r \<Rightarrow> 'e + bytes \<times> 'r"

definition createPKeyBuff :: "PrimaryKeyBase \<Rightarrow> bytes \<Rightarrow> bytes" where
  "createPKeyBuff pk src = take (pKeySize pk) (drop (pKeyOffset pk) src)"

definition dequeueNext :: "('e, 'r) ring_dequeue \<Rightarrow> PrimaryKeyBase \<Rightarrow> bytes \<Rightarrow> 'r \<Rightarrow> exn + bytes \<times> 'r" where
  "dequeueNext deq pk key r =
     (case deq r of
        Inl e \<Rightarrow> Inl (OperationFailed KEY_NOT_FOUND)
      | Inr (pKeyBuff, r) \<Rightarrow> Inr (blit (take (pKeySize pk) pKeyBuff) (pKeyOffset pk) (memset_prefix 0 (pkb_keySize pk) key), r))"

definition enqueueNext :: "('e, 'r) ring_enqueue \<Rightarrow> PrimaryKeyBase \<Rightarrow> bytes \<Rightarrow> 'r \<Rightarrow> exn + 'r" where
  "enqueueNext enq pk key r =
     (case isLocal pk key of
        Inl e \<Rightarrow> Inl e
      | Inr False \<Rightarrow> Inr r
      | Inr True \<Rightarrow> (case enq (createPKeyBuff pk key) r of Inl e \<Rightarrow> Inl (OperationFailed QUEUE_FULL_ERROR) | Inr r \<Rightarrow> Inr r))"

text \<open>Enqueueing the keys of a list, and dequeueing into \<open>n\<close> copies of one buffer.\<close>

fun enqueue_all :: "('e, 'r) ring_enqueue \<Rightarrow> PrimaryKeyBase \<Rightarrow> bytes list \<Rightarrow> 'r \<Rightarrow> exn + 'r" where
  "enqueue_all enq pk [] r = Inr r"
| "enqueue_all enq pk (k # ks) r = (case enqueueNext enq pk k r of Inl e \<Rightarrow> Inl e | Inr r \<Rightarrow> enqueue_all enq pk ks r)"

fun dequeue_n :: "('e, 'r) ring_dequeue \<Rightarrow> PrimaryKeyBase \<Rightarrow> bytes \<Rightarrow> nat \<Rightarrow> 'r \<Rightarrow> exn + bytes list \<times> 'r" where
  "dequeue_n deq pk buf 0 r = Inr ([], r)"
| "dequeue_n deq pk buf (Suc n) r =
     (case dequeueNext deq pk buf r of Inl e \<Rightarrow> Inl e
      | Inr (k, r) \<Rightarrow> map_sum id (\<lambda>(ks, r). (k # ks, r)) (dequeue_n deq pk buf n r))"

section \<open>The constructor\<close>

lemma scan_fields_size: "pkb_keySize (scan_fields fs pk) = pkb_keySize pk + key_size fs"
  by (induction fs arbitrary: pk) (auto simp: Let_def)

lemma scan_fields_bound:
  "pKeyOffset pk + pKeySize pk \<le> pkb_keySize pk \<Longrightarrow>
     pKeyOffset (scan_fields fs pk) + pKeySize (scan_fields fs pk) \<le> pkb_keySize (scan_fields fs pk)"
proof (induction fs arbitrary: pk)
  case (Cons f fs)
  let ?pk = "(if isPrimary f then pk\<lparr>pKeySize := fsize f, pKeyOffset := pkb_keySize pk\<rparr> else pk)\<lparr>pkb_keySize := pkb_keySize pk + fsize f\<rparr>"
  have "pKeyOffset ?pk + pKeySize ?pk \<le> pkb_keySize ?pk" using Cons.prems by simp
  from Cons.IH [OF this] show ?case by (simp add: Let_def split: if_splits)
qed simp

lemma scan_fields_primary:
  "\<forall>f \<in> set fs. \<not> isPrimary f \<Longrightarrow> pKeyOffset (scan_fields fs pk) = pKeyOffset pk \<and> pKeySize (scan_fields fs pk) = pKeySize pk"
  by (induction fs arbitrary: pk) (auto simp: Let_def)

lemma scan_fields_append: "scan_fields (fs @ gs) pk = scan_fields gs (scan_fields fs pk)"
  by (induction fs arbitrary: pk) (auto simp: Let_def)

definition pk_ok :: "PrimaryKeyBase \<Rightarrow> bool" where
  "pk_ok pk \<longleftrightarrow> pKeyOffset pk + pKeySize pk \<le> pkb_keySize pk \<and> pKeySize pk \<le> 8"

lemma new_PrimaryKeyBase_ok:
  assumes "new_PrimaryKeyBase opts = Inr pk"
  shows "pk_ok pk" "pkb_keySize pk = key_size (opt_key opts)"
proof -
  let ?pk0 = "\<lparr>pkb_keySize = 0, pKeySize = 0, pKeyOffset = 0, localNodeId = 0, nNodes = 0\<rparr>"
  have pk: "pk = (scan_fields (opt_key opts) ?pk0)
      \<lparr>localNodeId := dht_id (opt_dht opts), nNodes := of_nat (length (dht_neighbors (opt_dht opts)))\<rparr>" "pKeySize pk \<le> 8"
    using assms by (auto simp: new_PrimaryKeyBase_def Let_def split: if_splits)
  have "pkb_keySize pk = key_size (opt_key opts)" "pKeyOffset pk + pKeySize pk \<le> pkb_keySize pk"
    unfolding pk(1) using scan_fields_size [of "opt_key opts" ?pk0] scan_fields_bound [of ?pk0 "opt_key opts"] by simp_all
  then show "pk_ok pk" "pkb_keySize pk = key_size (opt_key opts)" using pk(2) by (simp_all add: pk_ok_def)
qed

section \<open>Which node a key is local to\<close>

text \<open>All nodes of a system: the same descriptor and number of nodes, each its own id.\<close>

lemma isLocal_modulo:
  assumes "nNodes pk \<noteq> 0" "pKeyOffset pk + pKeySize pk \<le> length key"
  shows "isLocal pk key = Inr (or_bytes (drop (pKeyOffset pk) key) (pKeySize pk) 0 mod ucast (nNodes pk) = ucast (localNodeId pk))"
proof -
  have "(ucast (nNodes pk) :: u64) \<noteq> 0"
    using assms(1) by (simp add: word_unat_eq_iff)
  then show ?thesis using assms(2) by (simp add: isLocal_def modulo_def)
qed

section \<open>The queue of ready keys\<close>

definition local_key :: "PrimaryKeyBase \<Rightarrow> bytes \<Rightarrow> bool" where
  "local_key pk key \<longleftrightarrow> isLocal pk key = Inr True"

text \<open>A key with every byte outside the primary field set to zero.\<close>

definition masked :: "PrimaryKeyBase \<Rightarrow> bytes \<Rightarrow> bytes" where
  "masked pk key = replicate (pKeyOffset pk) 0 @ createPKeyBuff pk key @ replicate (pkb_keySize pk - pKeyOffset pk - pKeySize pk) 0"

lemma dequeued_key:
  assumes "pk_ok pk" "length buf = pkb_keySize pk" "length key = pkb_keySize pk"
  shows "blit (take (pKeySize pk) (createPKeyBuff pk key)) (pKeyOffset pk) (memset_prefix 0 (pkb_keySize pk) buf) = masked pk key"
  using assms by (simp add: blit_def memset_prefix_def masked_def createPKeyBuff_def pk_ok_def min_def diff_diff_left)

lemma enqueue_all_spec:
  assumes ring: "bounded_fifo enq deq qs ok_ring cap" and nn: "nNodes pk \<noteq> 0"
  shows "ok_ring r \<Longrightarrow> \<forall>k \<in> set ks. pKeyOffset pk + pKeySize pk \<le> length k \<Longrightarrow>
     length (qs r) + length (filter (local_key pk) ks) \<le> cap r \<Longrightarrow>
     \<exists>r'. enqueue_all enq pk ks r = Inr r' \<and> ok_ring r' \<and> cap r' = cap r \<and>
       qs r' = qs r @ map (createPKeyBuff pk) (filter (local_key pk) ks)"
proof (induction ks arbitrary: r)
  case (Cons k ks)
  obtain b where b: "isLocal pk k = Inr b" using isLocal_modulo [OF nn, of k] Cons.prems(2) by simp
  show ?case
  proof (cases b)
    case True
    then have lk: "local_key pk k" using b by (simp add: local_key_def)
    obtain r1 where r1: "enq (createPKeyBuff pk k) r = Inr r1" "ok_ring r1" "qs r1 = qs r @ [createPKeyBuff pk k]" "cap r1 = cap r"
      using bounded_fifo.put_ok [OF ring Cons.prems(1), of "createPKeyBuff pk k"] Cons.prems(3) lk by auto
    have "enqueueNext enq pk k r = Inr r1" using b True r1(1) by (simp add: enqueueNext_def)
    then show ?thesis using Cons.IH [OF r1(2)] Cons.prems(2,3) r1 lk by simp
  next
    case False
    then have "\<not> local_key pk k" "enqueueNext enq pk k r = Inr r" using b by (auto simp: local_key_def enqueueNext_def)
    then show ?thesis using Cons.IH [OF Cons.prems(1)] Cons.prems(2,3) by simp
  qed
qed simp

lemma dequeue_n_spec:
  assumes ring: "bounded_fifo enq deq qs ok_ring cap" and ok: "pk_ok pk" "length buf = pkb_keySize pk"
  shows "ok_ring r \<Longrightarrow> qs r = map (createPKeyBuff pk) ks @ q \<Longrightarrow> \<forall>k \<in> set ks. length k = pkb_keySize pk \<Longrightarrow>
     \<exists>r'. dequeue_n deq pk buf (length ks) r = Inr (map (masked pk) ks, r') \<and> ok_ring r' \<and> qs r' = q"
proof (induction ks arbitrary: r)
  case (Cons k ks)
  obtain x r1 where r1: "deq r = Inr (x, r1)" "ok_ring r1" "qs r = x # qs r1"
    using bounded_fifo.tk_ok [OF ring Cons.prems(1)] Cons.prems(2) by auto
  then have "x = createPKeyBuff pk k" "qs r1 = map (createPKeyBuff pk) ks @ q" using Cons.prems(2) by auto
  moreover from this have "dequeueNext deq pk buf r = Inr (masked pk k, r1)"
    using r1(1) dequeued_key [OF ok, of k] Cons.prems(3) by (simp add: dequeueNext_def)
  ultimately show ?case using Cons.IH [OF r1(2)] Cons.prems(3) by auto
qed simp

section \<open>Properties\<close>



text \<open>C27. The queue of ready keys passes primary keys through unchanged and in order: over any ring
  that is a bounded queue with room, enqueueing keys and then dequeueing as many as were local
  gives exactly the local ones, first in first out, each with its primary field kept and every
  other byte zero, whatever the caller's buffer held before.\<close>

theorem ready_keys_roundtrip:
  assumes "bounded_fifo enq deq qs ok_ring cap" "ok_ring r" "qs r = []" "new_PrimaryKeyBase opts = Inr pk" "nNodes pk \<noteq> 0"
    and "\<forall>k \<in> set ks. length k = pkb_keySize pk" "length ks \<le> cap r" "length buf = pkb_keySize pk"
  shows "\<exists>r1 r2. enqueue_all enq pk ks r = Inr r1 \<and>
     dequeue_n deq pk buf (length (filter (local_key pk) ks)) r1 = Inr (map (masked pk) (filter (local_key pk) ks), r2) \<and> qs r2 = []"
proof -
  have ok: "pk_ok pk" using assms(4) by (rule new_PrimaryKeyBase_ok)
  have le: "length (filter (local_key pk) ks) \<le> cap r" using length_filter_le assms(7) by (rule order_trans)
  have "\<forall>k \<in> set ks. pKeyOffset pk + pKeySize pk \<le> length k" using ok assms(6) by (simp add: pk_ok_def)
  then obtain r1 where r1: "enqueue_all enq pk ks r = Inr r1" "ok_ring r1" "qs r1 = map (createPKeyBuff pk) (filter (local_key pk) ks)"
    using enqueue_all_spec [OF assms(1,5,2)] assms(3) le by auto
  then show ?thesis using dequeue_n_spec [OF assms(1) ok assms(8) r1(2), of "filter (local_key pk) ks" "[]"] assms(6) by auto
qed

text \<open>A ring of at most four entries as a list, for the closed example.\<close>

definition list_enq :: "bytes \<Rightarrow> bytes list \<Rightarrow> unit + bytes list" where
  "list_enq x r = (if length r < 4 then Inr (r @ [x]) else Inl ())"

definition list_deq :: "bytes list \<Rightarrow> unit + bytes \<times> bytes list" where
  "list_deq r = (case r of [] \<Rightarrow> Inl () | x # r \<Rightarrow> Inr (x, r))"

lemma list_ring: "bounded_fifo list_enq list_deq id (\<lambda>r. length r \<le> 4) (\<lambda>_. 4)"
  by unfold_locales (auto simp: list_enq_def list_deq_def split: list.splits)

theorem ready_keys_roundtrip_witness:
  "\<exists>pk r1 r2. new_PrimaryKeyBase (default_options\<lparr>opt_key := [\<lparr>fsize = 1, isPrimary = True\<rparr>, \<lparr>fsize = 1, isPrimary = False\<rparr>],
       opt_dht := (opt_dht default_options)\<lparr>dht_neighbors := [\<lparr>nb_ip = [], nb_port = 0, nb_local = True, range_start = [], range_end = []\<rparr>]\<rparr>\<rparr>) = Inr pk \<and>
     enqueue_all list_enq pk [[7, 1], [8, 2]] [] = Inr r1 \<and> dequeue_n list_deq pk [5, 5] 2 r1 = Inr ([[7, 0], [8, 0]], r2)"
proof -
  define pk where "pk = \<lparr>pkb_keySize = 2, pKeySize = 1, pKeyOffset = 0, localNodeId = 0, nNodes = 1\<rparr>"
  let ?o = "default_options\<lparr>opt_key := [\<lparr>fsize = 1, isPrimary = True\<rparr>, \<lparr>fsize = 1, isPrimary = False\<rparr>],
       opt_dht := (opt_dht default_options)\<lparr>dht_neighbors := [\<lparr>nb_ip = [], nb_port = 0, nb_local = True, range_start = [], range_end = []\<rparr>]\<rparr>\<rparr>"
  have new: "new_PrimaryKeyBase ?o = Inr pk" by (simp add: new_PrimaryKeyBase_def default_options_def pk_def)
  have l: "local_key pk [7, 1]" "local_key pk [8, 2]" by (simp_all add: local_key_def isLocal_def modulo_def pk_def)
  have m: "masked pk [7, 1] = [7, 0]" "masked pk [8, 2] = [8, 0]" by (simp_all add: masked_def createPKeyBuff_def pk_def)
  from ready_keys_roundtrip [OF list_ring _ _ new, of "[]" "[[7, 1], [8, 2]]" "[5, 5]"] l m new show ?thesis
    by (auto simp: pk_def numeral_2_eq_2)
qed

end
