(* ===== verification/Jbod.thy ===== *)
theory Jbod
  imports Offload_Account
begin

text \<open>
  Several block devices behind one interface, \<^verbatim>\<open>lib/spdk/SpdkJBODBdev.cpp\<close> and \<^verbatim>\<open>lib/spdk/SpdkJBODBdev.h\<close>:
  writes go round robin, reads go to the device whose PCI address hashes to the place of a table,
  removals to the device with the PCI address.
\<close>

unbundle bit_operations_syntax

section \<open>State and operations\<close>

record 'r JBODDevice =
  jb_addr :: DeviceAddr
  jb_bdev :: "'r SpdkBdev"
  jb_num :: nat

definition maxDevices :: nat where
  "maxDevices = 64"

text \<open>The table has one place less than there are hashes.\<close>

definition maxHash :: u16 where
  "maxHash = - 1"

record 'r SpdkJBODBdev =
  jb_ctx :: SpdkBdevCtx
  jb_devices :: "'r JBODDevice list"
  deviceHash :: "u16 \<Rightarrow> int"
  currDevice :: nat
  jb_isRunning :: int
  jb_blkNumForLba :: u64

definition new_SpdkJBODBdev :: "SpdkBdevCtx \<Rightarrow> 'r SpdkJBODBdev" where
  "new_SpdkJBODBdev c = \<lparr>jb_ctx = c, jb_devices = [], deviceHash = (\<lambda>_. - 1), currDevice = 0, jb_isRunning = 0, jb_blkNumForLba = 0\<rparr>"

text \<open>The bit fields of the hash: 2 bits of the domain, 6 of the bus, 5 of the device, 3 of the function.\<close>

definition hash_pci :: "PciAddr \<Rightarrow> u16" where
  "hash_pci p = ucast (take_bit 2 (domain p)) OR push_bit 2 (ucast (take_bit 6 (bus p))) OR
     push_bit 8 (ucast (take_bit 5 (dev p))) OR push_bit 13 (ucast (take_bit 3 (func p)))"

definition hashAddr :: "DeviceAddr \<Rightarrow> u16" where
  "hashAddr a = hash_pci (bus_to_pci (busAddr a))"

definition lookup_hash :: "u16 \<Rightarrow> 'r SpdkJBODBdev \<Rightarrow> exn + int" where
  "lookup_hash h j = (if h = maxHash then Inl Undefined else Inr (deviceHash j h))"

text \<open>The result of a call on one of the devices.\<close>

definition on_device :: "nat \<Rightarrow> exn + bool \<times> 'r SpdkBdev \<times> io_env \<Rightarrow> 'r SpdkJBODBdev \<Rightarrow> exn + bool \<times> 'r SpdkJBODBdev \<times> io_env" where
  "on_device i res j =
     map_sum id (\<lambda>(ok, b, v). (ok, j\<lparr>jb_devices := (jb_devices j)[i := (jb_devices j ! i)\<lparr>jb_bdev := b\<rparr>]\<rparr>, v)) res"

definition jbod_read :: "zmalloc_fn \<Rightarrow> int \<times> int \<Rightarrow> (task, 'r) ring_ops \<Rightarrow> task \<Rightarrow> 'r SpdkJBODBdev \<Rightarrow> io_env \<Rightarrow> exn + bool \<times> 'r SpdkJBODBdev \<times> io_env" where
  "jbod_read zm rcs rd t j v =
     (if jb_isRunning j = 0 then Inr (False, j, v)
      else case t_bdevAddr t of
             None \<Rightarrow> Inl Undefined
           | Some a \<Rightarrow>
              (case lookup_hash (hashAddr a) j of
                 Inl e \<Rightarrow> Inl e
               | Inr idx \<Rightarrow>
                  (if idx < 0 then Inr (False, j, v)
                   else on_device (nat idx) (bdev_read zm rcs rd (t\<lparr>t_dev := nat idx\<rparr>) (jb_bdev (jb_devices j ! nat idx)) v) j)))"

definition jbod_write :: "zmalloc_fn \<Rightarrow> int \<times> int \<Rightarrow> (task, 'r) ring_ops \<Rightarrow> task \<Rightarrow> 'r SpdkJBODBdev \<Rightarrow> io_env \<Rightarrow> exn + bool \<times> 'r SpdkJBODBdev \<times> io_env" where
  "jbod_write zm rcs rd t j v =
     (if jb_isRunning j = 0 then Inr (False, j, v)
      else if jb_devices j = [] then Inl Undefined
      else let currDev = currDevice j
           in map_sum id (\<lambda>(ok, j, v). (ok, j\<lparr>currDevice := (currDevice j + 1) mod length (jb_devices j)\<rparr>, v))
                (on_device currDev (bdev_write zm rcs rd (t\<lparr>t_dev := currDev\<rparr>) (jb_bdev (jb_devices j ! currDev)) v) j))"

definition find_device :: "PciAddr \<Rightarrow> 'r SpdkJBODBdev \<Rightarrow> nat option" where
  "find_device p j = find (\<lambda>i. p = bus_to_pci (busAddr (jb_addr (jb_devices j ! i)))) [0..<length (jb_devices j)]"

definition jbod_remove :: "allocator \<Rightarrow> (task, 'r) ring_ops \<Rightarrow> task \<Rightarrow> 'r SpdkJBODBdev \<Rightarrow> io_env \<Rightarrow> exn + bool \<times> 'r SpdkJBODBdev \<times> io_env" where
  "jbod_remove alloc rd t j v =
     (if jb_isRunning j = 0 then Inr (False, j, v)
      else case t_bdevAddr t of
             None \<Rightarrow> if jb_devices j = [] then Inr (False, j, v) else Inl Undefined
           | Some a \<Rightarrow>
              (case find_device (bus_to_pci (busAddr a)) j of
                 None \<Rightarrow> Inr (False, j, v)
               | Some i \<Rightarrow> on_device i (bdev_remove alloc rd (t\<lparr>t_dev := i\<rparr>) (jb_bdev (jb_devices j ! i)) v) j))"

definition jbod_putFreeLba :: "allocator \<Rightarrow> DeviceAddr \<Rightarrow> u64 \<Rightarrow> 'r SpdkJBODBdev \<Rightarrow> exn + 'r SpdkJBODBdev" where
  "jbod_putFreeLba alloc a ioSize j =
     (if jb_isRunning j = 0 then Inr j
      else case find_device (bus_to_pci (busAddr a)) j of
             None \<Rightarrow> Inr j
           | Some i \<Rightarrow>
              map_sum id (\<lambda>b. j\<lparr>jb_devices := (jb_devices j)[i := (jb_devices j ! i)\<lparr>jb_bdev := b\<rparr>]\<rparr>)
                (putFreeLba alloc a ioSize (jb_bdev (jb_devices j ! i))))"

definition all_devices :: "('r SpdkBdev \<Rightarrow> 'r SpdkBdev) \<Rightarrow> 'r SpdkJBODBdev \<Rightarrow> 'r SpdkJBODBdev" where
  "all_devices f j = j\<lparr>jb_devices := map (\<lambda>d. d\<lparr>jb_bdev := f (jb_bdev d)\<rparr>) (jb_devices j)\<rparr>"

definition jbod_IOQuiesce :: "'r SpdkJBODBdev \<Rightarrow> 'r SpdkJBODBdev" where
  "jbod_IOQuiesce = all_devices IOQuiesce"

definition jbod_isIOQuiescent :: "'r SpdkJBODBdev \<Rightarrow> bool" where
  "jbod_isIOQuiescent j \<longleftrightarrow> (\<forall>d \<in> set (jb_devices j). isIOQuiescent (jb_bdev d))"

definition jbod_IOAbort :: "'r SpdkJBODBdev \<Rightarrow> 'r SpdkJBODBdev" where
  "jbod_IOAbort = all_devices IOAbort"

definition jbod_setBlockNumForLba :: "u64 \<Rightarrow> 'r SpdkJBODBdev \<Rightarrow> 'r SpdkJBODBdev" where
  "jbod_setBlockNumForLba n j = (all_devices (setBlockNumForLba n) j)\<lparr>jb_blkNumForLba := n\<rparr>"

text \<open>\<open>init\<close>: what SPDK answers about the device with a number and its two rings are arguments, \<open>b0\<close> is a new
  device. The configuration of a device has that device alone.\<close>

fun jbod_add :: "'r SpdkBdev \<Rightarrow> (nat \<Rightarrow> spdk_info \<times> 'r \<times> 'r) \<Rightarrow> SpdkBdevConf list \<Rightarrow> 'r SpdkJBODBdev \<Rightarrow> exn + 'r SpdkJBODBdev" where
  "jbod_add b0 info [] j = Inr j"
| "jbod_add b0 info (d # ds) j =
     (let n = length (jb_devices j); (si, r1, r2) = info n;
          a = \<lparr>dev_lba = - 1, busAddr = set_pci (conf_pciAddr d) 0\<rparr>
      in if maxDevices \<le> n then Inl Undefined
         else case bdev_init si r1 r2 \<lparr>conf_devType = BDEV, conf_devs = [d], conf_bdevNum = int n\<rparr> b0 of
                Inl e \<Rightarrow> Inl e
              | Inr b \<Rightarrow>
                 (if hashAddr a = maxHash then Inl Undefined
                  else jbod_add b0 info ds
                         (j\<lparr>jb_devices := jb_devices j @ [\<lparr>jb_addr = a, jb_bdev = b, jb_num = n\<rparr>],
                            jb_ctx := spBdevCtx b, deviceHash := (deviceHash j)(hashAddr a := int n)\<rparr>)))"

definition jbod_init :: "'r SpdkBdev \<Rightarrow> (nat \<Rightarrow> spdk_info \<times> 'r \<times> 'r) \<Rightarrow> SpdkConf \<Rightarrow> 'r SpdkJBODBdev \<Rightarrow> exn + bool \<times> 'r SpdkJBODBdev" where
  "jbod_init b0 info conf j =
     (if conf_devType conf \<noteq> JBOD then Inr (False, j)
      else map_sum id (\<lambda>j. (True, all_devices (\<lambda>b. b\<lparr>maxIoBufs := io_pool_size (jb_ctx j) div of_nat (length (jb_devices j))\<rparr>) j))
             (jbod_add b0 info (conf_devs conf) j))"

section \<open>Addresses and devices\<close>


lemma bdev_init_pci: "bdev_init si r1 r2 \<lparr>conf_devType = ty, conf_devs = [d], conf_bdevNum = n\<rparr> b0 = Inr b \<Longrightarrow> pci_addr (spBdevCtx b) = conf_pciAddr d"
  by (auto simp: bdev_init_def bdev_setup_def bdevInit_def Let_def split: if_splits)

lemma hash_set_pci: "hashAddr \<lparr>dev_lba = l, busAddr = set_pci p w\<rparr> = hash_pci p" "hashAddr (task_addr junk t b) = hash_pci (pci_addr (spBdevCtx b))"
  by (simp_all add: hashAddr_def task_addr_def bus_to_pci_set_pci)

text \<open>Devices and table agree, as long as no two hashes are the same.\<close>

definition jbod_ok :: "PciAddr list \<Rightarrow> 'r SpdkJBODBdev \<Rightarrow> bool" where
  "jbod_ok ps j \<longleftrightarrow> length (jb_devices j) = length ps \<and>
     (\<forall>i < length ps. pci_addr (spBdevCtx (jb_bdev (jb_devices j ! i))) = ps ! i \<and>
        bus_to_pci (busAddr (jb_addr (jb_devices j ! i))) = ps ! i \<and> hash_pci (ps ! i) \<noteq> maxHash)"

lemma jbod_add_ok:
  assumes "jbod_add b0 info ds j = Inr j'" "jbod_ok ps j"
  shows "jbod_ok (ps @ map conf_pciAddr ds) j' \<and> jb_isRunning j' = jb_isRunning j \<and>
    (\<forall>h. deviceHash j' h = (case find (\<lambda>i. hash_pci (conf_pciAddr (ds ! i)) = h) (rev [0..<length ds]) of
       None \<Rightarrow> deviceHash j h | Some i \<Rightarrow> int (length ps + i)))"
  using assms
proof (induction ds arbitrary: ps j)
  case (Cons d ds)
  define n where "n = length (jb_devices j)"
  define a where "a = \<lparr>dev_lba = - 1, busAddr = set_pci (conf_pciAddr d) 0\<rparr>"
  obtain si r1 r2 where i: "info n = (si, r1, r2)" by (cases "info n")
  obtain b where b: "bdev_init si r1 r2 \<lparr>conf_devType = BDEV, conf_devs = [d], conf_bdevNum = int n\<rparr> b0 = Inr b" "hashAddr a \<noteq> maxHash"
    "jbod_add b0 info ds (j\<lparr>jb_devices := jb_devices j @ [\<lparr>jb_addr = a, jb_bdev = b, jb_num = n\<rparr>],
                            jb_ctx := spBdevCtx b, deviceHash := (deviceHash j)(hashAddr a := int n)\<rparr>) = Inr j'"
    using Cons.prems(1) by (auto simp: Let_def n_def [symmetric] a_def [symmetric] i split: if_splits sum.splits)
  have ok: "jbod_ok (ps @ [conf_pciAddr d]) (j\<lparr>jb_devices := jb_devices j @ [\<lparr>jb_addr = a, jb_bdev = b, jb_num = n\<rparr>],
                            jb_ctx := spBdevCtx b, deviceHash := (deviceHash j)(hashAddr a := int n)\<rparr>)"
    using Cons.prems(2) b(2) bdev_init_pci [OF b(1)]
    by (auto simp: jbod_ok_def nth_append a_def hash_set_pci bus_to_pci_set_pci less_Suc_eq)
  have n: "n = length ps" using Cons.prems(2) by (simp add: jbod_ok_def n_def)
  have r: "rev [0..<Suc k] = map Suc (rev [0..<k]) @ [0]" for k by (simp add: rev_map [symmetric] map_Suc_upt upt_conv_Cons del: upt_Suc)
  have f: "find P (map Suc xs @ [0]) = (case find (\<lambda>i. P (Suc i)) xs of Some i \<Rightarrow> Some (Suc i) | None \<Rightarrow> if P 0 then Some 0 else None)" for P xs
    by (induction xs) auto
  show ?case using Cons.IH [OF b(3) ok] n by (auto simp: r f a_def hash_set_pci split: option.splits simp del: upt_Suc)
qed (simp add: jbod_ok_def)

lemma jbod_init_ok:
  assumes "jbod_init b0 info conf (new_SpdkJBODBdev c) = Inr (True, j)"
  shows "jbod_ok (map conf_pciAddr (conf_devs conf)) j"
    and "deviceHash j h = (case find (\<lambda>i. hash_pci (conf_pciAddr (conf_devs conf ! i)) = h) (rev [0..<length (conf_devs conf)]) of
       None \<Rightarrow> - 1 | Some i \<Rightarrow> int i)"
proof -
  obtain j1 where j1: "jbod_add b0 info (conf_devs conf) (new_SpdkJBODBdev c) = Inr j1"
     "j = all_devices (\<lambda>b. b\<lparr>maxIoBufs := io_pool_size (jb_ctx j1) div of_nat (length (jb_devices j1))\<rparr>) j1"
    using assms by (auto simp: jbod_init_def map_sum_Inr split: if_splits)
  have "jbod_ok [] (new_SpdkJBODBdev c)" by (simp add: jbod_ok_def new_SpdkJBODBdev_def)
  note a = jbod_add_ok [OF j1(1) this]
  show "jbod_ok (map conf_pciAddr (conf_devs conf)) j" using a j1(2) by (auto simp: jbod_ok_def all_devices_def)
  show "deviceHash j h = (case find (\<lambda>i. hash_pci (conf_pciAddr (conf_devs conf ! i)) = h) (rev [0..<length (conf_devs conf)]) of
       None \<Rightarrow> - 1 | Some i \<Rightarrow> int i)"
    using a j1(2) by (simp add: all_devices_def new_SpdkJBODBdev_def split: option.splits)
qed

lemma find_last:
  assumes "i < n" "P i"
  obtains m where "find P (rev [0..<n]) = Some m" "i \<le> m" "m < n" "P m" "\<And>l. m < l \<Longrightarrow> l < n \<Longrightarrow> \<not> P l"
  using assms
proof (induction n arbitrary: thesis)
  case (Suc n)
  show ?case
  proof (cases "P n")
    case True
    then show ?thesis using Suc.prems by (intro Suc.prems(1) [of n]) auto
  next
    case False
    then have "i < n" using Suc.prems(2,3) by (cases "i = n") auto
    then obtain m where m: "find P (rev [0..<n]) = Some m" "i \<le> m" "m < n" "P m" "\<And>l. m < l \<Longrightarrow> l < n \<Longrightarrow> \<not> P l"
      using Suc.IH Suc.prems(3) by blast
    show ?thesis by (rule Suc.prems(1) [of m]) (use m False in \<open>auto simp: less_Suc_eq\<close>)
  qed
qed simp

lemma find_first:
  assumes "i < n" "P i" "\<And>k. k < i \<Longrightarrow> \<not> P k"
  shows "find P [0..<n] = Some i"
  using assms(1)
proof (induction n)
  case (Suc n)
  have f: "find P xs = None" if "\<forall>x \<in> set xs. \<not> P x" for xs using that by (induction xs) auto
  have a: "find P (xs @ ys) = (case find P xs of Some x \<Rightarrow> Some x | None \<Rightarrow> find P ys)" for xs ys by (induction xs) auto
  show ?case
  proof (cases "i = n")
    case True
    then show ?thesis using assms f [of "[0..<n]"] by (simp add: a)
  next
    case False
    then show ?thesis using Suc by (simp add: a)
  qed
qed simp

lemma jbod_read_last:
  assumes "jbod_init b0 info conf (new_SpdkJBODBdev c) = Inr (True, j)" "i < length (conf_devs conf)"
    and "t_bdevAddr t = Some (task_addr junk t0 (jb_bdev (jb_devices j ! i)))" "run \<noteq> 0"
  obtains m where "i \<le> m" "m < length (conf_devs conf)" "hash_pci (conf_pciAddr (conf_devs conf ! m)) = hash_pci (conf_pciAddr (conf_devs conf ! i))"
    "\<And>l. m < l \<Longrightarrow> l < length (conf_devs conf) \<Longrightarrow> hash_pci (conf_pciAddr (conf_devs conf ! l)) \<noteq> hash_pci (conf_pciAddr (conf_devs conf ! i))"
    "jbod_read zm rcs rd t (j\<lparr>jb_isRunning := run\<rparr>) v =
       on_device m (bdev_read zm rcs rd (t\<lparr>t_dev := m\<rparr>) (jb_bdev (jb_devices j ! m)) v) (j\<lparr>jb_isRunning := run\<rparr>)"
proof -
  note ok = jbod_init_ok [OF assms(1)]
  have p: "pci_addr (spBdevCtx (jb_bdev (jb_devices j ! i))) = conf_pciAddr (conf_devs conf ! i)" "hash_pci (conf_pciAddr (conf_devs conf ! i)) \<noteq> maxHash"
    using ok(1) assms(2) by (auto simp: jbod_ok_def)
  obtain m where m: "find (\<lambda>k. hash_pci (conf_pciAddr (conf_devs conf ! k)) = hash_pci (conf_pciAddr (conf_devs conf ! i))) (rev [0..<length (conf_devs conf)]) = Some m"
    "i \<le> m" "m < length (conf_devs conf)" "hash_pci (conf_pciAddr (conf_devs conf ! m)) = hash_pci (conf_pciAddr (conf_devs conf ! i))"
    "\<And>l. m < l \<Longrightarrow> l < length (conf_devs conf) \<Longrightarrow> hash_pci (conf_pciAddr (conf_devs conf ! l)) \<noteq> hash_pci (conf_pciAddr (conf_devs conf ! i))"
    using find_last [OF assms(2), of "\<lambda>k. hash_pci (conf_pciAddr (conf_devs conf ! k)) = hash_pci (conf_pciAddr (conf_devs conf ! i))"] by auto
  show thesis by (rule that [OF m(2-5)]) (use assms(3,4) p m(1) in \<open>auto simp: jbod_read_def lookup_hash_def hash_set_pci ok(2)\<close>)
qed

section \<open>Properties\<close>

text \<open>C18. As long as the hashes of the PCI addresses of the configured devices differ, a value goes back to
  the device that has it: the address the finalizer stores for a task on a device makes \<open>read\<close> and
  \<open>remove\<close> call that device, and no other.\<close>

theorem jbod_finds_device:
  assumes "jbod_init b0 info conf (new_SpdkJBODBdev c) = Inr (True, j)" "distinct (map (\<lambda>d. hash_pci (conf_pciAddr d)) (conf_devs conf))"
    and "i < length (conf_devs conf)" "t_bdevAddr t = Some (task_addr junk t0 (jb_bdev (jb_devices j ! i)))" "run \<noteq> 0"
  shows "jbod_read zm rcs rd t (j\<lparr>jb_isRunning := run\<rparr>) v =
       on_device i (bdev_read zm rcs rd (t\<lparr>t_dev := i\<rparr>) (jb_bdev (jb_devices j ! i)) v) (j\<lparr>jb_isRunning := run\<rparr>) \<and>
    jbod_remove alloc rd t (j\<lparr>jb_isRunning := run\<rparr>) v =
       on_device i (bdev_remove alloc rd (t\<lparr>t_dev := i\<rparr>) (jb_bdev (jb_devices j ! i)) v) (j\<lparr>jb_isRunning := run\<rparr>)"
proof -
  note ok = jbod_init_ok [OF assms(1)]
  have inj: "k = i" if "k < length (conf_devs conf)" "hash_pci (conf_pciAddr (conf_devs conf ! k)) = hash_pci (conf_pciAddr (conf_devs conf ! i))" for k
    using assms(2,3) that nth_eq_iff_index_eq [OF assms(2), of k i] by simp
  have "find_device (conf_pciAddr (conf_devs conf ! i)) (j\<lparr>jb_isRunning := run\<rparr>) = Some i"
    unfolding find_device_def
  proof (rule find_first)
    fix k assume k: "k < i"
    then have "conf_pciAddr (conf_devs conf ! k) \<noteq> conf_pciAddr (conf_devs conf ! i)" using inj [of k] assms(3) by auto
    then show "conf_pciAddr (conf_devs conf ! i) \<noteq> bus_to_pci (busAddr (jb_addr (jb_devices (j\<lparr>jb_isRunning := run\<rparr>) ! k)))"
      using ok(1) assms(3) k by (simp add: jbod_ok_def)
  qed (use ok(1) assms(3) in \<open>simp_all add: jbod_ok_def\<close>)
  moreover have "pci_addr (spBdevCtx (jb_bdev (jb_devices j ! i))) = conf_pciAddr (conf_devs conf ! i)" using ok(1) assms(3) by (auto simp: jbod_ok_def)
  ultimately have "jbod_remove alloc rd t (j\<lparr>jb_isRunning := run\<rparr>) v =
       on_device i (bdev_remove alloc rd (t\<lparr>t_dev := i\<rparr>) (jb_bdev (jb_devices j ! i)) v) (j\<lparr>jb_isRunning := run\<rparr>)"
    using assms(4,5) by (simp add: jbod_remove_def task_addr_def bus_to_pci_set_pci)
  moreover have "jbod_read zm rcs rd t (j\<lparr>jb_isRunning := run\<rparr>) v =
       on_device i (bdev_read zm rcs rd (t\<lparr>t_dev := i\<rparr>) (jb_bdev (jb_devices j ! i)) v) (j\<lparr>jb_isRunning := run\<rparr>)"
    by (rule jbod_read_last [OF assms(1,3-5)]) (use inj in blast)
  ultimately show ?thesis by blast
qed

text \<open>Two devices on the given buses.\<close>

definition jb_info :: "nat \<Rightarrow> spdk_info \<times> task list \<times> task list" where
  "jb_info n = (\<lparr>si_found = True, si_open_rc = 0, si_pool_size = 64, si_cache_size = 8, si_channel = True, si_blk_size = 512,
     si_data_blk_size = 512, si_buf_align = 4096, si_num_blocks = 1024\<rparr>, [], [])"

definition jb_conf :: "u8 list \<Rightarrow> SpdkConf" where
  "jb_conf bs = \<lparr>conf_devType = JBOD, conf_devs = map (\<lambda>b. \<lparr>conf_devName = ''jbod'', conf_nvmeAddr = ''0000:01:00.0'',
     conf_pciAddr = \<lparr>domain = 0, bus = b, dev = 0, func = 0\<rparr>, conf_nvmeName = ''Nvme0''\<rparr>) bs, conf_bdevNum = - 1\<rparr>"

definition jb_task :: "task list SpdkBdev \<Rightarrow> task" where
  "jb_task b = (let t = new_task 4096 8 None False ex_rqst OFFLOAD_GET key1 in t\<lparr>t_bdevAddr := Some (task_addr 0 t b)\<rparr>)"

lemma jb_init: "\<exists>j. jbod_init ex_dev jb_info (jb_conf [1, b]) (new_SpdkJBODBdev ctx512) = Inr (True, j)" if "b \<in> {2, 65}"
  using that
  by (auto simp: jbod_init_def jb_conf_def jb_info_def new_SpdkJBODBdev_def maxDevices_def bdev_init_def bdev_setup_def bdevInit_def MAX_BDEV_NAME_def
      hash_set_pci hash_pci_def maxHash_def Let_def)

theorem jbod_finds_device_witness:
  "\<exists>j. jbod_init ex_dev jb_info (jb_conf [1, 2]) (new_SpdkJBODBdev ctx512) = Inr (True, j) \<and>
    jbod_read zeros (0, 0) (list_ring 8) (jb_task (jb_bdev (jb_devices j ! 1))) (j\<lparr>jb_isRunning := 1\<rparr>) (sys_env ex_sys) =
       on_device 1 (bdev_read zeros (0, 0) (list_ring 8) ((jb_task (jb_bdev (jb_devices j ! 1)))\<lparr>t_dev := 1\<rparr>) (jb_bdev (jb_devices j ! 1)) (sys_env ex_sys))
         (j\<lparr>jb_isRunning := 1\<rparr>)"
proof -
  obtain j where j: "jbod_init ex_dev jb_info (jb_conf [1, 2]) (new_SpdkJBODBdev ctx512) = Inr (True, j)" using jb_init [of 2] by blast
  have "distinct (map (\<lambda>d. hash_pci (conf_pciAddr d)) (conf_devs (jb_conf [1, 2])))" by (simp add: jb_conf_def hash_pci_def)
  from jbod_finds_device [OF j this, of 1 "jb_task (jb_bdev (jb_devices j ! 1))" 0 _ 1 zeros "(0, 0)" "list_ring 8" "sys_env ex_sys"] j
  show ?thesis by (intro exI [of _ j]) (simp add: jb_conf_def jb_task_def Let_def)
qed

text \<open>C39. The table keeps one device for each hash, the last one: of the devices whose PCI addresses have the same hash,
  the values written to any of them are read from the last, and from no other.\<close>

theorem jbod_hash_collision:
  assumes "jbod_init b0 info conf (new_SpdkJBODBdev c) = Inr (True, j)" "i < k" "k < length (conf_devs conf)"
    and "hash_pci (conf_pciAddr (conf_devs conf ! i)) = hash_pci (conf_pciAddr (conf_devs conf ! k))"
    and "\<forall>l \<in> {k<..<length (conf_devs conf)}. hash_pci (conf_pciAddr (conf_devs conf ! l)) \<noteq> hash_pci (conf_pciAddr (conf_devs conf ! k))"
    and "t_bdevAddr t = Some (task_addr junk t0 (jb_bdev (jb_devices j ! i)))" "run \<noteq> 0"
  shows "jbod_read zm rcs rd t (j\<lparr>jb_isRunning := run\<rparr>) v =
       on_device k (bdev_read zm rcs rd (t\<lparr>t_dev := k\<rparr>) (jb_bdev (jb_devices j ! k)) v) (j\<lparr>jb_isRunning := run\<rparr>)"
proof -
  have "i < length (conf_devs conf)" using assms(2,3) by simp
  then show ?thesis
  proof (rule jbod_read_last [OF assms(1) _ assms(6,7)])
    fix m assume m: "m < length (conf_devs conf)" "hash_pci (conf_pciAddr (conf_devs conf ! m)) = hash_pci (conf_pciAddr (conf_devs conf ! i))"
        "\<And>l. m < l \<Longrightarrow> l < length (conf_devs conf) \<Longrightarrow> hash_pci (conf_pciAddr (conf_devs conf ! l)) \<noteq> hash_pci (conf_pciAddr (conf_devs conf ! i))"
      and r: "jbod_read zm rcs rd t (j\<lparr>jb_isRunning := run\<rparr>) v =
       on_device m (bdev_read zm rcs rd (t\<lparr>t_dev := m\<rparr>) (jb_bdev (jb_devices j ! m)) v) (j\<lparr>jb_isRunning := run\<rparr>)"
    have "\<not> m < k" using m(3) [of k] assms(3,4) by auto
    moreover have "\<not> k < m" using m(1,2) assms(4,5) by auto
    ultimately have "m = k" by simp
    then show ?thesis using r by simp
  qed
qed

theorem jbod_hash_collision_witness:
  "\<exists>j. jbod_init ex_dev jb_info (jb_conf [1, 65]) (new_SpdkJBODBdev ctx512) = Inr (True, j) \<and>
    jbod_read zeros (0, 0) (list_ring 8) (jb_task (jb_bdev (jb_devices j ! 0))) (j\<lparr>jb_isRunning := 1\<rparr>) (sys_env ex_sys) =
       on_device 1 (bdev_read zeros (0, 0) (list_ring 8) ((jb_task (jb_bdev (jb_devices j ! 0)))\<lparr>t_dev := 1\<rparr>) (jb_bdev (jb_devices j ! 1)) (sys_env ex_sys))
         (j\<lparr>jb_isRunning := 1\<rparr>)"
proof -
  obtain j where j: "jbod_init ex_dev jb_info (jb_conf [1, 65]) (new_SpdkJBODBdev ctx512) = Inr (True, j)" using jb_init [of 65] by blast
  have h: "hash_pci (conf_pciAddr (conf_devs (jb_conf [1, 65]) ! 0)) = hash_pci (conf_pciAddr (conf_devs (jb_conf [1, 65]) ! 1))"
    by (simp add: jb_conf_def hash_pci_def)
  have l: "\<forall>l \<in> {1<..<length (conf_devs (jb_conf [1, 65]))}. hash_pci (conf_pciAddr (conf_devs (jb_conf [1, 65]) ! l)) \<noteq>
      hash_pci (conf_pciAddr (conf_devs (jb_conf [1, 65]) ! 1))" by (simp add: jb_conf_def)
  from jbod_hash_collision [OF j _ _ h l, of "jb_task (jb_bdev (jb_devices j ! 0))" 0 _ 1 zeros "(0, 0)" "list_ring 8" "sys_env ex_sys"] j
  show ?thesis by (auto simp: jb_conf_def jb_task_def Let_def)
qed

end
