(* ===== verification/Dht_Core.thy ===== *)
theory Dht_Core
  imports Key_Options
begin

text \<open>
  Routing of keys to nodes: \<^verbatim>\<open>lib/dht/DhtCore.cpp\<close> and \<^verbatim>\<open>lib/dht/DhtNode.h\<close>. A key is hashed by reading a
  few of its bytes as a number; every node serves a range of hashes. A node is named by its place
  in the vector of neighbours. The network library is not part of this theory.
\<close>

unbundle bit_operations_syntax

section \<open>Reading numbers\<close>

text \<open>\<open>std::stoi\<close>: blanks, a sign, digits; the rest of the string is ignored.\<close>

datatype stoi_result = StoiOk int | StoiInvalid | StoiRange

definition is_blank :: "char \<Rightarrow> bool" where
  "is_blank c \<longleftrightarrow> of_char c \<in> {9, 10, 11, 12, 13, 32 :: nat}"

definition is_digit :: "char \<Rightarrow> bool" where
  "is_digit c \<longleftrightarrow> 48 \<le> (of_char c :: nat) \<and> of_char c \<le> (57 :: nat)"

fun digits_value :: "nat \<Rightarrow> string \<Rightarrow> nat" where
  "digits_value acc [] = acc"
| "digits_value acc (c # cs) = digits_value (10 * acc + (of_char c - 48)) cs"

definition stoi :: "string \<Rightarrow> stoi_result" where
  "stoi s =
     (let s = dropWhile is_blank s;
          (neg, s) = (case s of c # cs \<Rightarrow> if c = CHR ''-'' then (True, cs) else if c = CHR ''+'' then (False, cs) else (False, s)
                      | [] \<Rightarrow> (False, []));
          ds = takeWhile is_digit s;
          v = (if neg then - int (digits_value 0 ds) else int (digits_value 0 ds))
      in if ds = [] then StoiInvalid
         else if v < - 2147483648 \<or> 2147483647 < v then StoiRange else StoiOk v)"

section \<open>State and operations\<close>

datatype DhtNodeState = NODE_INIT | NODE_READY | NODE_NOT_RESPONDING

record DhtNode =
  node_ip :: string
  node_port :: u16
  sessionId :: int
  node_start :: u32
  node_end :: u32
  node_state :: DhtNodeState

definition new_node :: DhtNode where
  "new_node = \<lparr>node_ip = [], node_port = 0, sessionId = - 1, node_start = 0, node_end = 0, node_state = NODE_INIT\<rparr>"

definition DEFAULT_ERPC_SERVER_PORT :: u16 where
  "DEFAULT_ERPC_SERVER_PORT = 31850"

record DhtCore =
  neighbors :: "DhtNode list"
  localNode :: DhtNode
  rangeToHost :: "((int \<times> int) \<times> nat) list" \<comment> \<open>in the order of the map\<close>
  core_maskLength :: u32
  core_maskOffset :: u32

text \<open>The two calls of \<open>stoi\<close>; an invalid start keeps the end from being read.\<close>

definition set_range :: "DhtNeighbor \<Rightarrow> DhtNode \<Rightarrow> exn + DhtNode" where
  "set_range option n =
     (case stoi (range_start option) of
        StoiRange \<Rightarrow> Inl StdOutOfRange
      | StoiInvalid \<Rightarrow> Inr n
      | StoiOk s \<Rightarrow>
         (let n = n\<lparr>node_start := word_of_int s\<rparr>
          in case stoi (range_end option) of
               StoiRange \<Rightarrow> Inl StdOutOfRange
             | StoiInvalid \<Rightarrow> Inr n
             | StoiOk e \<Rightarrow> Inr (n\<lparr>node_end := word_of_int e\<rparr>)))"

fun init_neighbors :: "DhtNeighbor list \<Rightarrow> DhtNode list \<times> DhtNode option \<Rightarrow> exn + DhtNode list \<times> DhtNode option" where
  "init_neighbors [] st = Inr st"
| "init_neighbors (option # options) (ns, lcl) =
     (case set_range option (new_node\<lparr>node_ip := nb_ip option, node_port := nb_port option, node_state := NODE_INIT\<rparr>) of
        Inl e \<Rightarrow> Inl e
      | Inr n \<Rightarrow>
         (if nb_local option then init_neighbors options (ns, Some (n\<lparr>node_state := NODE_READY\<rparr>))
          else init_neighbors options (ns @ [n], lcl)))"

text \<open>The signed view of a range, and insertion into the ordered map.\<close>

definition node_range :: "DhtNode \<Rightarrow> int \<times> int" where
  "node_range n = (sint (node_start n), sint (node_end n))"

definition range_less :: "int \<times> int \<Rightarrow> int \<times> int \<Rightarrow> bool" where
  "range_less a b \<longleftrightarrow> fst a < fst b \<or> (fst a = fst b \<and> snd a < snd b)"

fun map_insert :: "int \<times> int \<Rightarrow> nat \<Rightarrow> ((int \<times> int) \<times> nat) list \<Rightarrow> ((int \<times> int) \<times> nat) list" where
  "map_insert k v [] = [(k, v)]"
| "map_insert k v ((k', v') # m) =
     (if k = k' then (k, v) # m else if range_less k k' then (k, v) # (k', v') # m else (k', v') # map_insert k v m)"

fun init_ranges :: "DhtNode list \<Rightarrow> nat \<Rightarrow> ((int \<times> int) \<times> nat) list \<Rightarrow> ((int \<times> int) \<times> nat) list" where
  "init_ranges [] i m = m"
| "init_ranges (n # ns) i m = init_ranges ns (i + 1) (map_insert (node_range n) i m)"

definition new_DhtCore :: "DhtOptions \<Rightarrow> exn + DhtCore" where
  "new_DhtCore opts =
     (if 8 < maskLength opts then Inl (OperationFailed NOT_SUPPORTED)
      else case init_neighbors (dht_neighbors opts) ([], None) of
             Inl e \<Rightarrow> Inl e
           | Inr (ns, lcl) \<Rightarrow>
              Inr \<lparr>neighbors = ns,
                localNode = (case lcl of Some n \<Rightarrow> n
                  | None \<Rightarrow> new_node\<lparr>node_ip := ''localhost'', node_port := DEFAULT_ERPC_SERVER_PORT, node_state := NODE_READY\<rparr>),
                rangeToHost = init_ranges ns 0 [],
                core_maskLength = maskLength opts, core_maskOffset = maskOffset opts\<rparr>)"

text \<open>\<open>_genHash\<close>: each byte is promoted to a 32-bit int, shifted there, and widened with its sign. A
  shift by 32 bits or more is undefined.\<close>

definition shifted_byte :: "nat \<Rightarrow> u8 \<Rightarrow> exn + u64" where
  "shifted_byte i b = (if 4 \<le> i then Inl Undefined else Inr (scast (push_bit (8 * i) (ucast b :: u32))))"

fun hash_loop :: "nat \<Rightarrow> bytes \<Rightarrow> nat \<Rightarrow> u64 \<Rightarrow> exn + u64" where
  "hash_loop 0 key i subKey = Inr subKey"
| "hash_loop (Suc k) key i subKey =
     (if length key \<le> i then Inl Undefined
      else case shifted_byte i (key ! i) of Inl e \<Rightarrow> Inl e | Inr v \<Rightarrow> hash_loop k key (i + 1) (subKey + v))"

definition genHash :: "DhtCore \<Rightarrow> bytes \<Rightarrow> exn + u64" where
  "genHash c key = hash_loop (unat (core_maskLength c)) (drop (unat (core_maskOffset c)) key) 0 0"

definition in_range :: "u64 \<Rightarrow> int \<times> int \<Rightarrow> bool" where
  "in_range h r \<longleftrightarrow> word_of_int (fst r) \<le> h \<and> h \<le> word_of_int (snd r)"

definition getHostForKey :: "DhtCore \<Rightarrow> bytes \<Rightarrow> exn + nat" where
  "getHostForKey c key =
     (if core_maskLength c = 0 then Inl (OperationFailed KEY_NOT_FOUND)
      else case genHash c key of
             Inl e \<Rightarrow> Inl e
           | Inr h \<Rightarrow>
              (case find (\<lambda>(r, i). in_range h r) (rangeToHost c) of
                 Some (r, i) \<Rightarrow> Inr i
               | None \<Rightarrow> Inl (OperationFailed KEY_NOT_FOUND)))"

definition isLocalKey :: "DhtCore \<Rightarrow> bytes \<Rightarrow> exn + bool" where
  "isLocalKey c key =
     (if 0 < core_maskLength c
      then map_sum id (\<lambda>h. ucast (node_start (localNode c)) \<le> h \<and> h \<le> ucast (node_end (localNode c))) (genHash c key)
      else Inr True)"

text \<open>\<open>getHostAny\<close> with its thread-local index.\<close>

definition getHostAny :: "DhtCore \<Rightarrow> nat \<Rightarrow> exn + nat \<times> nat" where
  "getHostAny c idx =
     (let maxIdx = length (neighbors c)
      in if maxIdx = 0 then Inl Undefined else let idx = (idx + 1) mod maxIdx in Inr (idx, idx))"

fun hosts_any :: "DhtCore \<Rightarrow> nat \<Rightarrow> nat \<Rightarrow> exn + nat list" where
  "hosts_any c 0 idx = Inr []"
| "hosts_any c (Suc k) idx =
     (case getHostAny c idx of Inl e \<Rightarrow> Inl e | Inr (n, idx) \<Rightarrow> map_sum id ((#) n) (hosts_any c k idx))"

section \<open>Hashes\<close>

fun le_value :: "bytes \<Rightarrow> nat" where
  "le_value [] = 0"
| "le_value (b # bs) = unat b + 256 * le_value bs"

lemma le_value_bound: "le_value bs < 256 ^ length bs"
proof (induction bs)
  case (Cons b bs)
  have "unat b < 256" using unsigned_less [of b, where ?'a = nat] by simp
  moreover have "Suc (le_value bs) * 256 \<le> 256 ^ length bs * 256" using Cons by (intro mult_le_mono1) simp
  ultimately show ?case by simp
qed simp

lemma le_value_append: "le_value (xs @ ys) = le_value xs + 256 ^ length xs * le_value ys"
  by (induction xs) (auto simp: algebra_simps)

lemma sint_u32:
  fixes w :: u32
  shows "sint w = (if unat w < 2 ^ 31 then int (unat w) else int (unat w) - 2 ^ 32)"
proof -
  have b: "0 \<le> uint w" "uint w < 2 ^ 32" using unsigned_less [of w, where ?'a = int] by auto
  have e: "sint w = (uint w + 2 ^ 31) mod 2 ^ 32 - 2 ^ 31"
    by (simp add: sint_uint signed_take_bit_eq_take_bit_shift take_bit_eq_mod)
  have u: "int (unat w) = uint w" by simp
  have "unat w < 2147483648 \<longleftrightarrow> uint w < 2147483648" using u by linarith
  then have c: "unat w < 2 ^ 31 \<longleftrightarrow> uint w < 2 ^ 31" by simp
  show ?thesis unfolding c u
  proof (cases "uint w < 2 ^ 31")
    case True
    then have "(uint w + 2 ^ 31) mod 2 ^ 32 = uint w + 2 ^ 31" using b by (intro mod_pos_pos_trivial) auto
    then show "sint w = (if uint w < 2 ^ 31 then uint w else uint w - 2 ^ 32)" using True e by simp
  next
    case False
    then have "(uint w + 2 ^ 31) mod 2 ^ 32 = uint w + 2 ^ 31 - 2 ^ 32"
      using mod_add_self2 [of "uint w - 2147483648" 4294967296] mod_pos_pos_trivial [of "uint w - 2147483648" 4294967296] b
      by (simp add: add.commute)
    then show "sint w = (if uint w < 2 ^ 31 then uint w else uint w - 2 ^ 32)" using False e by simp
  qed
qed

lemma scast_small: "unat (w :: u32) < 2 ^ 31 \<Longrightarrow> unat (scast w :: u64) = unat w"
proof -
  assume a: "unat w < 2 ^ 31"
  then have "scast w = (of_nat (unat w) :: u64)" by (simp add: scast_eq sint_u32)
  then show ?thesis using a by (simp add: unat_of_nat take_bit_nat_eq_self)
qed

lemma scast_large: "2 ^ 31 \<le> unat (w :: u32) \<Longrightarrow> unat (scast w :: u64) = 2 ^ 64 - 2 ^ 32 + unat w"
proof -
  assume a: "2 ^ 31 \<le> unat w"
  have lt: "unat w < 2 ^ 32" using unsigned_less [of w, where ?'a = nat] by simp
  have l: "unat w < 4294967296" "2147483648 \<le> unat w" using lt a by simp_all
  let ?y = "int (unat w) + 18446744069414584320"
  have y: "0 \<le> ?y" "?y < 18446744073709551616" using l by linarith+
  have "uint (scast w :: u64) = (int (unat w) - 4294967296) mod 18446744073709551616"
    using a by (simp only: scast_eq sint_u32 uint_word_of_int) simp
  also have "\<dots> = ?y mod 18446744073709551616"
    using mod_add_self2 [of "int (unat w) - 4294967296" 18446744073709551616] by (simp add: add.commute)
  also have "\<dots> = ?y" using y by (rule mod_pos_pos_trivial)
  finally have "int (unat (scast w :: u64)) = int (unat w + 18446744069414584320)" by simp
  then have "unat (scast w :: u64) = unat w + 18446744069414584320" by (simp only: of_nat_eq_iff)
  then show ?thesis by simp
qed

lemma unat_shift_byte: "i < 4 \<Longrightarrow> unat (push_bit (8 * i) (ucast (b :: u8) :: u32)) = unat b * 256 ^ i"
proof -
  assume i: "i < 4"
  have b: "unat b < 256" using unsigned_less [of b, where ?'a = nat] by simp
  have "i = 0 \<or> i = 1 \<or> i = 2 \<or> i = 3" using i by auto
  then show ?thesis using b
    by (auto simp: push_bit_eq_mult unat_word_ariths)
qed

lemma shifted_byte_small:
  assumes "i < 3 \<or> (i = 3 \<and> unat b < 128)"
  shows "shifted_byte i b = Inr (of_nat (256 ^ i * unat b))"
proof -
  let ?w = "push_bit (8 * i) (ucast b :: u32)"
  have b: "unat b < 256" using unsigned_less [of b, where ?'a = nat] by simp
  have i: "i < 4" using assms by auto
  have "i = 0 \<or> i = 1 \<or> i = 2 \<or> (i = 3 \<and> unat b < 128)" using assms by auto
  then have "unat b * 256 ^ i < 2 ^ 31" using b by auto
  then have "unat (scast ?w :: u64) = unat b * 256 ^ i" using unat_shift_byte [OF i, of b] scast_small [of ?w] by simp
  then have "scast ?w = (of_nat (unat b * 256 ^ i) :: u64)" by (rule word_eq_of_nat)
  then show ?thesis using i by (simp add: shifted_byte_def mult.commute)
qed

definition byte_fits :: "bytes \<Rightarrow> nat \<Rightarrow> bool" where
  "byte_fits key j \<longleftrightarrow> j < 3 \<or> (j = 3 \<and> unat (key ! j) < 128)"

lemma hash_loop_le:
  assumes "i + k \<le> length key" "\<forall>j. i \<le> j \<and> j < i + k \<longrightarrow> byte_fits key j"
  shows "hash_loop k key i acc = Inr (acc + of_nat (256 ^ i * le_value (take k (drop i key))))"
  using assms
proof (induction k arbitrary: i acc)
  case (Suc k)
  have sb: "shifted_byte i (key ! i) = Inr (of_nat (256 ^ i * unat (key ! i)))"
    using Suc.prems by (intro shifted_byte_small) (simp add: byte_fits_def)
  have "drop i key = key ! i # drop (Suc i) key" using Suc.prems(1) by (simp add: Cons_nth_drop_Suc)
  then have "256 ^ i * le_value (take (Suc k) (drop i key)) =
      256 ^ i * unat (key ! i) + 256 ^ Suc i * le_value (take k (drop (Suc i) key))" by (simp add: algebra_simps)
  moreover have "hash_loop k key (Suc i) (acc + of_nat (256 ^ i * unat (key ! i))) =
      Inr (acc + of_nat (256 ^ i * unat (key ! i)) + of_nat (256 ^ Suc i * le_value (take k (drop (Suc i) key))))"
    using Suc.prems by (intro Suc.IH) auto
  ultimately show ?case using sb Suc.prems(1) by (simp add: add.assoc del: of_nat_mult of_nat_power power_Suc)
qed simp

lemma genHash_le:
  assumes "unat (core_maskOffset c) + unat (core_maskLength c) \<le> length key" "unat (core_maskLength c) \<le> 4"
    and "unat (core_maskLength c) = 4 \<longrightarrow> unat (key ! (unat (core_maskOffset c) + 3)) < 128"
  shows "genHash c key = Inr (of_nat (le_value (take (unat (core_maskLength c)) (drop (unat (core_maskOffset c)) key))))"
proof -
  have "\<forall>j. 0 \<le> j \<and> j < 0 + unat (core_maskLength c) \<longrightarrow> byte_fits (drop (unat (core_maskOffset c)) key) j"
  proof (intro allI impI)
    fix j
    assume "0 \<le> j \<and> j < 0 + unat (core_maskLength c)"
    then have "j < 3 \<or> (j = 3 \<and> unat (core_maskLength c) = 4)" using assms(2) by linarith
    then show "byte_fits (drop (unat (core_maskOffset c)) key) j" using assms by (auto simp: byte_fits_def)
  qed
  then show ?thesis using hash_loop_le [of 0 "unat (core_maskLength c)" "drop (unat (core_maskOffset c)) key" 0] assms(1)
    by (simp add: genHash_def)
qed

lemma genHash_sign:
  assumes "unat (core_maskOffset c) + 4 \<le> length key" "unat (core_maskLength c) = 4"
    and top: "128 \<le> unat (key ! (unat (core_maskOffset c) + 3))"
  shows "\<exists>h. genHash c key = Inr h \<and> 2 ^ 63 \<le> unat h"
proof -
  let ?k = "drop (unat (core_maskOffset c)) key"
  have k3: "?k ! 3 = key ! (unat (core_maskOffset c) + 3)" using assms(1) by simp
  have b: "unat (?k ! 3) < 256" using unsigned_less [of "?k ! 3", where ?'a = nat] by simp
  let ?w = "push_bit (8 * 3) (ucast (?k ! 3) :: u32)"
  have uw: "unat ?w = unat (?k ! 3) * 256 ^ 3" by (rule unat_shift_byte) simp
  then have us: "unat (scast ?w :: u64) = 2 ^ 64 - 2 ^ 32 + unat (?k ! 3) * 256 ^ 3"
    using scast_large [of ?w] top k3 by simp
  have h3: "hash_loop 3 ?k 0 0 = Inr (of_nat (le_value (take 3 ?k)))"
    using hash_loop_le [of 0 3 ?k 0] assms(1) by (simp add: byte_fits_def)
  have l3: "le_value (take 3 ?k) < 256 ^ 3" using le_value_bound [of "take 3 ?k"] assms(1) by simp
  have len: "3 < length ?k" using assms(1) by simp
  have "hash_loop 4 ?k 0 0 = Inr (of_nat (le_value (take 3 ?k)) + scast ?w)"
    using h3 len by (simp add: numeral_eq_Suc shifted_byte_def split: sum.splits if_splits)
  moreover have "unat (of_nat (le_value (take 3 ?k)) + scast ?w :: u64) = le_value (take 3 ?k) + (2 ^ 64 - 2 ^ 32 + unat (?k ! 3) * 256 ^ 3)"
    using us l3 b by (simp add: unat_word_ariths unat_of_nat take_bit_nat_eq_self)
  ultimately show ?thesis using assms(2) by (simp add: genHash_def)
qed

section \<open>Ranges\<close>

lemma set_map_insert: "set (map_insert k v m) \<subseteq> insert (k, v) (set m)" "(k, v) \<in> set (map_insert k v m)"
  by (induction k v m rule: map_insert.induct) auto

lemma map_insert_keys: "fst ` set (map_insert k v m) = insert k (fst ` set m)"
  by (induction k v m rule: map_insert.induct) auto

lemma init_ranges_sound:
  "(r, j) \<in> set (init_ranges ns i m) \<Longrightarrow> (r, j) \<in> set m \<or> (i \<le> j \<and> j < i + length ns \<and> r = node_range (ns ! (j - i)))"
proof (induction ns arbitrary: i m)
  case (Cons n ns)
  then have "(r, j) \<in> set (map_insert (node_range n) i m) \<or> (i + 1 \<le> j \<and> j < i + 1 + length ns \<and> r = node_range (ns ! (j - (i + 1))))"
    using Cons.IH [of "i + 1" "map_insert (node_range n) i m"] by simp
  then consider "(r, j) \<in> set m" | "r = node_range n" "j = i"
    | "i + 1 \<le> j" "j < i + 1 + length ns" "r = node_range (ns ! (j - (i + 1)))"
    using set_map_insert(1) [of "node_range n" i m] by auto
  then show ?case
  proof cases
    case 3
    then have "(n # ns) ! (j - i) = ns ! (j - (i + 1))" by (simp add: nth_Cons')
    then show ?thesis using 3 by simp
  qed auto
qed simp

lemma init_ranges_keys: "fst ` set (init_ranges ns i m) = fst ` set m \<union> node_range ` set ns"
  by (induction ns arbitrary: i m) (auto simp: map_insert_keys)

lemma new_DhtCore_ranges:
  assumes "new_DhtCore opts = Inr c"
  shows "(r, j) \<in> set (rangeToHost c) \<Longrightarrow> j < length (neighbors c) \<and> r = node_range (neighbors c ! j)"
    and "n \<in> set (neighbors c) \<Longrightarrow> \<exists>j. (node_range n, j) \<in> set (rangeToHost c)"
proof -
  have r: "rangeToHost c = init_ranges (neighbors c) 0 []"
    using assms by (auto simp: new_DhtCore_def split: if_splits sum.splits)
  show "(r, j) \<in> set (rangeToHost c) \<Longrightarrow> j < length (neighbors c) \<and> r = node_range (neighbors c ! j)"
    using init_ranges_sound [of r j "neighbors c" 0 "[]"] r by simp
  show "\<exists>j. (node_range n, j) \<in> set (rangeToHost c)" if "n \<in> set (neighbors c)"
  proof -
    have "node_range n \<in> fst ` set (rangeToHost c)" using init_ranges_keys [of "neighbors c" 0 "[]"] r that by simp
    then show ?thesis by auto
  qed
qed

lemma find_SomeD: "find P xs = Some x \<Longrightarrow> x \<in> set xs \<and> P x"
  by (induction xs) (auto split: if_splits)

lemma getHostForKey_spec:
  assumes new: "new_DhtCore opts = Inr c" and m: "core_maskLength c \<noteq> 0" and h: "genHash c key = Inr h"
  shows "(\<exists>i. getHostForKey c key = Inr i \<and> i < length (neighbors c) \<and> in_range h (node_range (neighbors c ! i))) \<or>
     (getHostForKey c key = Inl (OperationFailed KEY_NOT_FOUND) \<and> (\<forall>n \<in> set (neighbors c). \<not> in_range h (node_range n)))"
proof (cases "find (\<lambda>(r, i). in_range h r) (rangeToHost c)")
  case None
  then have no: "\<not> in_range h r" if "(r, i) \<in> set (rangeToHost c)" for r i 
    using that unfolding find_None_iff by blast
  have "\<forall>n \<in> set (neighbors c). \<not> in_range h (node_range n)" using new_DhtCore_ranges(2) [OF new] no by blast
  then show ?thesis using None m h by (simp add: getHostForKey_def)
next
  case (Some ri)
  obtain r i where rp: "ri = (r, i)" by (cases ri)
  then have ri: "ri = (r, i)" "(r, i) \<in> set (rangeToHost c)" "in_range h r"
    using find_SomeD [OF Some] by simp_all
  then show ?thesis using new_DhtCore_ranges(1) [OF new ri(2)] Some m h by (simp add: getHostForKey_def)
qed

text \<open>For ranges of non-negative numbers the signed view is the number itself.\<close>

lemma in_range_small:
  assumes "unat (node_start n) < 2 ^ 31" "unat (node_end n) < 2 ^ 31"
  shows "in_range h (node_range n) \<longleftrightarrow> unat (node_start n) \<le> unat h \<and> unat h \<le> unat (node_end n)"
proof -
  have w: "(word_of_int (sint x) :: u64) = of_nat (unat x)" if "unat x < 2 ^ 31" for x :: u32
    using that by (simp add: sint_u32)
  have u: "unat (of_nat (unat x) :: u64) = unat x" if "unat x < 2 ^ 31" for x :: u32
    using that by (simp add: unat_of_nat take_bit_nat_eq_self)
  show ?thesis using assms by (simp only: in_range_def node_range_def fst_conv snd_conv w word_le_nat_alt u)
qed

section \<open>Taking any host\<close>

lemma hosts_any_eq:
  assumes "neighbors c \<noteq> []"
  shows "hosts_any c k idx = Inr (map (\<lambda>j. (idx + j + 1) mod length (neighbors c)) [0..<k])"
proof (induction k arbitrary: idx)
  case (Suc k)
  let ?n = "length (neighbors c)"
  have "map (\<lambda>j. ((idx + 1) mod ?n + j + 1) mod ?n) [0..<k] = map (\<lambda>j. (idx + j + 1) mod ?n) [1..<Suc k]"
  proof -
    have "((idx + 1) mod ?n + j + 1) mod ?n = (idx + Suc j + 1) mod ?n" for j
      using mod_add_left_eq [of "idx + 1" ?n "j + 1"] by (simp add: add.assoc)
    then show ?thesis by (simp only: map_Suc_upt [symmetric] One_nat_def map_map o_def)
  qed
  then show ?case using Suc assms by (simp add: getHostAny_def Let_def upt_conv_Cons del: upt_Suc)
qed simp

lemma mod_shift_inj: "inj_on (\<lambda>j. (a + j + 1) mod n) {0..<n :: nat}"
proof (rule linorder_inj_onI')
  fix i j assume a: "i \<in> {0..<n}" "j \<in> {0..<n}" "i < j"
  show "(a + i + 1) mod n \<noteq> (a + j + 1) mod n"
  proof
    assume "(a + i + 1) mod n = (a + j + 1) mod n"
    then have "n dvd (a + j + 1) - (a + i + 1)" using a(3) by (subst mod_eq_dvd_iff_nat [symmetric]) auto
    then have "n dvd j - i" using a(3) by simp
    then have "n \<le> j - i" using a(3) by (intro dvd_imp_le) auto
    then show False using a by auto
  qed
qed

section \<open>Properties\<close>

text \<open>The hash of a key, for a mask of at most four bytes whose top bit is clear.\<close>

definition key_number :: "DhtCore \<Rightarrow> bytes \<Rightarrow> nat" where
  "key_number c key = le_value (take (unat (core_maskLength c)) (drop (unat (core_maskOffset c)) key))"

definition maskable :: "DhtCore \<Rightarrow> bytes \<Rightarrow> bool" where
  "maskable c key \<longleftrightarrow> 0 < unat (core_maskLength c) \<and> unat (core_maskLength c) \<le> 4 \<and>
     unat (core_maskOffset c) + unat (core_maskLength c) \<le> length key \<and>
     (unat (core_maskLength c) = 4 \<longrightarrow> unat (key ! (unat (core_maskOffset c) + 3)) < 128)"

definition serves :: "DhtNode \<Rightarrow> nat \<Rightarrow> bool" where
  "serves n k \<longleftrightarrow> unat (node_start n) \<le> k \<and> k \<le> unat (node_end n)"

definition plain_range :: "DhtNode \<Rightarrow> bool" where
  "plain_range n \<longleftrightarrow> unat (node_start n) < 2 ^ 31 \<and> unat (node_end n) < 2 ^ 31"

lemma maskable_hash:
  assumes "maskable c key"
  shows "genHash c key = Inr (of_nat (key_number c key))" "unat (of_nat (key_number c key) :: u64) = key_number c key"
proof -
  show "genHash c key = Inr (of_nat (key_number c key))"
    using assms by (simp add: maskable_def key_number_def genHash_le)
  let ?m = "unat (core_maskLength c)"
  have "length (take ?m (drop (unat (core_maskOffset c)) key)) = ?m" using assms by (auto simp: maskable_def)
  then have "key_number c key < 256 ^ ?m"
    using le_value_bound [of "take ?m (drop (unat (core_maskOffset c)) key)"] by (simp only: key_number_def)
  also have "\<dots> \<le> 256 ^ 4" using assms by (intro power_increasing) (auto simp: maskable_def)
  finally show "unat (of_nat (key_number c key) :: u64) = key_number c key" by (simp add: unat_of_nat take_bit_nat_eq_self)
qed

text \<open>C10. Keys are routed by their masked bytes read as a little-endian number: a lookup finds a
  neighbour whose configured range holds the number, it fails with \<open>KEY_NOT_FOUND\<close> only if no
  neighbour serves the number, and a key counts as local exactly if the local range holds it.\<close>

theorem dht_routes_to_serving_node:
  assumes "new_DhtCore opts = Inr c" "maskable c key" "\<forall>n \<in> set (neighbors c). plain_range n"
  shows "(case getHostForKey c key of
            Inr i \<Rightarrow> i < length (neighbors c) \<and> serves (neighbors c ! i) (key_number c key)
          | Inl e \<Rightarrow> e = OperationFailed KEY_NOT_FOUND \<and> (\<forall>n \<in> set (neighbors c). \<not> serves n (key_number c key))) \<and>
         isLocalKey c key = Inr (serves (localNode c) (key_number c key))"
proof
  note h = maskable_hash [OF assms(2)]
  have m: "core_maskLength c \<noteq> 0" using assms(2) by (auto simp: maskable_def)
  have r: "in_range (of_nat (key_number c key)) (node_range n) \<longleftrightarrow> serves n (key_number c key)" if "n \<in> set (neighbors c)" for n
    using assms(3) that by (simp only: in_range_small plain_range_def serves_def h(2))
  show "case getHostForKey c key of
            Inr i \<Rightarrow> i < length (neighbors c) \<and> serves (neighbors c ! i) (key_number c key)
          | Inl e \<Rightarrow> e = OperationFailed KEY_NOT_FOUND \<and> (\<forall>n \<in> set (neighbors c). \<not> serves n (key_number c key))"
    using getHostForKey_spec [OF assms(1) m h(1)]
  proof (elim disjE exE conjE)
    fix i assume "getHostForKey c key = Inr i" "i < length (neighbors c)"
      "in_range (of_nat (key_number c key)) (node_range (neighbors c ! i))"
    then show ?thesis using r [of "neighbors c ! i"] by simp
  qed (simp add: r)
  have "0 < core_maskLength c" using m by (simp add: word_neq_0_conv)
  then show "isLocalKey c key = Inr (serves (localNode c) (key_number c key))"
    by (simp add: isLocalKey_def h(1)) (simp only: word_le_nat_alt unat_ucast_u32_u64 h(2) serves_def)
qed

definition two_nodes :: "u32 \<Rightarrow> DhtOptions" where
  "two_nodes len = \<lparr>dht_id = 0, numOfDhtThreads = 1, baseDhtId = 0, maskLength = len, maskOffset = 1, dht_neighbors =
     [\<lparr>nb_ip = ''10.0.0.1'', nb_port = 31850, nb_local = True, range_start = ''0'', range_end = ''9''\<rparr>,
      \<lparr>nb_ip = ''10.0.0.2'', nb_port = 31850, nb_local = False, range_start = ''10'', range_end = ''300''\<rparr>]\<rparr>"

definition two_nodes_core :: "u32 \<Rightarrow> DhtCore" where
  "two_nodes_core len = \<lparr>neighbors =
       [\<lparr>node_ip = ''10.0.0.2'', node_port = 31850, sessionId = - 1, node_start = 10, node_end = 300, node_state = NODE_INIT\<rparr>],
     localNode = \<lparr>node_ip = ''10.0.0.1'', node_port = 31850, sessionId = - 1, node_start = 0, node_end = 9, node_state = NODE_READY\<rparr>,
     rangeToHost = [((10, 300), 0)], core_maskLength = len, core_maskOffset = 1\<rparr>"

lemma two_nodes_2: "new_DhtCore (two_nodes 2) = Inr (two_nodes_core 2)"
  by code_simp

lemma two_nodes_4: "new_DhtCore (two_nodes 4) = Inr (two_nodes_core 4)"
  by code_simp

theorem dht_routes_to_serving_node_witness:
  "getHostForKey (two_nodes_core 2) [7, 44, 1] = Inr 0 \<and> isLocalKey (two_nodes_core 2) [7, 44, 1] = Inr False"
proof -
  let ?c = "two_nodes_core 2"
  have m: "maskable ?c [7, 44, 1]" by (simp add: maskable_def two_nodes_core_def)
  have n: "length (neighbors ?c) = 1" "plain_range (neighbors ?c ! 0)" by (simp_all add: two_nodes_core_def plain_range_def)
  have mem: "neighbors ?c ! 0 \<in> set (neighbors ?c)" using n(1) by (intro nth_mem) simp
  have k: "key_number ?c [7, 44, 1] = 300" by (simp add: key_number_def two_nodes_core_def)
  have s: "serves (neighbors ?c ! 0) 300" "\<not> serves (localNode ?c) 300" by (simp_all add: serves_def two_nodes_core_def)
  have "\<forall>n \<in> set (neighbors ?c). plain_range n" using n by (auto simp: length_Suc_conv)
  from dht_routes_to_serving_node [OF two_nodes_2 m this] show ?thesis
    using s n(1) mem by (simp only: k) (auto split: sum.splits)
qed

text \<open>C35. The hash widens a 32-bit int with its sign: with a mask of four bytes every key whose top
  masked byte is 128 or more gets a hash of at least $2^{63}$. Such a key is never local, whatever
  range the local node was given, and no neighbour with a range of non-negative numbers is found for
  it.\<close>

theorem high_keys_have_no_node:
  assumes "new_DhtCore opts = Inr c" "unat (core_maskLength c) = 4" "unat (core_maskOffset c) + 4 \<le> length key"
    and "128 \<le> unat (key ! (unat (core_maskOffset c) + 3))" "\<forall>n \<in> set (neighbors c). plain_range n"
  shows "getHostForKey c key = Inl (OperationFailed KEY_NOT_FOUND) \<and> isLocalKey c key = Inr False"
proof
  obtain h where h: "genHash c key = Inr h" "2 ^ 63 \<le> unat h" using genHash_sign assms(2-4) by blast
  have m: "core_maskLength c \<noteq> 0" using assms(2) by auto
  have small: "unat (w :: u32) < unat h" for w
  proof -
    have "unat w < 2 ^ 32" using unsigned_less [of w, where ?'a = nat] by simp
    then show ?thesis using h(2) by simp
  qed
  have "\<not> in_range h (node_range n)" if "n \<in> set (neighbors c)" for n
    using assms(5) that small [of "node_end n"] in_range_small [of n h] unfolding plain_range_def by auto
  then show "getHostForKey c key = Inl (OperationFailed KEY_NOT_FOUND)"
    using getHostForKey_spec [OF assms(1) m h(1)] nth_mem by blast
  have "0 < core_maskLength c" using m by (simp add: word_neq_0_conv)
  moreover have "\<not> h \<le> ucast (node_end (localNode c))"
    using small [of "node_end (localNode c)"] by (simp only: word_le_nat_alt unat_ucast_u32_u64 not_le)
  ultimately show "isLocalKey c key = Inr False" by (simp add: isLocalKey_def h(1))
qed

theorem high_keys_have_no_node_witness:
  "getHostForKey (two_nodes_core 4) [7, 11, 0, 0, 128] = Inl (OperationFailed KEY_NOT_FOUND) \<and>
   isLocalKey (two_nodes_core 4) [7, 11, 0, 0, 128] = Inr False"
  by (rule high_keys_have_no_node [OF two_nodes_4]) (simp_all add: two_nodes_core_def plain_range_def)

text \<open>Requests for any key are spread round robin: as many calls of \<open>getHostAny\<close> as there are
  neighbours, from any value of the thread's index, ask every neighbour exactly once.\<close>

theorem getHostAny_round_robin:
  assumes "neighbors c \<noteq> []"
  shows "\<exists>hs. hosts_any c (length (neighbors c)) idx = Inr hs \<and> distinct hs \<and> set hs = {..<length (neighbors c)}"
proof -
  let ?n = "length (neighbors c)"
  let ?f = "\<lambda>j. (idx + j + 1) mod ?n"
  have "card (?f ` {0..<?n}) = ?n" using card_image [OF mod_shift_inj [of idx ?n]] by simp
  then have "?f ` {0..<?n} = {..<?n}" using assms by (intro card_subset_eq) auto
  then have "distinct (map ?f [0..<?n]) \<and> set (map ?f [0..<?n]) = {..<?n}"
    using mod_shift_inj [of idx ?n] by (simp add: distinct_map)
  then show ?thesis using hosts_any_eq [OF assms, of ?n idx] by blast
qed

theorem getHostAny_round_robin_witness:
  "\<exists>hs. hosts_any (two_nodes_core 2) 1 0 = Inr hs \<and> distinct hs \<and> set hs = {..<1}"
  using getHostAny_round_robin [of "two_nodes_core 2" 0] by (simp add: two_nodes_core_def)

end
