(* ===== verification/Spdk_Core.thy ===== *)
theory Spdk_Core
  imports Jbod Dht_Core
begin

text \<open>
  Starting the offload: the addresses of the devices and the file SPDK is configured by,
  \<^verbatim>\<open>lib/spdk/SpdkConf.cpp\<close> and \<^verbatim>\<open>lib/spdk/SpdkCore.cpp\<close>, the choice of the device class,
  \<^verbatim>\<open>lib/spdk/SpdkBdevFactory.cpp\<close>, and the start of a block device on the thread of SPDK.
\<close>

section \<open>Addresses\<close>

definition hex_digit :: "char \<Rightarrow> nat option" where
  "hex_digit c =
     (let n = of_char c :: nat
      in if 48 \<le> n \<and> n \<le> 57 then Some (n - 48)
         else if 65 \<le> n \<and> n \<le> 70 then Some (n - 55)
         else if 97 \<le> n \<and> n \<le> 102 then Some (n - 87) else None)"

fun hex_digits :: "nat \<Rightarrow> string \<Rightarrow> nat \<times> string" where
  "hex_digits acc [] = (acc, [])"
| "hex_digits acc (c # s) = (case hex_digit c of None \<Rightarrow> (acc, c # s) | Some d \<Rightarrow> hex_digits (16 * acc + d) s)"

text \<open>The conversion \<open>%x\<close> of \<open>sscanf\<close>: blanks, a sign, a prefix, digits. A number that does not fit an
  \<open>unsigned int\<close> is undefined.\<close>

definition scan_hex :: "string \<Rightarrow> (exn + u32) option \<times> string" where
  "scan_hex s =
     (let s = dropWhile is_blank s;
          (neg, s) = (case s of c # cs \<Rightarrow> if c = CHR ''-'' then (True, cs) else if c = CHR ''+'' then (False, cs) else (False, s)
                      | [] \<Rightarrow> (False, []));
          s = (case s of a # b # cs \<Rightarrow> if a = CHR ''0'' \<and> (b = CHR ''x'' \<or> b = CHR ''X'') then cs else s | _ \<Rightarrow> s);
          (n, r) = hex_digits 0 s
      in if length r = length s then (None, r)
         else (Some (if n < 2 ^ 32 then Inr (if neg then - of_nat n else of_nat n) else Inl Undefined), r))"

text \<open>The numbers \<open>sscanf\<close> reads before the format or a conversion fails.\<close>

fun scan_fmt :: "char list \<Rightarrow> string \<Rightarrow> exn + u32 list" where
  "scan_fmt seps s =
     (case scan_hex s of
        (None, r) \<Rightarrow> Inr []
      | (Some (Inl e), r) \<Rightarrow> Inl e
      | (Some (Inr n), r) \<Rightarrow>
         (case (seps, r) of
            (c # seps, d # r) \<Rightarrow> if d = c then map_sum id ((#) n) (scan_fmt seps r) else Inr [n]
          | _ \<Rightarrow> Inr [n]))"

text \<open>\<open>parsePciAddr\<close> passes the addresses of single bytes where \<open>sscanf\<close> stores four: each store covers the
  bytes behind its field, which the next one sets, and the last ones lie behind the structure of
  seven bytes. The second component is the number of bytes written there; the fields are at 0, 4, 5, 6.\<close>

definition SIZEOF_PciAddr :: nat where
  "SIZEOF_PciAddr = 7"

definition parsePciAddr :: "string \<Rightarrow> exn + PciAddr \<times> nat" where
  "parsePciAddr addr =
     map_sum id (\<lambda>ns.
        (case ns of
           [a, b, c, d] \<Rightarrow> \<lparr>domain = a, bus = ucast b, dev = ucast c, func = ucast d\<rparr>
         | _ \<Rightarrow> \<lparr>domain = - 1, bus = - 1, dev = - 1, func = - 1\<rparr>,
         length ns + 2 + 4 - SIZEOF_PciAddr))
       (scan_fmt [CHR '':'', CHR '':'', CHR ''.''] addr)"

fun copyDevs :: "OffloadDevDescriptor list \<Rightarrow> exn + SpdkBdevConf list" where
  "copyDevs [] = Inr []"
| "copyDevs (d # ds) =
     (case parsePciAddr (nvmeAddr d) of
        Inl e \<Rightarrow> Inl e
      | Inr (p, over) \<Rightarrow>
         map_sum id ((#) \<lparr>conf_devName = devName d, conf_nvmeAddr = nvmeAddr d, conf_pciAddr = p, conf_nvmeName = nvmeName d\<rparr>) (copyDevs ds))"

definition new_SpdkConf :: "OffloadOptions \<Rightarrow> exn + SpdkConf" where
  "new_SpdkConf opts = map_sum id (\<lambda>ds. \<lparr>conf_devType = devType opts, conf_devs = ds, conf_bdevNum = - 1\<rparr>) (copyDevs (off_devs opts))"

section \<open>The configuration file\<close>

definition DEFAULT_SPDK_CONF_FILE :: string where
  "DEFAULT_SPDK_CONF_FILE = ''spdk.conf''"

text \<open>Files by name, and whether a new one can be opened.\<close>

record files =
  fs_files :: "string \<Rightarrow> string option"
  fs_can_create :: bool

definition conf_line :: "OffloadDevDescriptor \<Rightarrow> string" where
  "conf_line d =
     ''  TransportID '' @ [CHR 0x22] @ ''trtype:PCIe traddr:'' @ nvmeAddr d @ [CHR 0x22] @ '' '' @ nvmeName d @ [CHR 0x0A]"

definition isNvmeInOptions :: "OffloadOptions \<Rightarrow> bool" where
  "isNvmeInOptions opts \<longleftrightarrow> off_devs opts \<noteq> []"

definition removeConfFile :: "files \<Rightarrow> files" where
  "removeConfFile fs = fs\<lparr>fs_files := (fs_files fs)(DEFAULT_SPDK_CONF_FILE := None)\<rparr>"

definition createConfFile :: "OffloadOptions \<Rightarrow> files \<Rightarrow> exn + bool \<times> files" where
  "createConfFile opts fs =
     (let wr = (\<lambda>s. fs\<lparr>fs_files := (fs_files fs)(DEFAULT_SPDK_CONF_FILE \<mapsto> s)\<rparr>); nvme = ''[Nvme]'' @ [CHR 0x0A]
      in if fs_files fs DEFAULT_SPDK_CONF_FILE \<noteq> None then Inr (True, fs)
         else if \<not> isNvmeInOptions opts then Inr (False, fs)
         else if \<not> fs_can_create fs then Inr (False, fs)
         else case devType opts of
                BDEV \<Rightarrow> (case off_devs opts of [d] \<Rightarrow> Inr (True, wr (nvme @ conf_line d)) | _ \<Rightarrow> Inl Abort)
              | JBOD \<Rightarrow> Inr (True, wr (nvme @ concat (map conf_line (off_devs opts))))
              | RAID0 \<Rightarrow> Inr (True, wr []))"

section \<open>The core\<close>

datatype SpdkState = SPDK_INIT | SPDK_READY | SPDK_ERROR | SPDK_STOPPED

text \<open>A new device. What the constructor leaves alone is what the memory held.\<close>

definition new_SpdkBdev :: "'r SpdkBdev \<Rightarrow> 'r SpdkBdev" where
  "new_SpdkBdev junk =
     junk\<lparr>bdev_state := SPDK_BDEV_INIT, ioEngine := None, isRunning := 0, maxIoBufs := 0, ioBufsInUse := 0, blkNumForLba := 0,
       stats := new_stats,
       spBdevCtx := (spBdevCtx junk)\<lparr>blk_size := 0, data_blk_size := 0, buf_align := 0, blk_num := 0, io_pool_size := 0,
         io_cache_size := 0, io_min_size := 4096\<rparr>\<rparr>"

datatype 'r spdk_device = BdevDevice "'r SpdkBdev" | JbodDevice "'r SpdkJBODBdev" | Raid0Device

definition getBdev :: "'r SpdkBdev \<Rightarrow> OffloadDevType \<Rightarrow> 'r spdk_device" where
  "getBdev junk ty =
     (case ty of
        BDEV \<Rightarrow> BdevDevice (new_SpdkBdev junk)
      | JBOD \<Rightarrow> JbodDevice (new_SpdkJBODBdev (spBdevCtx (new_SpdkBdev junk)))
      | RAID0 \<Rightarrow> Raid0Device)"

record 'r SpdkCore =
  sc_state :: SpdkState
  sc_bdev :: "'r spdk_device"
  sc_options :: OffloadOptions
  sc_conf :: SpdkConf

text \<open>Without a configuration file the device is marked missing through a cast to \<open>SpdkBdev\<close>, which is null
  for the other classes. \<open>env_ok\<close> is the answer of \<open>spdk_env_init\<close>.\<close>

definition new_SpdkCore :: "'r SpdkBdev \<Rightarrow> bool \<Rightarrow> OffloadOptions \<Rightarrow> files \<Rightarrow> exn + 'r SpdkCore \<times> files" where
  "new_SpdkCore junk env_ok opts fs =
     (case new_SpdkConf opts of
        Inl e \<Rightarrow> Inl e
      | Inr conf \<Rightarrow>
         (case createConfFile opts (removeConfFile fs) of
            Inl e \<Rightarrow> Inl e
          | Inr (True, fs) \<Rightarrow> Inr (\<lparr>sc_state = SPDK_READY, sc_bdev = getBdev junk (devType opts), sc_options = opts, sc_conf = conf\<rparr>, fs)
          | Inr (False, fs) \<Rightarrow>
             (case getBdev junk (devType opts) of
                BdevDevice b \<Rightarrow>
                 Inr (\<lparr>sc_state = (if env_ok then SPDK_READY else SPDK_ERROR), sc_bdev = BdevDevice (b\<lparr>bdev_state := SPDK_BDEV_NOT_FOUND\<rparr>),
                   sc_options = opts, sc_conf = conf\<rparr>, fs)
              | _ \<Rightarrow> Inl Undefined)))"

definition core_isBdevFound :: "SpdkState \<Rightarrow> 'r SpdkBdev \<Rightarrow> bool" where
  "core_isBdevFound st b \<longleftrightarrow> st = SPDK_READY \<and> isBdevFound b"

text \<open>The start on the thread of SPDK up to the main loop, for a block device. The free list of the poller itself
  divides by the number of blocks of a logical block too and is not used afterwards.\<close>

definition spdkStart :: "spdk_info \<Rightarrow> 'r \<Rightarrow> 'r \<Rightarrow> allocator \<Rightarrow> int list \<Rightarrow> bool \<Rightarrow> OffloadOptions \<Rightarrow> SpdkConf \<Rightarrow> 'r SpdkBdev \<Rightarrow> exn + 'r SpdkBdev" where
  "spdkStart si r1 r2 alloc junk poller_ok opts conf b =
     (case bdev_init si r1 r2 conf b of
        Inl e \<Rightarrow> Inl e
      | Inr b \<Rightarrow>
         (let c = spBdevCtx b
          in if blk_size c = 0 then Inl Undefined
             else case initFreeList alloc junk (setBlockNumForLba (getAlignedSize c (of_nat (off_allocUnitSize opts)) div ucast (blk_size c)) b) of
                    Inl e \<Rightarrow> Inl e
                  | Inr b \<Rightarrow> Inr (if poller_ok then setReady (b\<lparr>isRunning := 1\<rparr>) else b)))"

text \<open>The caller waits ten seconds. A device that does not report by then is used as it stands.\<close>

definition started_device :: "spdk_info \<Rightarrow> 'r \<Rightarrow> 'r \<Rightarrow> allocator \<Rightarrow> int list \<Rightarrow> bool \<Rightarrow> OffloadOptions \<Rightarrow> SpdkConf \<Rightarrow> 'r SpdkBdev \<Rightarrow> exn + 'r SpdkBdev" where
  "started_device si r1 r2 alloc junk poller_ok opts conf b =
     (case spdkStart si r1 r2 alloc junk poller_ok opts conf b of
        Inl NoReturn \<Rightarrow> Inr (snd (bdevInit si (conf_bdevNum conf) (bdev_setup r1 r2 (hd (conf_devs conf)) b)))
      | res \<Rightarrow> res)"

end
