(* ===== verification/Kv_Store.thy ===== *)
theory Kv_Store
  imports Pmem_Poller Primary_Key Spdk_Core
begin

text \<open>
  The store itself, \<^verbatim>\<open>lib/core/KVStore.cpp\<close>: it sends a key of another node to the DHT client and serves its
  own keys from the index, the queue of ready keys and the offload threads. The operations of the
  client are an argument here. A call that throws may have changed the state, so an operation
  gives an exception or a result, and a state. Keys are not null. New memory of the heap is shown
  as zeros.
\<close>

section \<open>Keys, values and options\<close>

record Key =
  key_data :: bytes
  key_attr :: KeyValAttribute

definition key_isKvsBuffered :: "Key \<Rightarrow> bool" where
  "key_isKvsBuffered k \<longleftrightarrow> key_attr k = KVS_BUFFERED"

text \<open>The memory of a value: a block of the index, memory of the heap, or a message buffer of the client.\<close>

datatype val_ptr = VNull | PmemPtr oid | HeapPtr bytes | DhtPtr bytes

record Value =
  val_data :: val_ptr
  val_size :: nat
  val_attr :: KeyValAttribute

definition val_isKvsBuffered :: "Value \<Rightarrow> bool" where
  "val_isKvsBuffered v \<longleftrightarrow> val_attr v = KVS_BUFFERED"

record PutOptions =
  put_attr :: PrimaryKeyAttribute
  put_pollerId :: nat
  put_roundRobin :: bool

record GetOptions =
  get_attr :: PrimaryKeyAttribute
  get_pollerId :: nat
  get_roundRobin :: bool

definition default_put :: PutOptions where
  "default_put = \<lparr>put_attr = attr_EMPTY, put_pollerId = 0, put_roundRobin = True\<rparr>"

definition default_get :: GetOptions where
  "default_get = \<lparr>get_attr = attr_EMPTY, get_pollerId = 0, get_roundRobin = True\<rparr>"

section \<open>State\<close>

text \<open>\<open>'q\<close>, \<open>'r\<close>, \<open>'k\<close> and \<open>'p\<close> are the rings of the offload requests, the device tasks, the ready keys and the
  index requests, \<open>'c\<close> is the state of the DHT client. \<open>kv_next\<close> numbers the requests and callbacks made so far.\<close>

record ('q, 'r, 'k, 'p, 'c) KVStore =
  kv_options :: Options
  kv_keySize :: nat
  kv_sys :: "('q, 'r) offload_sys"
  kv_spdkReady :: bool
  kv_offloadPoller :: bool
  kv_dht :: DhtCore
  kv_client :: 'c
  kv_pKey :: PrimaryKeyBase
  kv_readyKeys :: 'k
  kv_rqstPollers :: "(pm_rqst, 'p) Poller list"
  kv_pollerId :: nat
  kv_next :: nat

record 'c dht_client =
  dc_put :: "Key \<Rightarrow> Value \<Rightarrow> 'c \<Rightarrow> (exn + unit) \<times> 'c"
  dc_get :: "Key \<Rightarrow> 'c \<Rightarrow> (exn + Value) \<times> 'c"
  dc_remove :: "Key \<Rightarrow> 'c \<Rightarrow> (exn + unit) \<times> 'c"
  dc_alloc :: "Key \<Rightarrow> nat \<Rightarrow> 'c \<Rightarrow> (exn + Value) \<times> 'c"
  dc_allocKey :: "nat \<Rightarrow> 'c \<Rightarrow> (exn + Key) \<times> 'c"
  dc_free :: "Value \<Rightarrow> 'c \<Rightarrow> (exn + unit) \<times> 'c"
  dc_freeKey :: "Key \<Rightarrow> 'c \<Rightarrow> (exn + unit) \<times> 'c"

text \<open>The outside of a store. \<open>second\<close> is what the threads do in the second a call waits for its callback.\<close>

record ('q, 'r, 'k, 'p, 'c) kv_outside =
  kv_off :: "('q, 'r) outside"
  kv_enq :: "(unit, 'k) ring_enqueue"
  kv_deq :: "(unit, 'k) ring_dequeue"
  kv_ring :: "(pm_rqst, 'p) ring_ops"
  kv_dc :: "'c dht_client"
  second :: "('q, 'r) offload_sys \<Rightarrow> ('q, 'r) offload_sys"

section \<open>Helpers\<close>

abbreviation kv_tree :: "('q, 'r, 'k, 'p, 'c) KVStore \<Rightarrow> ARTree" where
  "kv_tree kv \<equiv> sys_tree (kv_sys kv)"

definition set_tree :: "ARTree \<Rightarrow> ('q, 'r, 'k, 'p, 'c) KVStore \<Rightarrow> ('q, 'r, 'k, 'p, 'c) KVStore" where
  "set_tree t kv = kv\<lparr>kv_sys := (kv_sys kv)\<lparr>sys_tree := t\<rparr>\<rparr>"

definition kv_log :: "event list \<Rightarrow> ('q, 'r, 'k, 'p, 'c) KVStore \<Rightarrow> ('q, 'r, 'k, 'p, 'c) KVStore" where
  "kv_log es kv = kv\<lparr>kv_sys := log_sys es (kv_sys kv)\<rparr>"

definition on_client :: "('c \<Rightarrow> (exn + 'a) \<times> 'c) \<Rightarrow> ('q, 'r, 'k, 'p, 'c) KVStore \<Rightarrow> (exn + 'a) \<times> ('q, 'r, 'k, 'p, 'c) KVStore" where
  "on_client f kv = (case f (kv_client kv) of (r, c) \<Rightarrow> (r, kv\<lparr>kv_client := c\<rparr>))"

definition kv_isOffloadEnabled :: "('q, 'r, 'k, 'p, 'c) KVStore \<Rightarrow> bool" where
  "kv_isOffloadEnabled kv \<longleftrightarrow> kv_spdkReady kv \<and> isOffloadEnabled (sys_dev (kv_sys kv))"

definition EINVAL :: StatusCode where
  "EINVAL = Errno 22"

text \<open>\<open>PrimaryKeyEngine::open\<close> chooses by \<open>maxReadyKeys\<close>.\<close>

definition pKey_enqueueNext :: "('q, 'r, 'k, 'p, 'c) kv_outside \<Rightarrow> bytes \<Rightarrow> ('q, 'r, 'k, 'p, 'c) KVStore \<Rightarrow> exn + ('q, 'r, 'k, 'p, 'c) KVStore" where
  "pKey_enqueueNext y key kv =
     (if maxReadyKeys (opt_runtime (kv_options kv)) = 0 then map_sum id (\<lambda>_. kv) (base_enqueueNext key)
      else map_sum id (\<lambda>k. kv\<lparr>kv_readyKeys := k\<rparr>) (enqueueNext (kv_enq y) (kv_pKey kv) key (kv_readyKeys kv)))"

definition pKey_dequeueNext :: "('q, 'r, 'k, 'p, 'c) kv_outside \<Rightarrow> bytes \<Rightarrow> ('q, 'r, 'k, 'p, 'c) KVStore \<Rightarrow> exn + bytes \<times> ('q, 'r, 'k, 'p, 'c) KVStore" where
  "pKey_dequeueNext y key kv =
     (if maxReadyKeys (opt_runtime (kv_options kv)) = 0 then map_sum id (\<lambda>key. (key, kv)) (base_dequeueNext key)
      else map_sum id (\<lambda>(key, k). (key, kv\<lparr>kv_readyKeys := k\<rparr>)) (dequeueNext (kv_deq y) (kv_pKey kv) key (kv_readyKeys kv)))"

text \<open>A request from one of the pools. Its location is the one its last user set; only updates look at it, and
  they set it.\<close>

definition pool_rqst :: "('q, 'r, 'k, 'p, 'c) KVStore \<Rightarrow> rqst" where
  "pool_rqst kv = \<lparr>rq_id = kv_next kv, rq_op = OFFLOAD_GET, rq_key = [], rq_value = Null, rq_valueSize = 0, rq_clb = None, rq_loc = EMPTY\<rparr>"

text \<open>Handing a request to the offload thread and waiting for its callback: the first call of the callback among
  the events of that second.\<close>

fun find_callback :: "nat \<Rightarrow> event list \<Rightarrow> (StatusCode \<times> bytes option) option" where
  "find_callback c [] = None"
| "find_callback c (Callback c' st key val # es) = (if c' = c then Some (st, val) else find_callback c es)"
| "find_callback c (PoolPut pool i # es) = find_callback c es"

definition enqueue_and_wait ::
  "('q, 'r, 'k, 'p, 'c) kv_outside \<Rightarrow> OffloadOperation \<Rightarrow> rqst \<Rightarrow> ('q, 'r, 'k, 'p, 'c) KVStore \<Rightarrow>
    (exn + StatusCode \<times> bytes option) \<times> ('q, 'r, 'k, 'p, 'c) KVStore" where
  "enqueue_and_wait y pool r kv =
     (if \<not> kv_offloadPoller kv then (Inl Undefined, kv)
      else case offload_enqueue (kv_off y) r (kv_sys kv) of
             (False, s) \<Rightarrow> (Inl QueueFull, kv\<lparr>kv_sys := log_sys [PoolPut pool (rq_id r)] s, kv_next := kv_next kv + 1\<rparr>)
           | (True, s) \<Rightarrow>
              (let s' = second y s; kv = kv\<lparr>kv_sys := s', kv_next := kv_next kv + 1\<rparr>
               in case find_callback (kv_next kv - 1) (drop (length (trace (sys_env s))) (trace (sys_env s'))) of
                    None \<Rightarrow> (Inl (OperationFailed TIME_OUT), kv)
                  | Some (st, val) \<Rightarrow> (Inr (st, val), kv)))"

section \<open>Opening a store\<close>

definition DEFAULT_KEY_SIZE :: nat where
  "DEFAULT_KEY_SIZE = 16"

text \<open>What the store finds: the pool file, the memory of a new device, files, empty rings, where that for the ready keys may not be made, the
  buffers of the process, the answers of SPDK, and the DHT client, which starts now or on its first use.\<close>

record ('q, 'r, 'k, 'p, 'c) kv_site =
  st_pool :: pool_site
  st_bdev :: "'r SpdkBdev"
  st_files :: files
  st_env_ok :: bool
  st_info :: spdk_info
  st_poller_ok :: bool
  st_junk :: "int list"
  st_rqRing :: 'q
  st_taskRing :: 'r
  st_keyRing :: 'k
  st_keyRing_made :: bool
  st_pollRing :: 'p
  st_bufs :: SpdkIoBufMgr
  st_client :: "DhtCore \<Rightarrow> bool \<Rightarrow> exn + 'c"

text \<open>The index: a descriptor of the wrong size is refused after the pool is made or opened.\<close>

definition open_index :: "reserve_fn \<Rightarrow> pool_site \<Rightarrow> KeyDescriptor \<Rightarrow> exn + ARTree" where
  "open_index rsv ps d =
     (case new_TreeImpl rsv ps of
        Inl e \<Rightarrow> Inl e
      | Inr t \<Rightarrow> (case SetKeySize (key_size d) t of (ks, t) \<Rightarrow> if ks \<noteq> key_size d then Inl (OperationFailed NOT_SUPPORTED) else Inr t))"

text \<open>The offload: the core, the device after its start, and whether there is an offload poller.\<close>

definition open_offload :: "('q, 'r) outside \<Rightarrow> ('q, 'r, 'k, 'p, 'c) kv_site \<Rightarrow> 'r SpdkCore \<Rightarrow> 'r SpdkBdev \<Rightarrow> exn + 'r SpdkBdev \<times> bool" where
  "open_offload x st core b =
     (if core_isBdevFound (sc_state core) b
      then map_sum id (\<lambda>b. (b, True))
             (started_device (st_info st) (st_taskRing st) (st_taskRing st) (lba_alloc x) (st_junk st) (st_poller_ok st) (sc_options core) (sc_conf core) b)
      else Inr (b, False))"

text \<open>\<open>None\<close> stands for a store over one of the other device classes.\<close>

definition kv_init :: "('q, 'r, 'k, 'p, 'c) kv_outside \<Rightarrow> ('q, 'r, 'k, 'p, 'c) kv_site \<Rightarrow> Options \<Rightarrow> (exn + ('q, 'r, 'k, 'p, 'c) KVStore) option" where
  "kv_init y st opts =
     (case open_index (reserve (kv_off y)) (st_pool st) (opt_key opts) of
        Inl e \<Rightarrow> Some (Inl e)
      | Inr t \<Rightarrow>
         (case new_SpdkCore (st_bdev st) (st_env_ok st) (opt_offload opts) (st_files st) of
            Inl e \<Rightarrow> Some (Inl e)
          | Inr (core, fs) \<Rightarrow>
             (case new_DhtCore (opt_dht opts) of
                Inl e \<Rightarrow> Some (Inl e)
              | Inr dht \<Rightarrow>
                 (case st_client st dht (numOfDhtThreads (opt_dht opts) \<noteq> 0) of
                    Inl e \<Rightarrow> Some (Inl e)
                  | Inr client \<Rightarrow>
                     (case sc_bdev core of
                        BdevDevice b \<Rightarrow>
                         (case open_offload (kv_off y) st core b of
                            Inl e \<Rightarrow> Some (Inl e)
                          | Inr (b, poller) \<Rightarrow>
                             (case new_PrimaryKeyBase opts of
                                Inl e \<Rightarrow> Some (Inl e)
                              | Inr pk \<Rightarrow>
                                 if maxReadyKeys (opt_runtime opts) \<noteq> 0 \<and> \<not> st_keyRing_made st
                                 then Some (Inl (OperationFailed SPDK_ALLOCATION_ERROR))
                                 else Some (Inr \<lparr>kv_options = opts,
                                   kv_keySize = (if key_size (opt_key opts) = 0 then DEFAULT_KEY_SIZE else key_size (opt_key opts)),
                                   kv_sys = \<lparr>sys_tree = t, sys_poller = \<lparr>rqstRing = st_rqRing st, requests = []\<rparr>, sys_dev = b,
                                     sys_env = \<lparr>bufMgr = st_bufs st, inflight = [], ioWaits = [], trace = []\<rparr>\<rparr>,
                                   kv_spdkReady = (sc_state core = SPDK_READY), kv_offloadPoller = poller, kv_dht = dht, kv_client = client,
                                   kv_pKey = pk, kv_readyKeys = st_keyRing st,
                                   kv_rqstPollers = replicate (unat (numOfPollers (opt_runtime opts))) \<lparr>rqstRing = st_pollRing st, requests = []\<rparr>,
                                   kv_pollerId = 0, kv_next = 0\<rparr>)))
                      | _ \<Rightarrow> None)))))"

section \<open>Operations on raw keys\<close>

definition kv_PutRaw :: "('q, 'r, 'k, 'p, 'c) kv_outside \<Rightarrow> bytes \<Rightarrow> PutOptions \<Rightarrow> ('q, 'r, 'k, 'p, 'c) KVStore \<Rightarrow> (exn + unit) \<times> ('q, 'r, 'k, 'p, 'c) KVStore" where
  "kv_PutRaw y key opts kv =
     (if LONG_TERM (put_attr opts) then (Inl NotImplemented, kv)
      else case ART_Put key (kv_tree kv) of
             (Inl e, t) \<Rightarrow> (Inl e, set_tree t kv)
           | (Inr u, t) \<Rightarrow>
              (let kv = set_tree t kv
               in case pKey_enqueueNext y key kv of
                    Inr kv \<Rightarrow> (Inr (), kv)
                  | Inl (OperationFailed st) \<Rightarrow>
                     (case ART_Remove key (kv_tree kv) of
                        (Inl e, t) \<Rightarrow> (Inl e, set_tree t kv)
                      | (Inr u, t) \<Rightarrow> (Inl (OperationFailed st), set_tree t kv))
                  | Inl e \<Rightarrow> (Inl e, kv)))"

text \<open>\<open>_getOffloaded\<close>: the status the callback gets is not looked at, and a missing value has size zero.\<close>

definition kv_getOffloaded :: "('q, 'r, 'k, 'p, 'c) kv_outside \<Rightarrow> bytes \<Rightarrow> ('q, 'r, 'k, 'p, 'c) KVStore \<Rightarrow> (exn + bytes) \<times> ('q, 'r, 'k, 'p, 'c) KVStore" where
  "kv_getOffloaded y key kv =
     (if \<not> kv_isOffloadEnabled kv then (Inl (OperationFailed OFFLOAD_DISABLED_ERROR), kv)
      else case enqueue_and_wait y OFFLOAD_GET (finalizeGet key Null 0 (Some (kv_next kv)) (pool_rqst kv)) kv of
             (Inl e, kv) \<Rightarrow> (Inl e, kv)
           | (Inr (st, val), kv) \<Rightarrow> (Inr (case val of None \<Rightarrow> [] | Some bs \<Rightarrow> bs), kv))"

text \<open>With a buffer of the caller, the copy of an offloaded value does not look at its size.\<close>

definition kv_getOffloadedBuf :: "('q, 'r, 'k, 'p, 'c) kv_outside \<Rightarrow> bytes \<Rightarrow> bytes \<Rightarrow> ('q, 'r, 'k, 'p, 'c) KVStore \<Rightarrow> (exn + bytes \<times> nat) \<times> ('q, 'r, 'k, 'p, 'c) KVStore" where
  "kv_getOffloadedBuf y key buf kv =
     (case kv_getOffloaded y key kv of
        (Inl e, kv) \<Rightarrow> (Inl e, kv)
      | (Inr bs, kv) \<Rightarrow> if length buf < length bs then (Inl Undefined, kv) else (Inr (memcpy_prefix bs (length bs) buf, length bs), kv))"

text \<open>\<open>Get\<close> into a buffer, which may be null, and into new memory.\<close>

definition kv_GetRawBuf :: "('q, 'r, 'k, 'p, 'c) kv_outside \<Rightarrow> bytes \<Rightarrow> bytes option \<Rightarrow> nat \<Rightarrow> ('q, 'r, 'k, 'p, 'c) KVStore \<Rightarrow> (exn + bytes \<times> nat) \<times> ('q, 'r, 'k, 'p, 'c) KVStore" where
  "kv_GetRawBuf y key value valueSize kv =
     (case ART_Get key (kv_tree kv) of
        Inl e \<Rightarrow> (Inl e, kv)
      | Inr (p, pValSize, loc) \<Rightarrow>
         (case value of
            None \<Rightarrow> (Inl (OperationFailed PMEM_ALLOCATION_ERROR), kv)
          | Some buf \<Rightarrow>
             (if loc = PMEM
              then if valueSize < pValSize then (Inl (OperationFailed EINVAL), kv)
                   else case map_option (blocks (pm (kv_tree kv))) p of
                          Some (Some (ART_Tree.Value bs)) \<Rightarrow>
                           if length bs < pValSize \<or> length buf < pValSize then (Inl Undefined, kv)
                           else (Inr (memcpy_prefix bs pValSize buf, pValSize), kv)
                        | _ \<Rightarrow> (Inl Undefined, kv)
              else if loc = DISK then kv_getOffloadedBuf y key buf kv
              else (Inl (OperationFailed EINVAL), kv))))"

definition kv_GetRaw :: "('q, 'r, 'k, 'p, 'c) kv_outside \<Rightarrow> bytes \<Rightarrow> ('q, 'r, 'k, 'p, 'c) KVStore \<Rightarrow> (exn + bytes) \<times> ('q, 'r, 'k, 'p, 'c) KVStore" where
  "kv_GetRaw y key kv =
     (case ART_Get key (kv_tree kv) of
        Inl e \<Rightarrow> (Inl e, kv)
      | Inr (p, pValSize, loc) \<Rightarrow>
         (if loc = PMEM
          then case map_option (blocks (pm (kv_tree kv))) p of
                 Some (Some (ART_Tree.Value bs)) \<Rightarrow> if length bs < pValSize then (Inl Undefined, kv) else (Inr (take pValSize bs), kv)
               | _ \<Rightarrow> (Inl Undefined, kv)
          else if loc = DISK then kv_getOffloaded y key kv
          else (Inl (OperationFailed EINVAL), kv)))"

definition kv_RemoveRaw :: "('q, 'r, 'k, 'p, 'c) kv_outside \<Rightarrow> bytes \<Rightarrow> ('q, 'r, 'k, 'p, 'c) KVStore \<Rightarrow> (exn + unit) \<times> ('q, 'r, 'k, 'p, 'c) KVStore" where
  "kv_RemoveRaw y key kv =
     (case ART_Get key (kv_tree kv) of
        Inl e \<Rightarrow> (Inl e, kv)
      | Inr (p, sz, loc) \<Rightarrow>
         (if loc = DISK
          then if \<not> kv_isOffloadEnabled kv then (Inl (OperationFailed OFFLOAD_DISABLED_ERROR), kv)
               else case enqueue_and_wait y OFFLOAD_REMOVE (finalizeRemove key Null 0 (Some (kv_next kv)) (pool_rqst kv)) kv of
                      (Inl e, kv) \<Rightarrow> (Inl e, kv)
                    | (Inr _, kv) \<Rightarrow> (Inr (), kv)
          else case ART_Remove key (kv_tree kv) of
                 (Inl e, t) \<Rightarrow> (Inl e, set_tree t kv)
               | (Inr u, t) \<Rightarrow> (Inr (), set_tree t kv)))"

definition kv_AllocRaw :: "('q, 'r, 'k, 'p, 'c) kv_outside \<Rightarrow> bytes \<Rightarrow> nat \<Rightarrow> KeyValAttribute \<Rightarrow> ('q, 'r, 'k, 'p, 'c) KVStore \<Rightarrow> (exn + val_ptr) \<times> ('q, 'r, 'k, 'p, 'c) KVStore" where
  "kv_AllocRaw y key sz attr kv =
     (if attr = KVS_BUFFERED
      then case AllocValueForKey (reserve (kv_off y)) key sz (kv_tree kv) of
             (Inl e, t) \<Rightarrow> (Inl e, set_tree t kv)
           | (Inr b, t) \<Rightarrow> (Inr (PmemPtr b), set_tree t kv)
      else (Inr (HeapPtr (replicate sz 0)), kv))"

section \<open>Operations on keys and values\<close>

definition kv_isLocalKey :: "Key \<Rightarrow> ('q, 'r, 'k, 'p, 'c) KVStore \<Rightarrow> exn + bool" where
  "kv_isLocalKey k kv = isLocalKey (kv_dht kv) (key_data k)"

definition kv_Free :: "('q, 'r, 'k, 'p, 'c) kv_outside \<Rightarrow> Key \<Rightarrow> Value \<Rightarrow> ('q, 'r, 'k, 'p, 'c) KVStore \<Rightarrow> (exn + unit) \<times> ('q, 'r, 'k, 'p, 'c) KVStore" where
  "kv_Free y k v kv =
     (if val_isKvsBuffered v
      then case kv_isLocalKey k kv of
             Inl e \<Rightarrow> (Inl e, kv)
           | Inr lcl \<Rightarrow> if lcl then (Inr (), kv) else on_client (dc_free (kv_dc y) v) kv
      else (Inr (), kv))"

definition kv_FreeKey :: "('q, 'r, 'k, 'p, 'c) kv_outside \<Rightarrow> Key \<Rightarrow> ('q, 'r, 'k, 'p, 'c) KVStore \<Rightarrow> (exn + unit) \<times> ('q, 'r, 'k, 'p, 'c) KVStore" where
  "kv_FreeKey y k kv = (if key_isKvsBuffered k then on_client (dc_freeKey (kv_dc y) k) kv else (Inr (), kv))"

definition kv_free_both :: "('q, 'r, 'k, 'p, 'c) kv_outside \<Rightarrow> Key \<Rightarrow> Value \<Rightarrow> exn + unit \<Rightarrow> ('q, 'r, 'k, 'p, 'c) KVStore \<Rightarrow> (exn + unit) \<times> ('q, 'r, 'k, 'p, 'c) KVStore" where
  "kv_free_both y k v res kv =
     (case kv_Free y k v kv of
        (Inl e, kv) \<Rightarrow> (Inl e, kv)
      | (Inr u, kv) \<Rightarrow> (case kv_FreeKey y k kv of (Inl e, kv) \<Rightarrow> (Inl e, kv) | (Inr u, kv) \<Rightarrow> (res, kv)))"

definition kv_Put :: "('q, 'r, 'k, 'p, 'c) kv_outside \<Rightarrow> Key \<Rightarrow> Value \<Rightarrow> ('q, 'r, 'k, 'p, 'c) KVStore \<Rightarrow> (exn + unit) \<times> ('q, 'r, 'k, 'p, 'c) KVStore" where
  "kv_Put y k v kv =
     (case (case kv_isLocalKey k kv of
              Inl e \<Rightarrow> (Inl e, kv)
            | Inr lcl \<Rightarrow> if lcl then kv_PutRaw y (key_data k) default_put kv else on_client (dc_put (kv_dc y) k v) kv) of
        (res, kv) \<Rightarrow> kv_free_both y k v res kv)"

definition kv_Get :: "('q, 'r, 'k, 'p, 'c) kv_outside \<Rightarrow> Key \<Rightarrow> ('q, 'r, 'k, 'p, 'c) KVStore \<Rightarrow> (exn + Value) \<times> ('q, 'r, 'k, 'p, 'c) KVStore" where
  "kv_Get y k kv =
     (case kv_isLocalKey k kv of
        Inl e \<Rightarrow> (Inl e, kv)
      | Inr lcl \<Rightarrow>
         (if \<not> lcl then on_client (dc_get (kv_dc y) k) kv
          else case kv_GetRaw y (key_data k) kv of
                 (Inl e, kv) \<Rightarrow> (Inl e, kv)
               | (Inr bs, kv) \<Rightarrow> (Inr \<lparr>val_data = HeapPtr bs, val_size = length bs, val_attr = NOT_BUFFERED\<rparr>, kv)))"

definition kv_Remove :: "('q, 'r, 'k, 'p, 'c) kv_outside \<Rightarrow> Key \<Rightarrow> ('q, 'r, 'k, 'p, 'c) KVStore \<Rightarrow> (exn + unit) \<times> ('q, 'r, 'k, 'p, 'c) KVStore" where
  "kv_Remove y k kv =
     (case kv_isLocalKey k kv of
        Inl e \<Rightarrow> (Inl e, kv)
      | Inr lcl \<Rightarrow> if \<not> lcl then on_client (dc_remove (kv_dc y) k) kv else kv_RemoveRaw y (key_data k) kv)"

definition kv_Alloc :: "('q, 'r, 'k, 'p, 'c) kv_outside \<Rightarrow> Key \<Rightarrow> nat \<Rightarrow> KeyValAttribute \<Rightarrow> ('q, 'r, 'k, 'p, 'c) KVStore \<Rightarrow> (exn + Value) \<times> ('q, 'r, 'k, 'p, 'c) KVStore" where
  "kv_Alloc y k sz attr kv =
     (case (if attr = KVS_BUFFERED then kv_isLocalKey k kv else Inr True) of
        Inl e \<Rightarrow> (Inl e, kv)
      | Inr lcl \<Rightarrow>
         (if \<not> lcl then on_client (dc_alloc (kv_dc y) k sz) kv
          else case kv_AllocRaw y (key_data k) sz attr kv of
                 (Inl e, kv) \<Rightarrow> (Inl e, kv)
               | (Inr p, kv) \<Rightarrow> (Inr \<lparr>val_data = p, val_size = sz, val_attr = attr\<rparr>, kv)))"

definition kv_AllocKey :: "('q, 'r, 'k, 'p, 'c) kv_outside \<Rightarrow> KeyValAttribute \<Rightarrow> ('q, 'r, 'k, 'p, 'c) KVStore \<Rightarrow> (exn + Key) \<times> ('q, 'r, 'k, 'p, 'c) KVStore" where
  "kv_AllocKey y attr kv =
     (if attr = KVS_BUFFERED then on_client (dc_allocKey (kv_dc y) (kv_keySize kv)) kv
      else (Inr \<lparr>key_data = replicate (kv_keySize kv) 0, key_attr = NOT_BUFFERED\<rparr>, kv))"

definition kv_GetAny :: "('q, 'r, 'k, 'p, 'c) kv_outside \<Rightarrow> KeyValAttribute \<Rightarrow> ('q, 'r, 'k, 'p, 'c) KVStore \<Rightarrow> (exn + Key) \<times> ('q, 'r, 'k, 'p, 'c) KVStore" where
  "kv_GetAny y attr kv =
     (case kv_AllocKey y attr kv of
        (Inl e, kv) \<Rightarrow> (Inl e, kv)
      | (Inr k, kv) \<Rightarrow>
         (case pKey_dequeueNext y (key_data k) kv of
            Inr (d, kv) \<Rightarrow> (Inr (k\<lparr>key_data := d\<rparr>), kv)
          | Inl e \<Rightarrow> (case kv_FreeKey y k kv of (Inl e, kv) \<Rightarrow> (Inl e, kv) | (Inr u, kv) \<Rightarrow> (Inl e, kv))))"

definition kv_GetAnyRaw :: "('q, 'r, 'k, 'p, 'c) kv_outside \<Rightarrow> bytes \<Rightarrow> ('q, 'r, 'k, 'p, 'c) KVStore \<Rightarrow> (exn + bytes) \<times> ('q, 'r, 'k, 'p, 'c) KVStore" where
  "kv_GetAnyRaw y key kv = (case pKey_dequeueNext y key kv of Inl e \<Rightarrow> (Inl e, kv) | Inr (d, kv) \<Rightarrow> (Inr d, kv))"

definition kv_IsOffloaded :: "Key \<Rightarrow> ('q, 'r, 'k, 'p, 'c) KVStore \<Rightarrow> exn + bool" where
  "kv_IsOffloaded k kv =
     (case ART_Get (key_data k) (kv_tree kv) of
        Inr (p, sz, loc) \<Rightarrow> Inr (loc = DISK)
      | Inl (OperationFailed st) \<Rightarrow> Inr False
      | Inl e \<Rightarrow> Inl e)"

text \<open>\<open>Update\<close> of a long-term value: the value the caller gives is replaced by the one of the index.\<close>

definition kv_Update :: "('q, 'r, 'k, 'p, 'c) kv_outside \<Rightarrow> Key \<Rightarrow> PrimaryKeyAttribute \<Rightarrow> ('q, 'r, 'k, 'p, 'c) KVStore \<Rightarrow> (exn + unit) \<times> ('q, 'r, 'k, 'p, 'c) KVStore" where
  "kv_Update y k attr kv =
     (if \<not> LONG_TERM attr then (Inl NotImplemented, kv)
      else if \<not> kv_isOffloadEnabled kv then (Inl (OperationFailed OFFLOAD_DISABLED_ERROR), kv)
      else case getValCtx ((pool_rqst kv)\<lparr>rq_key := key_data k\<rparr>) (kv_tree kv) of
             Inl e \<Rightarrow> (Inl e, kv)
           | Inr (st, val, sz, loc) \<Rightarrow>
              (if st \<noteq> OK then (Inl (OperationFailed KEY_NOT_FOUND), kv)
               else case finalizeUpdate (key_data k) val sz (Some (kv_next kv)) loc (pool_rqst kv) of
                      Inl e \<Rightarrow> (Inl e, kv)
                    | Inr r \<Rightarrow>
                       (case enqueue_and_wait y OFFLOAD_UPDATE r kv of
                          (Inl e, kv) \<Rightarrow> (Inl e, kv)
                        | (Inr _, kv) \<Rightarrow> (Inr (), kv))))"

section \<open>Asynchronous operations\<close>

text \<open>The poller a request goes to; \<open>at\<close> throws \<open>std::out_of_range\<close>.\<close>

definition choose_poller :: "bool \<Rightarrow> nat \<Rightarrow> ('q, 'r, 'k, 'p, 'c) KVStore \<Rightarrow> exn + nat" where
  "choose_poller rr n kv =
     (if rr then if kv_rqstPollers kv = [] then Inl Undefined else Inr ((kv_pollerId kv + 1) mod length (kv_rqstPollers kv)) else Inr n)"

definition poller_at :: "('q, 'r, 'k, 'p, 'c) kv_outside \<Rightarrow> nat \<Rightarrow> pm_rqst \<Rightarrow> ('q, 'r, 'k, 'p, 'c) KVStore \<Rightarrow> (exn + unit) \<times> ('q, 'r, 'k, 'p, 'c) KVStore" where
  "poller_at y i r kv =
     (if KEY_BUFFER_SIZE < length (rq_key r) then (Inl Undefined, kv)
      else if length (kv_rqstPollers kv) \<le> i then (Inl StdOutOfRange, kv)
      else case poller_enqueue (kv_ring y) r (kv_rqstPollers kv ! i) of
             (ok, p) \<Rightarrow> (if ok then Inr () else Inl QueueFull, kv\<lparr>kv_rqstPollers := (kv_rqstPollers kv)[i := p], kv_next := kv_next kv + 1\<rparr>))"

text \<open>\<open>QueueFullException\<close> is no \<open>OperationFailedException\<close>: a full queue throws, it does not call back.\<close>

definition kv_PutAsync :: "('q, 'r, 'k, 'p, 'c) kv_outside \<Rightarrow> Key \<Rightarrow> Value \<Rightarrow> nat \<Rightarrow> PutOptions \<Rightarrow> ('q, 'r, 'k, 'p, 'c) KVStore \<Rightarrow> (exn + unit) \<times> ('q, 'r, 'k, 'p, 'c) KVStore" where
  "kv_PutAsync y k v cb opts kv =
     (if LONG_TERM (put_attr opts) then kv_free_both y k v (Inl NotImplemented) kv
      else case choose_poller (put_roundRobin opts) (put_pollerId opts) kv of
             Inl e \<Rightarrow> (Inl e, kv)
           | Inr i \<Rightarrow>
              poller_at y i \<lparr>rq_id = kv_next kv, rq_op = RQST_PUT, rq_key = key_data k, rq_value = Null, rq_valueSize = of_nat (val_size v),
                rq_clb = Some cb, rq_loc = EMPTY\<rparr> (kv\<lparr>kv_pollerId := i\<rparr>))"

definition kv_GetAsync :: "('q, 'r, 'k, 'p, 'c) kv_outside \<Rightarrow> Key \<Rightarrow> nat \<Rightarrow> GetOptions \<Rightarrow> ('q, 'r, 'k, 'p, 'c) KVStore \<Rightarrow> (exn + unit) \<times> ('q, 'r, 'k, 'p, 'c) KVStore" where
  "kv_GetAsync y k cb opts kv =
     (case kv_isLocalKey k kv of
        Inl e \<Rightarrow> (Inl e, kv)
      | Inr lcl \<Rightarrow>
         (if \<not> lcl then (Inl NotImplemented, kv)
          else if LONG_TERM (get_attr opts)
          then if \<not> kv_isOffloadEnabled kv then (Inl (OperationFailed OFFLOAD_DISABLED_ERROR), kv)
               else if \<not> kv_offloadPoller kv then (Inl Undefined, kv)
               else case offload_enqueue (kv_off y) (finalizeGet (key_data k) Null 0 (Some cb) (pool_rqst kv)) (kv_sys kv) of
                      (True, s) \<Rightarrow> (Inr (), kv\<lparr>kv_sys := s, kv_next := kv_next kv + 1\<rparr>)
                    | (False, s) \<Rightarrow> (Inl QueueFull, kv\<lparr>kv_sys := log_sys [PoolPut OFFLOAD_GET (kv_next kv)] s, kv_next := kv_next kv + 1\<rparr>)
          else case choose_poller (get_roundRobin opts) (get_pollerId opts) kv of
                 Inl e \<Rightarrow> (Inl e, kv)
               | Inr i \<Rightarrow>
                  poller_at y i \<lparr>rq_id = kv_next kv, rq_op = RQST_GET, rq_key = key_data k, rq_value = Null, rq_valueSize = 0,
                    rq_clb = Some cb, rq_loc = EMPTY\<rparr> (kv\<lparr>kv_pollerId := i\<rparr>)))"

text \<open>A key that is not found is reported, and then the location it does not have is used.\<close>

definition kv_UpdateAsync :: "('q, 'r, 'k, 'p, 'c) kv_outside \<Rightarrow> Key \<Rightarrow> nat \<Rightarrow> PrimaryKeyAttribute \<Rightarrow> ('q, 'r, 'k, 'p, 'c) KVStore \<Rightarrow> (exn + unit) \<times> ('q, 'r, 'k, 'p, 'c) KVStore" where
  "kv_UpdateAsync y k cb attr kv =
     (if \<not> LONG_TERM attr then (Inl NotImplemented, kv)
      else if \<not> kv_isOffloadEnabled kv then (Inl (OperationFailed OFFLOAD_DISABLED_ERROR), kv)
      else case getValCtx ((pool_rqst kv)\<lparr>rq_key := key_data k\<rparr>) (kv_tree kv) of
             Inl e \<Rightarrow> (Inl e, kv)
           | Inr (st, val, sz, loc) \<Rightarrow>
              (if st \<noteq> OK then (Inl Undefined, kv_log [Callback cb KEY_NOT_FOUND (key_data k) None] kv)
               else if \<not> kv_offloadPoller kv then (Inl Undefined, kv)
               else case finalizeUpdate (key_data k) val sz (Some cb) loc (pool_rqst kv) of
                      Inl e \<Rightarrow> (Inl e, kv)
                    | Inr r \<Rightarrow>
                       (case offload_enqueue (kv_off y) r (kv_sys kv) of
                          (True, s) \<Rightarrow> (Inr (), kv\<lparr>kv_sys := s, kv_next := kv_next kv + 1\<rparr>)
                        | (False, s) \<Rightarrow> (Inl QueueFull, kv\<lparr>kv_sys := log_sys [PoolPut OFFLOAD_UPDATE (kv_next kv)] s, kv_next := kv_next kv + 1\<rparr>))))"

end
