(* ===== verification/Offload_Roundtrip.thy ===== *)
theory Offload_Roundtrip
  imports Offload_Account
begin

text \<open>
  What a value goes through on its way to disk and back: the write that \<open>SpdkIoEngine\<close> starts, the
  address the finalizer stores in the index, and the read a later request starts from that address.
\<close>

section \<open>Writes and reads\<close>

lemma doWrite_issues:
  assumes "calm b" "fst rcs = 0" "rq_loc (t_rqst t) = PMEM" "doWrite zm rcs t b v = Inr (ok, b', v')"
  obtains r lba dma bs where "ok" "spBdevCtx b' = spBdevCtx b" "mem_read (rq_value (t_rqst t)) (unat (rq_valueSize (t_rqst t))) = Inr bs"
    "inflight v' = inflight v @ [\<lparr>io_kind = WriteIo, io_task = t\<lparr>t_freeLba := lba, t_buff := Some r\<rparr>, io_offset = ucast (t_blockSize t) * lba,
       io_count = ucast (t_blockSize t), io_data = memcpy_prefix bs (unat (rq_valueSize (t_rqst t))) dma\<rparr>]"
    "unat (rq_valueSize (t_rqst t)) \<le> length dma"
  using assms
  by (auto simp: doWrite_def calm_stateMachine getFreeLba_def map_sum_Inr upd_stats_def Let_def not_less
      split: sum.splits prod.splits option.splits if_splits)

lemma doRead_issues:
  assumes "calm b" "fst rcs = 0" "t_bdevAddr t = Some a" "doRead zm rcs t b v = Inr (ok, b', v')"
  obtains r blk where "ok" "getSizeInBlk (spBdevCtx b) (getAlignedSize (spBdevCtx b) (rq_valueSize (t_rqst t))) = Inr blk"
    "inflight v' = inflight v @ [\<lparr>io_kind = ReadIo, io_task = t\<lparr>t_blockSize := blk, t_buff := Some r\<rparr>, io_offset = ucast blk * dev_lba a,
       io_count = ucast blk, io_data = []\<rparr>]"
  using assms
  by (auto simp: doRead_def calm_stateMachine upd_stats_def Let_def split: sum.splits prod.splits option.splits if_splits)

lemma engine_write:
  assumes "calm (sys_dev s)" "fst rcs = 0" "rq_loc (t_rqst t) = PMEM" "t_op t = OFFLOAD_UPDATE" "engine_process1 x rcs t s = Inr s'"
    and "inflight (sys_env s') = inflight (sys_env s) @ [wio]"
  obtains r lba dma bs where "mem_read (rq_value (t_rqst t)) (unat (rq_valueSize (t_rqst t))) = Inr bs"
    "wio = \<lparr>io_kind = WriteIo, io_task = t\<lparr>t_routing := False, t_freeLba := lba, t_buff := Some r\<rparr>, io_offset = ucast (t_blockSize t) * lba,
       io_count = ucast (t_blockSize t), io_data = memcpy_prefix bs (unat (rq_valueSize (t_rqst t))) dma\<rparr>"
    "unat (rq_valueSize (t_rqst t)) \<le> length dma"
proof -
  obtain b' v' ok where w: "doWrite (dma x) rcs (t\<lparr>t_routing := False\<rparr>) (sys_dev s) (sys_env s) = Inr (ok, b', v')"
     "ok \<Longrightarrow> sys_env s' = v'"
    using assms(4,5) by (auto simp: engine_process1_def Let_def bdev_write_def route_def submit_def split: sum.splits option.splits)
  show thesis
    by (rule doWrite_issues [OF assms(1,2) _ w(1)]) (use assms(3,6) w(2) in \<open>auto intro!: that\<close>)
qed

lemma engine_read:
  assumes "calm (sys_dev s)" "fst rcs = 0" "t_bdevAddr t = Some a" "t_op t = OFFLOAD_GET" "engine_process1 x rcs t s = Inr s'"
    and "inflight (sys_env s') = inflight (sys_env s) @ [rio]"
  obtains r blk where "getSizeInBlk (spBdevCtx (sys_dev s)) (getAlignedSize (spBdevCtx (sys_dev s)) (rq_valueSize (t_rqst t))) = Inr blk"
    "rio = \<lparr>io_kind = ReadIo, io_task = t\<lparr>t_routing := False, t_blockSize := blk, t_buff := Some r\<rparr>, io_offset = ucast blk * dev_lba a,
       io_count = ucast blk, io_data = []\<rparr>"
proof -
  obtain b' v' ok where w: "doRead (dma x) rcs (t\<lparr>t_routing := False\<rparr>) (sys_dev s) (sys_env s) = Inr (ok, b', v')"
     "ok \<Longrightarrow> sys_env s' = v'"
    using assms(4,5) by (auto simp: engine_process1_def Let_def bdev_read_def route_def submit_def split: sum.splits option.splits)
  show thesis
    by (rule doRead_issues [OF assms(1,2) _ w(1)]) (use assms(3,6) w(2) in \<open>auto intro!: that\<close>)
qed

section \<open>The index in between\<close>

lemma fin_update_moves:
  assumes "calm (sys_dev s)" "art_inv (sys_tree s)" "length (t_key t) = 8" "fresh_reserve (reserve x)"
    and "art_map (sys_tree s) (t_key t) = Some (PmemVal val)"
    and "t_op t = OFFLOAD_UPDATE" "t_result t" "t_updatePmemIOV t" "fin_process1 x t s = Inr s'"
  shows "art_inv (sys_tree s') \<and> art_map (sys_tree s') = (art_map (sys_tree s))(t_key t \<mapsto> DiskVal (task_addr (stack_junk x) t (sys_dev s)) (length val))"
  using offload_spec [OF assms(2,3,4,5), of SIZEOF_DeviceAddr "task_addr (stack_junk x) t (sys_dev s)"] assms(6-9) calm_fin [OF assms(1)]
  by (auto simp: fin_process1_def fin_processUpdate_def log_sys_def split: prod.splits sum.splits if_splits)

lemma getValCtx_disk:
  assumes "art_inv t" "length (rq_key q) = 8" "art_map t (rq_key q) = Some (DiskVal a n)"
  shows "getValCtx q t = Inr (OK, AddrBlock a, of_nat n, DISK)"
  using ART_Get_spec [OF assms(1,2)] assms(3) by (auto simp: getValCtx_def)

section \<open>Properties\<close>

text \<open>C3. A value that has gone to disk is read back. When the write of a value in persistent memory has
  ended well and the finalizer has stored its address, a request for the key finds that address and
  the size of the value, the read it starts covers exactly the blocks of the write, and if the
  device returns what was written there, the callback gets the bytes of the value.\<close>

theorem offloaded_value_read_back:
  assumes c: "spBdevCtx (sys_dev s) = c" "spBdevCtx (sys_dev s2) = c" "spBdevCtx (sys_dev s4) = c"
    and calm: "calm (sys_dev s)" "calm (sys_dev s2)" "calm (sys_dev s4)"
    and r: "rq_loc r = PMEM" "rq_value r = Bytes val" "rq_valueSize r = of_nat (length val)" "length val < 2 ^ 64"
    and blk: "getSizeInBlk c (getAlignedSize c (rq_valueSize r)) = Inr blk"
    and wr: "engine_process1 x (0, rc) (new_task (getOptimalSize c (rq_valueSize r)) blk None True r OFFLOAD_UPDATE key) s = Inr s1"
      "inflight (sys_env s1) = inflight (sys_env s) @ [wio]"
    and tree: "art_inv (sys_tree s2)" "length key = 8" "fresh_reserve (reserve x)" "art_map (sys_tree s2) key = Some (PmemVal val)"
    and ended: "fin_process1 x ((io_task wio)\<lparr>t_result := True\<rparr>) s2 = Inr s3"
    and get: "rq_key q = key" "getValCtx q (sys_tree s3) = Inr (st, p, sz, loc)" "addr_ptr p = Inr a"
    and read: "engine_process1 x (0, rc') (new_task (getOptimalSize c sz) 0 (Some a) False (q\<lparr>rq_valueSize := sz\<rparr>) OFFLOAD_GET key) s4 = Inr s5"
      "inflight (sys_env s5) = inflight (sys_env s4) @ [rio]"
    and answered: "map_option (spdkDmaBuf (bufMgr (sys_env s6))) (t_buff (io_task rio)) = Some (Some (io_data wio))"
      "fin_processGet ((io_task rio)\<lparr>t_result := True\<rparr>) s6 = Inr s7" "rq_clb q = Some clb"
  shows "st = OK \<and> loc = DISK \<and> sz = of_nat (length val) \<and> io_offset rio = io_offset wio \<and> io_count rio = io_count wio \<and>
    trace (sys_env s7) = trace (sys_env s6) @ [Callback clb OK key (Some val), PoolPut OFFLOAD_GET (rq_id q)]"
proof -
  have sz: "unat (of_nat (length val) :: u64) = length val" using r(4) by (simp add: unat_of_nat take_bit_nat_eq_self)
  obtain b lba dma bs where w: "mem_read (rq_value r) (length val) = Inr bs" "length val \<le> length dma"
    "io_task wio = (new_task (getOptimalSize c (rq_valueSize r)) blk None True r OFFLOAD_UPDATE key)\<lparr>t_routing := False, t_freeLba := lba, t_buff := Some b\<rparr>"
    "io_offset wio = ucast blk * lba" "io_count wio = ucast blk" "io_data wio = memcpy_prefix bs (length val) dma"
    by (rule engine_write [OF calm(1) _ _ _ wr]) (use r sz in \<open>auto simp: new_task_def\<close>)
  have data: "length val \<le> length (io_data wio)" "take (length val) (io_data wio) = val"
    using w r by (auto simp: mem_read_def memcpy_prefix_def split: if_splits)
  have "art_inv (sys_tree s3) \<and> art_map (sys_tree s3) = (art_map (sys_tree s2))(key \<mapsto> DiskVal (task_addr (stack_junk x) ((io_task wio)\<lparr>t_result := True\<rparr>) (sys_dev s2)) (length val))"
    using fin_update_moves [OF calm(2) tree(1) _ tree(3) _ _ _ _ ended] tree(2,4) w(3) by (simp add: new_task_def)
  then have g: "st = OK" "loc = DISK" "sz = of_nat (length val)" "a = task_addr (stack_junk x) ((io_task wio)\<lparr>t_result := True\<rparr>) (sys_dev s2)"
    using getValCtx_disk [of "sys_tree s3" q] get tree(2) by (auto simp: addr_ptr_def)
  have lba: "dev_lba a = lba" using g(4) w(3) by (simp add: task_addr_def)
  obtain br where rd: "io_offset rio = ucast blk * lba" "io_count rio = ucast blk"
    "io_task rio = (new_task (getOptimalSize c sz) 0 (Some a) False (q\<lparr>rq_valueSize := sz\<rparr>) OFFLOAD_GET key)\<lparr>t_routing := False, t_blockSize := blk, t_buff := Some br\<rparr>"
    by (rule engine_read [OF calm(3) _ _ _ read]) (use blk r(3) g(3) c(3) lba in \<open>auto simp: new_task_def\<close>)
  have "trace (sys_env s7) = trace (sys_env s6) @ [Callback clb OK key (Some val), PoolPut OFFLOAD_GET (rq_id q)]"
    using answered data sz g(3) rd(3)
    by (auto simp: fin_processGet_def new_task_def taskClb_def put_task_buf_def log_def not_less split: sum.splits)
  then show ?thesis using g rd(1,2) w(4,5) by simp
qed

text \<open>A value of 30000 bytes, which gets a buffer of its own and the last number cached in the last bucket.\<close>

definition rt_value :: bytes where
  "rt_value = replicate 30000 7"

definition rt_dev :: "task list SpdkBdev" where
  "rt_dev = ex_dev\<lparr>lbaAllocator := \<lparr>lba_buckets = replicate 7 \<lparr>sizeBracket = 0, lbas = [], level = 0\<rparr> @ [\<lparr>sizeBracket = 8, lbas = [5], level = 1\<rparr>],
     freeLbaList = new_free_list 1024\<rparr>\<rparr>"

definition rt_env :: io_env where
  "rt_env = \<lparr>bufMgr = new_SpdkIoBufMgr (\<lambda>d. []), inflight = [], ioWaits = [], trace = []\<rparr>"

definition rt_sys :: "ARTree \<Rightarrow> (rqst list, task list) offload_sys" where
  "rt_sys t = \<lparr>sys_tree = t, sys_poller = \<lparr>rqstRing = [], requests = []\<rparr>, sys_dev = rt_dev, sys_env = rt_env\<rparr>"

definition rt_update :: rqst where
  "rt_update = \<lparr>rq_id = 3, rq_op = OFFLOAD_UPDATE, rq_key = key1, rq_value = Bytes rt_value, rq_valueSize = 30000, rq_clb = None, rq_loc = PMEM\<rparr>"

definition rt_get :: rqst where
  "rt_get = \<lparr>rq_id = 4, rq_op = OFFLOAD_GET, rq_key = key1, rq_value = Null, rq_valueSize = 0, rq_clb = Some 8, rq_loc = EMPTY\<rparr>"

lemma rt_sizes: "getOptimalSize ctx512 30000 = 32768" "getAlignedSize ctx512 30000 = 32768" "getSizeInBlk ctx512 32768 = Inr 64"
  by (simp_all add: getOptimalSize_def getAlignedSize_def getSizeInBlk_def ctx512_def)

definition rt_task :: task where
  "rt_task = (new_task 32768 64 None True rt_update OFFLOAD_UPDATE key1)\<lparr>t_routing := False, t_freeLba := 5, t_buff := Some (Single 0)\<rparr>"

definition rt_wio :: spdk_io where
  "rt_wio = \<lparr>io_kind = WriteIo, io_task = rt_task, io_offset = 320, io_count = 64, io_data = rt_value @ replicate 2768 0\<rparr>"

definition rt_addr :: DeviceAddr where
  "rt_addr = task_addr 0 (rt_task\<lparr>t_result := True\<rparr>) rt_dev"

definition rt_rio :: spdk_io where
  "rt_rio = \<lparr>io_kind = ReadIo, io_task = (new_task 32768 0 (Some rt_addr) False (rt_get\<lparr>rq_valueSize := 30000\<rparr>) OFFLOAD_GET key1)
     \<lparr>t_routing := False, t_blockSize := 64, t_buff := Some (Single 0)\<rparr>, io_offset = 320, io_count = 64, io_data = []\<rparr>"

lemma rt_write:
  "\<exists>s1. engine_process1 ex_outside (0, 0) (new_task 32768 64 None True rt_update OFFLOAD_UPDATE key1) (rt_sys t) = Inr s1 \<and>
    inflight (sys_env s1) = [rt_wio]"
  by (simp add: engine_process1_def bdev_write_def route_def submit_def doWrite_def rt_sys_def rt_dev_def rt_env_def ex_dev_def stateMachine_def
      rt_update_def new_task_def rt_sizes getFreeLba_def getLba_def bucket_num_def maxBuckets_def LbaBucket_get_def set_bucket_def lba_result_def
      getIoWriteBuf_def blockSize_def newSingle_def setSpdkDmaBuf_def setIdx_def new_SpdkIoBufMgr_def ex_outside_def zeros_def mem_read_def
      rt_value_def memcpy_prefix_def upd_stats_def Let_def nth_append rt_wio_def rt_task_def)

lemma rt_read:
  "\<exists>s5. engine_process1 ex_outside (0, 0) (new_task 32768 0 (Some rt_addr) False (rt_get\<lparr>rq_valueSize := 30000\<rparr>) OFFLOAD_GET key1) (rt_sys t) = Inr s5 \<and>
    inflight (sys_env s5) = [rt_rio] \<and> trace (sys_env s5) = [] \<and> backIdx (bufMgr (sys_env s5)) (Single 0) = - 1"
  by (simp add: engine_process1_def bdev_read_def route_def submit_def doRead_def rt_sys_def rt_dev_def rt_env_def ex_dev_def stateMachine_def
      rt_get_def new_task_def rt_sizes getIoReadBuf_def blockSize_def newSingle_def setSpdkDmaBuf_def setIdx_def new_SpdkIoBufMgr_def
      ex_outside_def zeros_def upd_stats_def Let_def rt_rio_def rt_addr_def rt_task_def task_addr_def)

lemma rt_tree:
  "\<exists>t. art_inv t \<and> art_map t key1 = Some (PmemVal rt_value) \<and> fst (AllocateAndUpdateValueWrapper small_reserve key1 SIZEOF_DeviceAddr d t) = Inr ()"
proof -
  obtain t where t: "art_store small_reserve key1 rt_value empty_tree = (Inr (), t)" "wrappers (pm t) 1 = None" "dom (blocks (pm t)) \<subseteq> {1}"
    using store_key1_any by blast
  have len: "length key1 = 8" by (simp add: key1_def)
  have m: "art_inv t" "art_map t key1 = Some (PmemVal rt_value)"
    using art_store_spec [OF empty_tree_inv(1) len small_reserve_fresh, of rt_value] t(1) by auto
  have "fst (AllocateAndUpdateValueWrapper small_reserve key1 SIZEOF_DeviceAddr d t) = Inr ()"
  proof (rule offload_succeeds [OF m(1) len m(2)])
    fix b assume "blocks (pm t) b = Some (Value rt_value)"
    then have "b = 1" using t(3) by (auto simp: dom_def)
    then show "small_reserve ((pm t)\<lparr>blocks := (blocks (pm t))(b := None)\<rparr>) ALLOC_CLASS_VALUE SIZEOF_DeviceAddr \<noteq> None"
      using t(2) by (simp add: small_reserve_def)
  qed
  then show ?thesis using m by blast
qed

lemma rt_start: "calm (sys_dev (rt_sys t))" "spBdevCtx (sys_dev (rt_sys t)) = ctx512" "sys_tree (rt_sys t) = t" "length key1 = 8"
  "inflight (sys_env (rt_sys t)) = []"
  by (simp_all add: rt_sys_def rt_dev_def rt_env_def ex_dev_def calm_def key1_def)

lemma rt_moved:
  "\<exists>t s3. art_inv t \<and> art_map t key1 = Some (PmemVal rt_value) \<and> fin_process1 ex_outside ((io_task rt_wio)\<lparr>t_result := True\<rparr>) (rt_sys t) = Inr s3 \<and>
    getValCtx rt_get (sys_tree s3) = Inr (OK, AddrBlock rt_addr, 30000, DISK)"
proof -
  obtain t where t: "art_inv t" "art_map t key1 = Some (PmemVal rt_value)"
     "fst (AllocateAndUpdateValueWrapper small_reserve key1 SIZEOF_DeviceAddr rt_addr t) = Inr ()" using rt_tree by blast
  obtain tr where tr: "AllocateAndUpdateValueWrapper small_reserve key1 SIZEOF_DeviceAddr (task_addr 0 (rt_task\<lparr>t_result := True\<rparr>) rt_dev) t = (Inr (), tr)"
    using t(3) by (metis rt_addr_def prod.collapse)
  obtain s3 where s3: "fin_process1 ex_outside (rt_task\<lparr>t_result := True\<rparr>) (rt_sys t) = Inr s3"
    using tr calm_fin [OF rt_start(1)] by (simp add: fin_process1_def fin_processUpdate_def rt_task_def new_task_def rt_sys_def ex_outside_def)
  have "art_inv (sys_tree s3) \<and> art_map (sys_tree s3) key1 = Some (DiskVal rt_addr 30000)"
    using fin_update_moves [OF rt_start(1) _ _ _ _ _ _ _ s3, of rt_value] t rt_start(4) small_reserve_fresh
    by (simp add: rt_task_def new_task_def rt_sys_def rt_addr_def ex_outside_def rt_value_def)
  then have "getValCtx rt_get (sys_tree s3) = Inr (OK, AddrBlock rt_addr, 30000, DISK)"
    using getValCtx_disk [of "sys_tree s3" rt_get rt_addr 30000] rt_start(4) by (simp add: rt_get_def)
  then show ?thesis using t s3 unfolding rt_wio_def by (metis spdk_io.select_convs(2))
qed

theorem offloaded_value_read_back_witness:
  "\<exists>t s3 s5 (s6 :: (rqst list, task list) offload_sys) s7. fin_process1 ex_outside ((io_task rt_wio)\<lparr>t_result := True\<rparr>) (rt_sys t) = Inr s3 \<and>
    engine_process1 ex_outside (0, 0) (new_task 32768 0 (Some rt_addr) False (rt_get\<lparr>rq_valueSize := 30000\<rparr>) OFFLOAD_GET key1) (rt_sys t) = Inr s5 \<and>
    inflight (sys_env s5) = [rt_rio] \<and> spdkDmaBuf (bufMgr (sys_env s6)) (Single 0) = Some (io_data rt_wio) \<and> trace (sys_env s6) = [] \<and>
    fin_processGet ((io_task rt_rio)\<lparr>t_result := True\<rparr>) s6 = Inr s7 \<and>
    io_offset rt_rio = io_offset rt_wio \<and> trace (sys_env s7) = [Callback 8 OK key1 (Some rt_value), PoolPut OFFLOAD_GET 4]"
proof -
  obtain t s3 where t: "art_inv t" "art_map t key1 = Some (PmemVal rt_value)"
    and s3: "fin_process1 ex_outside ((io_task rt_wio)\<lparr>t_result := True\<rparr>) (rt_sys t) = Inr s3"
    and g: "getValCtx rt_get (sys_tree s3) = Inr (OK, AddrBlock rt_addr, 30000, DISK)" using rt_moved by blast
  obtain s1 where s1: "engine_process1 ex_outside (0, 0) (new_task 32768 64 None True rt_update OFFLOAD_UPDATE key1) (rt_sys t) = Inr s1"
     "inflight (sys_env s1) = inflight (sys_env (rt_sys t)) @ [rt_wio]" using rt_write [of t] by (auto simp: rt_start)
  obtain s5 where s5: "engine_process1 ex_outside (0, 0) (new_task 32768 0 (Some rt_addr) False (rt_get\<lparr>rq_valueSize := 30000\<rparr>) OFFLOAD_GET key1) (rt_sys t) = Inr s5"
    "inflight (sys_env s5) = inflight (sys_env (rt_sys t)) @ [rt_rio]" "trace (sys_env s5) = []" "backIdx (bufMgr (sys_env s5)) (Single 0) = - 1"
    using rt_read [of t] by (auto simp: rt_start)
  define s6 where "s6 = s5\<lparr>sys_env := (sys_env s5)\<lparr>bufMgr := setSpdkDmaBuf (Single 0) (Some (io_data rt_wio)) (bufMgr (sys_env s5))\<rparr>\<rparr>"
  obtain s7 where s7: "fin_processGet ((io_task rt_rio)\<lparr>t_result := True\<rparr>) s6 = Inr s7"
    using s5(4) by (simp add: rt_rio_def rt_wio_def fin_processGet_def new_task_def s6_def setSpdkDmaBuf_def rt_get_def rt_value_def put_task_buf_def
        putIoReadBuf_def putPoolBuf_def log_def)
  have r: "rq_loc rt_update = PMEM" "rq_value rt_update = Bytes rt_value" "rq_valueSize rt_update = of_nat (length rt_value)" "length rt_value < 2 ^ 64"
    "getSizeInBlk ctx512 (getAlignedSize ctx512 (rq_valueSize rt_update)) = Inr 64" "rq_valueSize rt_update = 30000"
    by (simp_all add: rt_update_def rt_value_def rt_sizes)
  note wr = s1(1) [folded rt_sizes(1), folded r(6)]
  have tr: "art_inv (sys_tree (rt_sys t))" "fresh_reserve (reserve ex_outside)" "art_map (sys_tree (rt_sys t)) key1 = Some (PmemVal rt_value)"
    using t small_reserve_fresh by (simp_all add: rt_start ex_outside_def)
  have "io_offset rt_rio = io_offset rt_wio \<and> trace (sys_env s7) = trace (sys_env s6) @ [Callback 8 OK key1 (Some rt_value), PoolPut OFFLOAD_GET (rq_id rt_get)]"
    using offloaded_value_read_back [OF rt_start(2,2,2,1,1,1) r(1-5) wr s1(2) tr(1) rt_start(4) tr(2,3) s3 _ g _ s5(1) [folded rt_sizes(1)] s5(2) _ s7, of 8]
    by (simp add: rt_get_def addr_ptr_def s6_def setSpdkDmaBuf_def) (simp add: rt_rio_def)
  moreover have "spdkDmaBuf (bufMgr (sys_env s6)) (Single 0) = Some (io_data rt_wio)" "trace (sys_env s6) = []" "rq_id rt_get = 4"
    using s5(3) by (simp_all add: s6_def setSpdkDmaBuf_def rt_get_def)
  ultimately have "fin_process1 ex_outside ((io_task rt_wio)\<lparr>t_result := True\<rparr>) (rt_sys t) = Inr s3 \<and>
    engine_process1 ex_outside (0, 0) (new_task 32768 0 (Some rt_addr) False (rt_get\<lparr>rq_valueSize := 30000\<rparr>) OFFLOAD_GET key1) (rt_sys t) = Inr s5 \<and>
    inflight (sys_env s5) = [rt_rio] \<and> spdkDmaBuf (bufMgr (sys_env s6)) (Single 0) = Some (io_data rt_wio) \<and> trace (sys_env s6) = [] \<and>
    fin_processGet ((io_task rt_rio)\<lparr>t_result := True\<rparr>) s6 = Inr s7 \<and>
    io_offset rt_rio = io_offset rt_wio \<and> trace (sys_env s7) = [Callback 8 OK key1 (Some rt_value), PoolPut OFFLOAD_GET 4]"
    using s3 s5(1,2) s7 by (simp add: rt_start)
  then show ?thesis by (intro exI)
qed

end
