(* ===== verification/Kv_Props.thy ===== *)
theory Kv_Props
  imports Kv_Store Offload_Roundtrip
begin

text \<open>
  What the store promises: with which options it opens, that a value that was stored is found again,
  and what a caller sees of a value on disk that cannot be read.
\<close>

text \<open>Copying a value into the memory \<open>Alloc\<close> gave.\<close>

definition fill :: "oid \<Rightarrow> bytes \<Rightarrow> ('q, 'r, 'k, 'p, 'c) KVStore \<Rightarrow> ('q, 'r, 'k, 'p, 'c) KVStore" where
  "fill b v kv = set_tree (write_block b v (kv_tree kv)) kv"

lemma kv_tree_set [simp]: "kv_tree (set_tree t kv) = t" "set_tree t (set_tree t' kv) = set_tree t kv"
  "kv_dht (set_tree t kv) = kv_dht kv" "kv_options (set_tree t kv) = kv_options kv" "kv_pKey (set_tree t kv) = kv_pKey kv"
  "kv_readyKeys (set_tree t kv) = kv_readyKeys kv"
  by (simp_all add: set_tree_def)

lemma isLocal_set [simp]: "kv_isLocalKey k (set_tree t kv) = kv_isLocalKey k kv" "kv_isLocalKey k (kv\<lparr>kv_readyKeys := q\<rparr>) = kv_isLocalKey k kv"
  by (simp_all add: kv_isLocalKey_def)

text \<open>The queue of ready keys takes the key.\<close>

definition takes_key :: "('q, 'r, 'k, 'p, 'c) kv_outside \<Rightarrow> bytes \<Rightarrow> ('q, 'r, 'k, 'p, 'c) KVStore \<Rightarrow> bool" where
  "takes_key y key kv \<longleftrightarrow> \<not> isl (pKey_enqueueNext y key kv)"

lemma enqueueNext_set:
  assumes "takes_key y key kv"
  obtains q where "pKey_enqueueNext y key (set_tree t kv) = Inr ((set_tree t kv)\<lparr>kv_readyKeys := q\<rparr>)"
proof (cases "maxReadyKeys (opt_runtime (kv_options kv)) = 0")
  case True
  then show ?thesis by (intro that [of "kv_readyKeys kv"]) (simp add: pKey_enqueueNext_def base_enqueueNext_def)
next
  case False
  then obtain q where "enqueueNext (kv_enq y) (kv_pKey kv) key (kv_readyKeys kv) = Inr q"
    using assms by (cases "enqueueNext (kv_enq y) (kv_pKey kv) key (kv_readyKeys kv)") (auto simp: takes_key_def pKey_enqueueNext_def)
  then show ?thesis using False by (intro that [of q]) (simp add: pKey_enqueueNext_def)
qed

lemma kv_GetRaw_pmem:
  assumes "art_inv (kv_tree kv)" "length key = 8" "art_map (kv_tree kv) key = Some (PmemVal v)"
  shows "kv_GetRaw y key kv = (Inr v, kv)"
  using ART_Get_spec [OF assms(1,2)] assms(3) by (auto simp: kv_GetRaw_def)

text \<open>Allocating a value, filling it and putting it.\<close>

lemma kv_store_raw:
  assumes inv: "art_inv (kv_tree kv)" and len: "length key = 8" and fr: "fresh_reserve (reserve (kv_off y))" and takes: "takes_key y key kv"
  obtains (fail) t1 where "kv_AllocRaw y key (length v) KVS_BUFFERED kv = (Inl (OperationFailed PMEM_ALLOCATION_ERROR), set_tree t1 kv)"
      "art_inv t1" "art_map t1 = art_map (kv_tree kv)"
    | (ok) b t1 t2 q where "kv_AllocRaw y key (length v) KVS_BUFFERED kv = (Inr (PmemPtr b), set_tree t1 kv)"
      "kv_PutRaw y key default_put (fill b v (set_tree t1 kv)) = (Inr (), (set_tree t2 kv)\<lparr>kv_readyKeys := q\<rparr>)"
      "art_inv t2" "art_map t2 = (art_map (kv_tree kv))(key \<mapsto> PmemVal v)"
proof -
  obtain r t1 where a: "AllocValueForKey (reserve (kv_off y)) key (length v) (kv_tree kv) = (r, t1)" "art_inv t1" "art_map t1 = art_map (kv_tree kv)"
    "case r of Inl e \<Rightarrow> e = OperationFailed PMEM_ALLOCATION_ERROR
      | Inr b \<Rightarrow> art_map (kv_tree kv) key = None \<and> reserved_at t1 key b (replicate (length v) 0)"
    using AllocValueForKey_spec [OF inv len fr] by blast
  show ?thesis
  proof (cases r)
    case (Inl e)
    then show ?thesis using a by (intro fail [of t1]) (simp_all add: kv_AllocRaw_def)
  next
    case (Inr b)
    have w: "art_inv (write_block b v t1)" "art_map (write_block b v t1) = art_map t1" "reserved_at (write_block b v t1) key b v"
      using write_block_spec [OF a(2), of key b _ v] a(4) Inr by auto
    obtain t2 where t2: "ART_Put key (write_block b v t1) = (Inr (), t2)" "art_inv t2" "art_map t2 = (art_map (kv_tree kv))(key \<mapsto> PmemVal v)"
      using ART_Put_spec [OF w(1) len w(3)] w(2) a(3) by auto
    obtain q where q: "pKey_enqueueNext y key (set_tree t2 kv) = Inr ((set_tree t2 kv)\<lparr>kv_readyKeys := q\<rparr>)"
      using enqueueNext_set [OF takes] by blast
    show ?thesis using a(1) Inr t2 q
      by (intro ok [of b t1 q t2]) (simp_all add: kv_AllocRaw_def fill_def kv_PutRaw_def default_put_def attr_EMPTY_def)
  qed
qed

section \<open>Properties\<close>

text \<open>C5. A value that is stored is found again. For a key of this node, \<open>Alloc\<close> either reports that the
  allocation failed and changes no key, or gives memory of the index; filled with the bytes of the value
  and passed to \<open>Put\<close>, it makes \<open>Get\<close> return exactly these bytes, and every other key keeps its entry.\<close>

theorem kv_put_get:
  assumes "art_inv (kv_tree kv)" "length (key_data k) = 8" "fresh_reserve (reserve (kv_off y))"
    and "kv_isLocalKey k kv = Inr True" "key_attr k = NOT_BUFFERED" "takes_key y (key_data k) kv"
  shows "case kv_Alloc y k (length v) KVS_BUFFERED kv of
      (Inl e, kv1) \<Rightarrow> e = OperationFailed PMEM_ALLOCATION_ERROR \<and> art_map (kv_tree kv1) = art_map (kv_tree kv)
    | (Inr val, kv1) \<Rightarrow>
       (\<exists>b kv3. val_data val = PmemPtr b \<and> val_size val = length v \<and> kv_Put y k val (fill b v kv1) = (Inr (), kv3) \<and>
         kv_Get y k kv3 = (Inr \<lparr>val_data = HeapPtr v, val_size = length v, val_attr = NOT_BUFFERED\<rparr>, kv3) \<and>
         art_map (kv_tree kv3) = (art_map (kv_tree kv))(key_data k \<mapsto> PmemVal v))"
  using assms(1-3,6)
proof (cases rule: kv_store_raw [where v = v])
  case (fail t1)
  then show ?thesis using assms(4) by (simp add: kv_Alloc_def)
next
  case (ok b t1 t2 q)
  let ?kv3 = "(set_tree t2 kv)\<lparr>kv_readyKeys := q\<rparr>"
  have "kv_Put y k \<lparr>val_data = PmemPtr b, val_size = length v, val_attr = KVS_BUFFERED\<rparr> (fill b v (set_tree t1 kv)) = (Inr (), ?kv3)"
    using assms(4,5) ok(2)
    by (simp add: kv_Put_def fill_def kv_free_both_def kv_Free_def kv_FreeKey_def val_isKvsBuffered_def key_isKvsBuffered_def)
  moreover have "kv_Get y k ?kv3 = (Inr \<lparr>val_data = HeapPtr v, val_size = length v, val_attr = NOT_BUFFERED\<rparr>, ?kv3)"
    using kv_GetRaw_pmem [of ?kv3 "key_data k" v y] assms(2,4) ok(3,4) by (simp add: kv_Get_def)
  ultimately show ?thesis using ok(1,4) assms(4) by (simp add: kv_Alloc_def exI [of _ ?kv3])
qed

section \<open>Opening a store\<close>

text \<open>A pool file that is new, or that holds the well-formed index of an earlier process.\<close>

definition pool_valid :: "pool_site \<Rightarrow> u8 list set \<Rightarrow> bool" where
  "pool_valid ps D \<longleftrightarrow> (case ps_file ps of None \<Rightarrow> wrappers (ps_mem ps) = Map.empty | Some t \<Rightarrow> art_inv_on D t)"

text \<open>The index of a store that was opened: empty and well-formed on a new file; on a file left by an earlier process, with its freed
  keys in \<open>D\<close>, it finds the values that process had moved to disk, and no others.\<close>

definition pool_opened :: "pool_site \<Rightarrow> u8 list set \<Rightarrow> ARTree \<Rightarrow> bool" where
  "pool_opened ps D t' \<longleftrightarrow>
     (case ps_file ps of
        None \<Rightarrow> art_inv t' \<and> art_map t' = Map.empty
      | Some t \<Rightarrow> \<forall>key. length key = 8 \<and> key \<notin> D \<longrightarrow>
         (case art_map_on D t key of
            Some (DiskVal d n) \<Rightarrow> \<exists>b. ART_Get key t' = Inr (Some b, n, DISK) \<and> blocks (pm t') b = Some (Iov d)
          | _ \<Rightarrow> ART_Get key t' = Inl (OperationFailed KEY_NOT_FOUND)))"

lemma new_TreeImpl_opened:
  assumes "new_TreeImpl rsv ps = Inr t0" "pool_valid ps D"
  shows "pool_opened ps D (snd (SetKeySize k t0))"
proof (cases "ps_file ps")
  case None
  then have "TreeImpl_create rsv (ps_mem ps) = Inr t0" using assms(1) by (simp add: new_TreeImpl_def split: if_splits)
  then show ?thesis using TreeImpl_create_inv assms(2) None by (simp add: pool_opened_def pool_valid_def)
next
  case (Some t)
  then have t0: "t0 = t\<lparr>pm := reopen (pm t)\<rparr>" using assms(1) by (simp add: new_TreeImpl_def split: if_splits)
  have inv: "art_inv_on D t" using assms(2) Some by (simp add: pool_valid_def)
  have t': "rootNode (snd (SetKeySize k t0)) = rootNode t" "keySize (snd (SetKeySize k t0)) = 8" "pm (snd (SetKeySize k t0)) = reopen (pm t)"
    by (simp_all add: SetKeySize_def t0 LEVEL_TYPE_def)
  show ?thesis using reopen_Get [OF inv _ _ t'] by (simp add: pool_opened_def Some)
qed

lemma kv_init_opened:
  assumes "kv_init y st opts = Some (Inr kv)" "pool_valid (st_pool st) D"
  shows "key_size (opt_key opts) = 8" "kv_keySize kv = 8" "pool_opened (st_pool st) D (kv_tree kv)" "kv_options kv = opts"
    "new_DhtCore (opt_dht opts) = Inr (kv_dht kv)" "new_PrimaryKeyBase opts = Inr (kv_pKey kv)"
proof -
  obtain t where t: "open_index (reserve (kv_off y)) (st_pool st) (opt_key opts) = Inr t" "kv_tree kv = t"
      "kv_keySize kv = (if key_size (opt_key opts) = 0 then DEFAULT_KEY_SIZE else key_size (opt_key opts))"
    and o: "kv_options kv = opts" "new_DhtCore (opt_dht opts) = Inr (kv_dht kv)" "new_PrimaryKeyBase opts = Inr (kv_pKey kv)"
    using assms(1) unfolding kv_init_def by (auto split: sum.splits spdk_device.splits if_splits)
  obtain t0 where t0: "new_TreeImpl (reserve (kv_off y)) (st_pool st) = Inr t0" "t = snd (SetKeySize 8 t0)" "key_size (opt_key opts) = 8"
    using t(1) by (auto simp: open_index_def SetKeySize_def LEVEL_TYPE_def split: sum.splits if_splits)
  show "key_size (opt_key opts) = 8" by (fact t0)
  then show "kv_keySize kv = 8" using t(3) by simp
  show "pool_opened (st_pool st) D (kv_tree kv)" using new_TreeImpl_opened [OF t0(1) assms(2)] t(2) t0(2) by simp
  show "kv_options kv = opts" "new_DhtCore (opt_dht opts) = Inr (kv_dht kv)" "new_PrimaryKeyBase opts = Inr (kv_pKey kv)" by (fact o)+
qed


section \<open>Examples\<close>

text \<open>A store with one node, no device and no queue of ready keys, opened and used.\<close>

definition no_client :: "unit dht_client" where
  "no_client = \<lparr>dc_put = (\<lambda>k v c. (Inl NoReturn, c)), dc_get = (\<lambda>k c. (Inl NoReturn, c)), dc_remove = (\<lambda>k c. (Inl NoReturn, c)),
     dc_alloc = (\<lambda>k n c. (Inl NoReturn, c)), dc_allocKey = (\<lambda>n c. (Inl NoReturn, c)), dc_free = (\<lambda>v c. (Inr (), c)), dc_freeKey = (\<lambda>k c. (Inr (), c))\<rparr>"

definition ex_kvo :: "(rqst list, task list, bytes list, pm_rqst list, unit) kv_outside" where
  "ex_kvo = \<lparr>kv_off = ex_outside, kv_enq = (\<lambda>k r. Inr (r @ [k])), kv_deq = (\<lambda>r. case r of [] \<Rightarrow> Inl () | k # r \<Rightarrow> Inr (k, r)),
     kv_ring = list_ring 64, kv_dc = no_client, second = id\<rparr>"

definition ex_pool :: "ARTree option \<Rightarrow> pool_site" where
  "ex_pool f = \<lparr>ps_ctl = (0, 0), ps_usable = True, ps_classes = True, ps_file = f, ps_mem = empty_mem\<rparr>"

definition ex_site :: "(rqst list, task list, bytes list, pm_rqst list, unit) kv_site" where
  "ex_site = \<lparr>st_pool = ex_pool None, st_bdev = ex_dev, st_files = \<lparr>fs_files = Map.empty, fs_can_create = True\<rparr>, st_env_ok = True,
     st_info = \<lparr>si_found = False, si_open_rc = 0, si_pool_size = 0, si_cache_size = 0, si_channel = False, si_blk_size = 0,
       si_data_blk_size = 0, si_buf_align = 0, si_num_blocks = 0\<rparr>, st_poller_ok = True, st_junk = [], st_rqRing = [], st_taskRing = [],
     st_keyRing = [], st_keyRing_made = True, st_pollRing = [], st_bufs = new_SpdkIoBufMgr (io_pools DefaultAllocStrategy 64), st_client = (\<lambda>c b. Inr ())\<rparr>"

definition ex_options :: Options where
  "ex_options = default_options\<lparr>opt_key := [\<lparr>fsize = 8, isPrimary = True\<rparr>]\<rparr>"

definition ex_kv :: "(rqst list, task list, bytes list, pm_rqst list, unit) KVStore" where
  "ex_kv = projr (the (kv_init ex_kvo ex_site ex_options))"

lemmas kv_init_simps = kv_init_def open_index_def ex_kvo_def ex_site_def ex_pool_def new_TreeImpl_def ex_options_def default_options_def ex_outside_def
  TreeImpl_create_def allocateFullLevels_def PREALLOC_LEVELS_def small_reserve_def empty_mem_def SetKeySize_def LEVEL_TYPE_def
  new_SpdkCore_def new_SpdkConf_def createConfFile_def removeConfFile_def isNvmeInOptions_def getBdev_def new_DhtCore_def
  open_offload_def core_isBdevFound_def isBdevFound_def new_PrimaryKeyBase_def

lemma ex_kv_fields:
  "kv_init ex_kvo ex_site ex_options = Some (Inr ex_kv)" "kv_tree ex_kv = empty_tree" "core_maskLength (kv_dht ex_kv) = 0"
  "kv_options ex_kv = ex_options" "kv_next ex_kv = 0"
  by (auto simp: ex_kv_def kv_init_simps empty_tree_def)

text \<open>The same over the file of an earlier process.\<close>

lemma ex_reopened: "\<exists>kv. kv_init ex_kvo (ex_site\<lparr>st_pool := ex_pool (Some t)\<rparr>) ex_options = Some (Inr kv)"
  by (simp add: kv_init_simps)


definition ex_key :: Key where
  "ex_key = \<lparr>key_data = key1, key_attr = NOT_BUFFERED\<rparr>"

lemma ex_key_local: "core_maskLength (kv_dht kv) = 0 \<Longrightarrow> kv_isLocalKey ex_key kv = Inr True"
  by (simp add: kv_isLocalKey_def isLocalKey_def)

lemma ex_takes: "takes_key ex_kvo key1 ex_kv"
  by (simp add: takes_key_def pKey_enqueueNext_def ex_kv_fields ex_options_def default_options_def base_enqueueNext_def)

theorem kv_put_get_witness:
  "\<exists>val kv1 b kv3. kv_Alloc ex_kvo ex_key 2 KVS_BUFFERED ex_kv = (Inr val, kv1) \<and> val_data val = PmemPtr b \<and>
    kv_Put ex_kvo ex_key val (fill b [9, 9] kv1) = (Inr (), kv3) \<and>
    kv_Get ex_kvo ex_key kv3 = (Inr \<lparr>val_data = HeapPtr [9, 9], val_size = 2, val_attr = NOT_BUFFERED\<rparr>, kv3)"
proof -
  obtain t1 where "AllocValueForKey small_reserve key1 2 empty_tree = (Inr 1, t1)" using alloc_key1 by blast
  then have a: "kv_Alloc ex_kvo ex_key 2 KVS_BUFFERED ex_kv = (Inr \<lparr>val_data = PmemPtr 1, val_size = 2, val_attr = KVS_BUFFERED\<rparr>, set_tree t1 ex_kv)"
    by (simp add: kv_Alloc_def kv_AllocRaw_def ex_key_local ex_kv_fields ex_kvo_def ex_outside_def) (simp add: ex_key_def)
  have h: "art_inv (kv_tree ex_kv)" "length (key_data ex_key) = 8" "fresh_reserve (reserve (kv_off ex_kvo))" "key_attr ex_key = NOT_BUFFERED"
     "takes_key ex_kvo (key_data ex_key) ex_kv"
    using ex_takes by (simp_all add: ex_kv_fields empty_tree_inv ex_key_def key1_def ex_kvo_def ex_outside_def small_reserve_fresh)
  show ?thesis
    using kv_put_get [OF h(1-3) ex_key_local [OF ex_kv_fields(3)] h(4,5), of "[9, 9]"] a by (auto simp: numeral_2_eq_2)
qed

section \<open>Values on disk\<close>

text \<open>C21. \<open>Get\<close> of a value on disk does not look at the status its callback gets: when the offload thread answers
  the request with any status and no value, as it does on every failure, \<open>Get\<close> returns normally,
  with a value of size zero.\<close>

theorem kv_get_hides_failure:
  assumes "art_inv (kv_tree kv)" "length (key_data k) = 8" "art_map (kv_tree kv) (key_data k) = Some (DiskVal a n)"
    and "kv_isLocalKey k kv = Inr True" "kv_isOffloadEnabled kv" "kv_offloadPoller kv"
    and "offload_enqueue (kv_off y) (finalizeGet (key_data k) Null 0 (Some (kv_next kv)) (pool_rqst kv)) (kv_sys kv) = (True, s)"
    and "trace (sys_env (second y s)) = trace (sys_env s) @ es" "find_callback (kv_next kv) es = Some (st, None)"
  shows "fst (kv_Get y k kv) = Inr \<lparr>val_data = HeapPtr [], val_size = 0, val_attr = NOT_BUFFERED\<rparr>"
proof -
  obtain b where "ART_Get (key_data k) (kv_tree kv) = Inr (Some b, n, DISK)"
    using ART_Get_spec [OF assms(1,2)] assms(3) by auto
  then show ?thesis using assms(4-9)
    by (simp add: kv_Get_def kv_GetRaw_def kv_getOffloaded_def enqueue_and_wait_def Let_def)
qed

text \<open>A store whose device has no room for another task: the offload thread refuses the request of a \<open>Get\<close>.\<close>

definition full_outside :: "(rqst list, task list) outside" where
  "full_outside = ex_outside\<lparr>task_ring := list_ring 0\<rparr>"

definition full_kvo :: "(rqst list, task list, bytes list, pm_rqst list, unit) kv_outside" where
  "full_kvo = ex_kvo\<lparr>kv_off := full_outside, second := (\<lambda>s. case poller_turn full_outside s of Inr s' \<Rightarrow> s' | Inl e \<Rightarrow> s)\<rparr>"

definition disk_kv :: "ARTree \<Rightarrow> (rqst list, task list, bytes list, pm_rqst list, unit) KVStore" where
  "disk_kv t = ex_kv\<lparr>kv_sys := ex_sys\<lparr>sys_tree := t\<rparr>, kv_spdkReady := True, kv_offloadPoller := True\<rparr>"

lemma disk_kv_turn:
  assumes "art_inv t" "art_map t key1 = Some (DiskVal a n)"
  defines "s \<equiv> snd (offload_enqueue full_outside (finalizeGet key1 Null 0 (Some 0) (pool_rqst (disk_kv t))) (kv_sys (disk_kv t)))"
  shows "\<exists>s'. poller_turn full_outside s = Inr s' \<and> trace (sys_env s') = [Callback 0 UNKNOWN_ERROR key1 None, PoolPut OFFLOAD_GET 0]"
proof -
  have g: "getValCtx (finalizeGet key1 Null 0 (Some 0) (pool_rqst (disk_kv t))) t = Inr (OK, AddrBlock a, of_nat n, DISK)"
    using getValCtx_disk [OF assms(1), of "finalizeGet key1 Null 0 (Some 0) (pool_rqst (disk_kv t))" a n] assms(2)
    by (simp add: finalizeGet_def key1_def)
  show ?thesis using g
    by (simp add: s_def poller_turn_def poller_process_def poller_process1_def poller_processGet_def offload_enqueue_def poller_enqueue_def
        poller_dequeue_def full_outside_def ex_outside_def list_ring_def disk_kv_def ex_sys_def DEQUEUE_RING_LIMIT_def finalizeGet_def pool_rqst_def
        addr_ptr_def TASK_KEY_SIZE_def key1_def Let_def submit_def bdev_read_def route_def ex_dev_def new_task_def answer_def log_def rqstClb_def
        ex_kv_fields)
qed

lemma disk_kv_enqueue:
  "fst (offload_enqueue full_outside r (kv_sys (disk_kv t)))"
  "trace (sys_env (snd (offload_enqueue full_outside r (kv_sys (disk_kv t))))) = []"
  by (simp_all add: offload_enqueue_def poller_enqueue_def full_outside_def ex_outside_def list_ring_def disk_kv_def ex_sys_def)

theorem kv_get_hides_failure_witness:
  "\<exists>t a. art_map (kv_tree (disk_kv t)) key1 = Some (DiskVal a 30000) \<and>
    fst (kv_Get full_kvo ex_key (disk_kv t)) = Inr \<lparr>val_data = HeapPtr [], val_size = 0, val_attr = NOT_BUFFERED\<rparr>"
proof -
  have len: "length key1 = 8" by (simp add: key1_def)
  obtain t0 where t0: "art_inv t0" "art_map t0 key1 = Some (PmemVal rt_value)"
    "fst (AllocateAndUpdateValueWrapper small_reserve key1 SIZEOF_DeviceAddr rt_addr t0) = Inr ()" using rt_tree by blast
  obtain t where t: "art_inv t" "art_map t key1 = Some (DiskVal rt_addr 30000)"
    using offload_spec [OF t0(1) len small_reserve_fresh t0(2), of SIZEOF_DeviceAddr rt_addr] t0(3) by (auto simp: rt_value_def)
  have f: "kv_next (disk_kv t) = 0" "kv_tree (disk_kv t) = t" "kv_off full_kvo = full_outside" "key_data ex_key = key1"
    by (simp_all add: disk_kv_def ex_kv_fields full_kvo_def ex_key_def)
  define s where "s = snd (offload_enqueue full_outside (finalizeGet key1 Null 0 (Some 0) (pool_rqst (disk_kv t))) (kv_sys (disk_kv t)))"
  obtain s' where s': "poller_turn full_outside s = Inr s'" "trace (sys_env s') = [Callback 0 UNKNOWN_ERROR key1 None, PoolPut OFFLOAD_GET 0]"
    using disk_kv_turn [OF t] unfolding s_def by blast
  have enq: "offload_enqueue (kv_off full_kvo) (finalizeGet (key_data ex_key) Null 0 (Some (kv_next (disk_kv t))) (pool_rqst (disk_kv t))) (kv_sys (disk_kv t)) = (True, s)"
    using disk_kv_enqueue(1) [of _ t] by (simp add: f s_def prod_eq_iff)
  have tr: "trace (sys_env (second full_kvo s)) = trace (sys_env s) @ [Callback 0 UNKNOWN_ERROR key1 None, PoolPut OFFLOAD_GET 0]"
    using s' disk_kv_enqueue(2) [of _ t] by (simp add: full_kvo_def s_def)
  have g: "art_inv (kv_tree (disk_kv t))" "length (key_data ex_key) = 8" "art_map (kv_tree (disk_kv t)) (key_data ex_key) = Some (DiskVal rt_addr 30000)"
    "kv_isLocalKey ex_key (disk_kv t) = Inr True" "kv_isOffloadEnabled (disk_kv t)" "kv_offloadPoller (disk_kv t)"
    using t len by (simp_all add: f ex_key_local disk_kv_def ex_kv_fields kv_isOffloadEnabled_def isOffloadEnabled_def ex_sys_def ex_dev_def ctx512_def)
  have "fst (kv_Get full_kvo ex_key (disk_kv t)) = Inr \<lparr>val_data = HeapPtr [], val_size = 0, val_attr = NOT_BUFFERED\<rparr>"
    by (rule kv_get_hides_failure [OF g enq tr, of UNKNOWN_ERROR]) (simp add: f)
  then have "art_map (kv_tree (disk_kv t)) key1 = Some (DiskVal rt_addr 30000) \<and>
    fst (kv_Get full_kvo ex_key (disk_kv t)) = Inr \<lparr>val_data = HeapPtr [], val_size = 0, val_attr = NOT_BUFFERED\<rparr>"
    using g(3) by (simp add: f)
  then show ?thesis by (intro exI)
qed

end
