(* ===== verification/Dht_Rpc.thy ===== *)
theory Dht_Rpc
  imports Kv_Props
begin

text \<open>
  Remote operations: the client, \<^verbatim>\<open>lib/dht/DhtClient.cpp\<close>, which writes a request into its message
  buffer and waits for the response, and the handlers of the server, \<^verbatim>\<open>lib/dht/DhtServer.cpp\<close>.
  The transport of eRPC is an argument: it takes the number of a session, the kind and the bytes of
  a request and gives the response, or none.
\<close>

section \<open>Messages\<close>

datatype ErpRequestType = ERP_REQUEST_GET | ERP_REQUEST_GETANY | ERP_REQUEST_PUT | ERP_REQUEST_REMOVE

definition SIZEOF_DaqdbDhtMsg :: nat where
  "SIZEOF_DaqdbDhtMsg = 16"

definition SIZEOF_DaqdbDhtResult :: nat where
  "SIZEOF_DaqdbDhtResult = 16"

definition ERPC_MAX_REQUEST_SIZE :: nat where
  "ERPC_MAX_REQUEST_SIZE = 64 * 1024 + 64"

definition ERPC_MAX_RESPONSE_SIZE :: nat where
  "ERPC_MAX_RESPONSE_SIZE = 64 * 1024 + 64"

text \<open>A request holds the key and behind it the value.\<close>

record DaqdbDhtMsg =
  msg_keySize :: nat
  msg_valSize :: nat
  msg_msg :: bytes

record DaqdbDhtResult =
  res_status :: StatusCode
  res_msgSize :: nat
  res_msg :: bytes

section \<open>Server\<close>

text \<open>A handler gives a response or throws. Only \<open>OperationFailedException\<close> is caught; \<open>Alloc\<close> of a value to
  put is called outside of the handler of exceptions.\<close>

definition failed_result :: "StatusCode \<Rightarrow> DaqdbDhtResult" where
  "failed_result st = \<lparr>res_status = st, res_msgSize = 0, res_msg = []\<rparr>"

definition ok_result :: "bytes \<Rightarrow> DaqdbDhtResult" where
  "ok_result bs = \<lparr>res_status = OK, res_msgSize = length bs, res_msg = bs\<rparr>"

definition respond :: "('a \<Rightarrow> bytes) \<Rightarrow> (exn + 'a) \<times> 's \<Rightarrow> (exn + DaqdbDhtResult) \<times> 's" where
  "respond f res =
     (case res of
        (Inr x, s) \<Rightarrow> (Inr (ok_result (f x)), s)
      | (Inl (OperationFailed st), s) \<Rightarrow> (Inr (failed_result st), s)
      | (Inl e, s) \<Rightarrow> (Inl e, s))"

definition erpcReqGetAnyHandler ::
  "('q, 'r, 'k, 'p, 'c) kv_outside \<Rightarrow> DaqdbDhtMsg \<Rightarrow> ('q, 'r, 'k, 'p, 'c) KVStore \<Rightarrow> (exn + DaqdbDhtResult) \<times> ('q, 'r, 'k, 'p, 'c) KVStore" where
  "erpcReqGetAnyHandler y msg kv = respond id (kv_GetAnyRaw y (replicate (kv_keySize kv) 0) kv)"

definition erpcReqGetHandler ::
  "('q, 'r, 'k, 'p, 'c) kv_outside \<Rightarrow> DaqdbDhtMsg \<Rightarrow> ('q, 'r, 'k, 'p, 'c) KVStore \<Rightarrow> (exn + DaqdbDhtResult) \<times> ('q, 'r, 'k, 'p, 'c) KVStore" where
  "erpcReqGetHandler y msg kv =
     (let cap = ERPC_MAX_RESPONSE_SIZE - SIZEOF_DaqdbDhtResult
      in if length (msg_msg msg) < msg_keySize msg then (Inl Undefined, kv)
         else respond (\<lambda>(bs, n). take n bs) (kv_GetRawBuf y (take (msg_keySize msg) (msg_msg msg)) (Some (replicate cap 0)) cap kv))"

definition erpcReqPutHandler ::
  "('q, 'r, 'k, 'p, 'c) kv_outside \<Rightarrow> DaqdbDhtMsg \<Rightarrow> ('q, 'r, 'k, 'p, 'c) KVStore \<Rightarrow> (exn + DaqdbDhtResult) \<times> ('q, 'r, 'k, 'p, 'c) KVStore" where
  "erpcReqPutHandler y msg kv =
     (let key = take (msg_keySize msg) (msg_msg msg); val = take (msg_valSize msg) (drop (msg_keySize msg) (msg_msg msg))
      in if length (msg_msg msg) < msg_keySize msg + msg_valSize msg then (Inl Undefined, kv)
         else case kv_AllocRaw y key (msg_valSize msg) KVS_BUFFERED kv of
                (Inl e, kv) \<Rightarrow> (Inl e, kv)
              | (Inr p, kv) \<Rightarrow>
                 (case p of
                    PmemPtr b \<Rightarrow> respond (\<lambda>_. []) (kv_PutRaw y key default_put (fill b val kv))
                  | _ \<Rightarrow> (Inl Undefined, kv)))"

definition erpcReqRemoveHandler ::
  "('q, 'r, 'k, 'p, 'c) kv_outside \<Rightarrow> DaqdbDhtMsg \<Rightarrow> ('q, 'r, 'k, 'p, 'c) KVStore \<Rightarrow> (exn + DaqdbDhtResult) \<times> ('q, 'r, 'k, 'p, 'c) KVStore" where
  "erpcReqRemoveHandler y msg kv =
     (if length (msg_msg msg) < msg_keySize msg then (Inl Undefined, kv)
      else respond (\<lambda>_. []) (kv_RemoveRaw y (take (msg_keySize msg) (msg_msg msg)) kv))"

text \<open>The functions the server registers.\<close>

definition serve ::
  "('q, 'r, 'k, 'p, 'c) kv_outside \<Rightarrow> ErpRequestType \<Rightarrow> DaqdbDhtMsg \<Rightarrow> ('q, 'r, 'k, 'p, 'c) KVStore \<Rightarrow> (exn + DaqdbDhtResult) \<times> ('q, 'r, 'k, 'p, 'c) KVStore" where
  "serve y ty msg kv =
     (case ty of
        ERP_REQUEST_GET \<Rightarrow> erpcReqGetHandler y msg kv
      | ERP_REQUEST_GETANY \<Rightarrow> erpcReqGetAnyHandler y msg kv
      | ERP_REQUEST_PUT \<Rightarrow> erpcReqPutHandler y msg kv
      | ERP_REQUEST_REMOVE \<Rightarrow> erpcReqRemoveHandler y msg kv)"

text \<open>A server built for measurements answers every request at once.\<close>

definition loopback :: "ErpRequestType \<Rightarrow> DaqdbDhtMsg \<Rightarrow> 's \<Rightarrow> (exn + DaqdbDhtResult) \<times> 's" where
  "loopback ty msg s = (Inr (ok_result []), s)"

section \<open>Client\<close>

datatype DhtClientState = DHT_CLIENT_INIT | DHT_CLIENT_READY | DHT_CLIENT_ERROR | DHT_CLIENT_STOPPED

text \<open>\<open>cl_req\<close> is the whole request buffer, \<open>cl_reqSize\<close> the size of the request in it, \<open>cl_net\<close> the state of the network.\<close>

record 'n DhtClient =
  cl_state :: DhtClientState
  cl_core :: DhtCore
  cl_req :: DaqdbDhtMsg
  cl_reqSize :: nat
  reqMsgBufInUse :: bool
  reqMsgBufValInUse :: bool
  cl_anyIdx :: nat
  remoteRpcId :: u8
  cl_net :: 'n

record 'n erpc =
  erpc_request :: "int \<Rightarrow> ErpRequestType \<Rightarrow> DaqdbDhtMsg \<Rightarrow> 'n \<Rightarrow> DaqdbDhtResult option \<times> 'n"
  erpc_create_session :: "string \<Rightarrow> u16 \<Rightarrow> u8 \<Rightarrow> 'n \<Rightarrow> int \<times> 'n"
  erpc_is_connected :: "int \<Rightarrow> 'n \<Rightarrow> bool"
  erpc_run_event_loop :: "'n \<Rightarrow> 'n"

definition WAIT_FOR_NEIGHBOUR_RETRIES :: nat where
  "WAIT_FOR_NEIGHBOUR_RETRIES = 10"

fun wait_connected :: "'n erpc \<Rightarrow> nat \<Rightarrow> int \<Rightarrow> 'n \<Rightarrow> 'n" where
  "wait_connected e 0 s n = n"
| "wait_connected e (Suc retries) s n =
     (if erpc_is_connected e s n then n else wait_connected e retries s (erpc_run_event_loop e n))"

definition initializeNode :: "'n erpc \<Rightarrow> nat \<Rightarrow> 'n DhtClient \<Rightarrow> (exn + unit) \<times> 'n DhtClient" where
  "initializeNode e i c =
     (let nd = neighbors (cl_core c) ! i; (s, n) = erpc_create_session e (node_ip nd) (node_port nd) (remoteRpcId c) (cl_net c);
          n = wait_connected e WAIT_FOR_NEIGHBOUR_RETRIES s n; c = c\<lparr>cl_net := n\<rparr>
      in if erpc_is_connected e s n
         then (Inr (), c\<lparr>cl_core := (cl_core c)\<lparr>neighbors := (neighbors (cl_core c))[i := nd\<lparr>sessionId := s\<rparr>]\<rparr>\<rparr>)
         else (Inl (OperationFailed DHT_CONNECT_ERROR), c))"

fun connect_all :: "'n erpc \<Rightarrow> nat list \<Rightarrow> 'n DhtClient \<Rightarrow> (exn + unit) \<times> 'n DhtClient" where
  "connect_all e [] c = (Inr (), c)"
| "connect_all e (i # js) c = (case initializeNode e i c of (Inl ex, c) \<Rightarrow> (Inl ex, c) | (Inr u, c) \<Rightarrow> connect_all e js c)"

text \<open>\<open>initialize\<close>: the \<open>i\<close>-th client of a node chooses a thread of the servers, by a random number, and is
  connected to every neighbour; its buffers hold what the memory held.\<close>

definition initialize :: "'n erpc \<Rightarrow> bytes \<Rightarrow> DhtOptions \<Rightarrow> u64 \<Rightarrow> nat \<Rightarrow> DhtCore \<Rightarrow> 'n \<Rightarrow> (exn + unit) \<times> 'n DhtClient" where
  "initialize e junk opts randomSeed i core n =
     (let threads = ucast (numOfDhtThreads opts) :: u8;
          c = \<lparr>cl_state = DHT_CLIENT_INIT, cl_core = core, cl_req = \<lparr>msg_keySize = 0, msg_valSize = 0, msg_msg = junk\<rparr>,
               cl_reqSize = ERPC_MAX_REQUEST_SIZE, reqMsgBufInUse = False, reqMsgBufValInUse = False, cl_anyIdx = 0, remoteRpcId = 0, cl_net = n\<rparr>
      in if threads = 0 then (Inl Undefined, c)
         else case connect_all e [0..<length (neighbors core)]
                     (c\<lparr>remoteRpcId := ucast (baseDhtId opts) + ucast ((randomSeed + of_nat i) mod ucast threads)\<rparr>) of
                (Inl ex, c) \<Rightarrow> (Inl ex, c\<lparr>cl_state := DHT_CLIENT_ERROR\<rparr>)
              | (Inr u, c) \<Rightarrow> (Inr (), c\<lparr>cl_state := DHT_CLIENT_READY\<rparr>))"

definition ping :: "'n erpc \<Rightarrow> nat \<Rightarrow> 'n DhtClient \<Rightarrow> (exn + bool) \<times> 'n DhtClient" where
  "ping e i c =
     (if cl_state c \<noteq> DHT_CLIENT_READY then (Inl (OperationFailed DHT_DISABLED_ERROR), c)
      else let s = sessionId (neighbors (cl_core c) ! i)
           in if s \<noteq> - 1 then (Inr (erpc_is_connected e s (cl_net c)), c)
              else case initializeNode e i c of (Inl ex, c) \<Rightarrow> (Inl ex, c) | (Inr u, c) \<Rightarrow> (Inr True, c))"

text \<open>eRPC resizes a buffer within the size it was made with.\<close>

definition resizeMsgBuffers :: "nat \<Rightarrow> 'n DhtClient \<Rightarrow> exn + 'n DhtClient" where
  "resizeMsgBuffers n c = (if ERPC_MAX_REQUEST_SIZE < n then Inl Undefined else Inr (c\<lparr>cl_reqSize := n\<rparr>))"

text \<open>The bytes of a value; a block of the index is not accessible to a client.\<close>

definition val_bytes :: "Value \<Rightarrow> exn + bytes" where
  "val_bytes v =
     (let get = (\<lambda>bs. if length bs < val_size v then Inl Undefined else Inr (take (val_size v) bs))
      in case val_data v of HeapPtr bs \<Rightarrow> get bs | DhtPtr bs \<Rightarrow> get bs | VNull \<Rightarrow> get [] | PmemPtr b \<Rightarrow> Inl Undefined)"

text \<open>A buffered key is in the message already, with its size.\<close>

definition fill_key :: "Key \<Rightarrow> DaqdbDhtMsg \<Rightarrow> DaqdbDhtMsg" where
  "fill_key k m =
     (if key_isKvsBuffered k then m
      else m\<lparr>msg_keySize := length (key_data k), msg_msg := blit (key_data k) 0 (msg_msg m)\<rparr>)"

definition fillReqMsg :: "Key option \<Rightarrow> Value option \<Rightarrow> 'n DhtClient \<Rightarrow> exn + 'n DhtClient" where
  "fillReqMsg ko vo c =
     (let m = (case ko of None \<Rightarrow> cl_req c | Some k \<Rightarrow> fill_key k (cl_req c)); off = (case ko of None \<Rightarrow> 0 | Some k \<Rightarrow> length (key_data k))
      in case vo of
           None \<Rightarrow> Inr (c\<lparr>cl_req := m\<rparr>)
         | Some v \<Rightarrow> map_sum id (\<lambda>bs. c\<lparr>cl_req := m\<lparr>msg_valSize := val_size v, msg_msg := blit bs off (msg_msg m)\<rparr>\<rparr>) (val_bytes v))"

text \<open>The request as it is sent, and the wait for the response, which has no time limit.\<close>

definition wire :: "'n DhtClient \<Rightarrow> DaqdbDhtMsg" where
  "wire c = (cl_req c)\<lparr>msg_msg := take (cl_reqSize c - SIZEOF_DaqdbDhtMsg) (msg_msg (cl_req c))\<rparr>"

definition enqueueAndWait :: "'n erpc \<Rightarrow> nat \<Rightarrow> ErpRequestType \<Rightarrow> 'n DhtClient \<Rightarrow> (exn + DaqdbDhtResult) \<times> 'n DhtClient" where
  "enqueueAndWait e i ty c =
     (case erpc_request e (sessionId (neighbors (cl_core c) ! i)) ty (wire c) (cl_net c) of
        (None, n) \<Rightarrow> (Inl NoReturn, c\<lparr>cl_net := n\<rparr>)
      | (Some res, n) \<Rightarrow> (if res_status res = OK then Inr res else Inl (OperationFailed (res_status res)), c\<lparr>cl_net := n\<rparr>))"

definition send_request ::
  "'n erpc \<Rightarrow> nat \<Rightarrow> Key option \<Rightarrow> Value option \<Rightarrow> ErpRequestType \<Rightarrow> exn + nat \<Rightarrow> 'n DhtClient \<Rightarrow> (exn + DaqdbDhtResult) \<times> 'n DhtClient" where
  "send_request e n ko vo ty host c =
     (case resizeMsgBuffers n c of
        Inl ex \<Rightarrow> (Inl ex, c)
      | Inr c \<Rightarrow>
         (case fillReqMsg ko vo c of
            Inl ex \<Rightarrow> (Inl ex, c)
          | Inr c \<Rightarrow> (case host of Inl ex \<Rightarrow> (Inl ex, c) | Inr i \<Rightarrow> enqueueAndWait e i ty c)))"

text \<open>The callbacks copy the bytes of a successful response.\<close>

definition clb_bytes :: "DaqdbDhtResult \<Rightarrow> exn + bytes" where
  "clb_bytes res = (if length (res_msg res) < res_msgSize res then Inl Undefined else Inr (take (res_msgSize res) (res_msg res)))"

definition client_get :: "'n erpc \<Rightarrow> Key \<Rightarrow> 'n DhtClient \<Rightarrow> (exn + Value) \<times> 'n DhtClient" where
  "client_get e k c =
     (case send_request e (SIZEOF_DaqdbDhtMsg + length (key_data k)) (Some k) None ERP_REQUEST_GET (getHostForKey (cl_core c) (key_data k)) c of
        (Inl ex, c) \<Rightarrow> (Inl ex, c)
      | (Inr res, c) \<Rightarrow>
         (map_sum id (\<lambda>bs. \<lparr>val_data = HeapPtr bs, val_size = length bs, val_attr = NOT_BUFFERED\<rparr>) (clb_bytes res), c))"

definition client_getAny :: "'n erpc \<Rightarrow> 'n DhtClient \<Rightarrow> (exn + Key) \<times> 'n DhtClient" where
  "client_getAny e c =
     (let any = getHostAny (cl_core c) (cl_anyIdx c)
      in case send_request e SIZEOF_DaqdbDhtMsg None None ERP_REQUEST_GETANY (map_sum id fst any) c of
           (Inl ex, c) \<Rightarrow> (Inl ex, case any of Inl ex' \<Rightarrow> c | Inr (i, idx) \<Rightarrow> c\<lparr>cl_anyIdx := idx\<rparr>)
         | (Inr res, c) \<Rightarrow>
            (map_sum id (\<lambda>bs. \<lparr>key_data = bs, key_attr = NOT_BUFFERED\<rparr>) (clb_bytes res),
             case any of Inl ex' \<Rightarrow> c | Inr (i, idx) \<Rightarrow> c\<lparr>cl_anyIdx := idx\<rparr>))"

definition client_put :: "'n erpc \<Rightarrow> Key \<Rightarrow> Value \<Rightarrow> 'n DhtClient \<Rightarrow> (exn + unit) \<times> 'n DhtClient" where
  "client_put e k v c =
     (case send_request e (SIZEOF_DaqdbDhtMsg + length (key_data k) + val_size v) (Some k) (Some v) ERP_REQUEST_PUT (getHostForKey (cl_core c) (key_data k)) c of
        (res, c) \<Rightarrow> (map_sum id (\<lambda>_. ()) res, c))"

definition client_remove :: "'n erpc \<Rightarrow> Key \<Rightarrow> 'n DhtClient \<Rightarrow> (exn + unit) \<times> 'n DhtClient" where
  "client_remove e k c =
     (case send_request e (SIZEOF_DaqdbDhtMsg + length (key_data k)) (Some k) None ERP_REQUEST_REMOVE (getHostForKey (cl_core c) (key_data k)) c of
        (res, c) \<Rightarrow> (map_sum id (\<lambda>_. ()) res, c))"

text \<open>Keys and values in the message buffer, one of each at a time. The code does not compare their sizes with the
  buffer; a pointer behind its end is undefined.\<close>

definition client_allocKey :: "nat \<Rightarrow> 'n DhtClient \<Rightarrow> (exn + Key) \<times> 'n DhtClient" where
  "client_allocKey n c =
     (if reqMsgBufInUse c then (Inl (OperationFailed DHT_ALLOCATION_ERROR), c)
      else if length (msg_msg (cl_req c)) < n then (Inl Undefined, c)
      else (Inr \<lparr>key_data = take n (msg_msg (cl_req c)), key_attr = KVS_BUFFERED\<rparr>,
            c\<lparr>reqMsgBufInUse := True, cl_req := (cl_req c)\<lparr>msg_keySize := n\<rparr>\<rparr>))"

definition client_freeKey :: "Key \<Rightarrow> 'n DhtClient \<Rightarrow> (exn + unit) \<times> 'n DhtClient" where
  "client_freeKey k c = (Inr (), c\<lparr>reqMsgBufInUse := False\<rparr>)"

definition client_alloc :: "Key \<Rightarrow> nat \<Rightarrow> 'n DhtClient \<Rightarrow> (exn + Value) \<times> 'n DhtClient" where
  "client_alloc k n c =
     (if reqMsgBufValInUse c then (Inl (OperationFailed DHT_ALLOCATION_ERROR), c)
      else if length (msg_msg (cl_req c)) < length (key_data k) + n then (Inl Undefined, c)
      else (Inr \<lparr>val_data = DhtPtr (take n (drop (length (key_data k)) (msg_msg (cl_req c)))), val_size = n, val_attr = KVS_BUFFERED\<rparr>,
            c\<lparr>reqMsgBufValInUse := True, cl_req := (cl_req c)\<lparr>msg_valSize := n\<rparr>\<rparr>))"

definition client_free :: "Value \<Rightarrow> 'n DhtClient \<Rightarrow> (exn + unit) \<times> 'n DhtClient" where
  "client_free v c = (Inr (), c\<lparr>reqMsgBufValInUse := False\<rparr>)"

text \<open>The client as the store uses it.\<close>

definition dht_client_of :: "'n erpc \<Rightarrow> 'n DhtClient dht_client" where
  "dht_client_of e = \<lparr>dc_put = client_put e, dc_get = client_get e, dc_remove = client_remove e, dc_alloc = client_alloc,
     dc_allocKey = client_allocKey, dc_free = client_free, dc_freeKey = client_freeKey\<rparr>"

section \<open>Requests on the wire\<close>

text \<open>A buffered key is the one the message holds.\<close>

definition key_in_msg :: "Key \<Rightarrow> DaqdbDhtMsg \<Rightarrow> bool" where
  "key_in_msg k m \<longleftrightarrow> key_isKvsBuffered k \<longrightarrow> msg_keySize m = length (key_data k) \<and> take (length (key_data k)) (msg_msg m) = key_data k"

lemma fill_key_spec:
  assumes "key_in_msg k m" "length (key_data k) \<le> length (msg_msg m)"
  shows "msg_keySize (fill_key k m) = length (key_data k)" "take (length (key_data k)) (msg_msg (fill_key k m)) = key_data k"
    "length (msg_msg (fill_key k m)) = length (msg_msg m)"
  using assms by (auto simp: fill_key_def key_in_msg_def blit_def)

lemma val_bytes_length: "val_bytes v = Inr bs \<Longrightarrow> length bs = val_size v"
  by (auto simp: val_bytes_def Let_def split: val_ptr.splits if_splits)

text \<open>What a filled request looks like to the server.\<close>

lemma send_put:
  assumes "key_in_msg k (cl_req c)" "val_bytes v = Inr bs" "length (msg_msg (cl_req c)) = ERPC_MAX_REQUEST_SIZE - SIZEOF_DaqdbDhtMsg"
    and "SIZEOF_DaqdbDhtMsg + length (key_data k) + length bs \<le> ERPC_MAX_REQUEST_SIZE"
  obtains c' where "send_request e (SIZEOF_DaqdbDhtMsg + length (key_data k) + val_size v) (Some k) (Some v) ty (Inr i) c = enqueueAndWait e i ty c'"
    "wire c' = \<lparr>msg_keySize = length (key_data k), msg_valSize = length bs, msg_msg = key_data k @ bs\<rparr>"
    "cl_core c' = cl_core c" "cl_net c' = cl_net c" "key_in_msg k (cl_req c')" "length (msg_msg (cl_req c')) = length (msg_msg (cl_req c))"
proof -
  let ?n = "SIZEOF_DaqdbDhtMsg + length (key_data k) + val_size v"
  let ?m = "fill_key k (cl_req c)"
  let ?c = "c\<lparr>cl_reqSize := ?n, cl_req := ?m\<lparr>msg_valSize := val_size v, msg_msg := blit bs (length (key_data k)) (msg_msg ?m)\<rparr>\<rparr>"
  have len: "length bs = val_size v" using assms(2) by (rule val_bytes_length)
  have room: "length (key_data k) + length bs \<le> length (msg_msg (cl_req c))" using assms(3,4) by simp
  note f = fill_key_spec [OF assms(1), OF order_trans [OF le_add1 room]]
  have b: "take (length (key_data k) + length bs) (blit bs (length (key_data k)) (msg_msg ?m)) = key_data k @ bs"
    using f(2,3) room by (simp add: blit_def min_def)
  have "send_request e ?n (Some k) (Some v) ty (Inr i) c = enqueueAndWait e i ty ?c"
    using assms(2,4) len by (simp add: send_request_def resizeMsgBuffers_def fillReqMsg_def Let_def)
  moreover have "wire ?c = \<lparr>msg_keySize = length (key_data k), msg_valSize = length bs, msg_msg = key_data k @ bs\<rparr>"
    using f(1) b len by (simp add: wire_def)
  moreover have "key_in_msg k (cl_req ?c)" "length (msg_msg (cl_req ?c)) = length (msg_msg (cl_req c))"
    using f room by (simp_all add: key_in_msg_def take_blit)
  ultimately show ?thesis using that [of ?c] by simp
qed

lemma send_key:
  assumes "key_in_msg k (cl_req c)" "length (key_data k) \<le> length (msg_msg (cl_req c))"
    and "SIZEOF_DaqdbDhtMsg + length (key_data k) \<le> ERPC_MAX_REQUEST_SIZE"
  obtains c' where "send_request e (SIZEOF_DaqdbDhtMsg + length (key_data k)) (Some k) None ty (Inr i) c = enqueueAndWait e i ty c'"
    "msg_keySize (wire c') = length (key_data k)" "msg_msg (wire c') = key_data k" "cl_core c' = cl_core c" "cl_net c' = cl_net c"
proof -
  let ?n = "SIZEOF_DaqdbDhtMsg + length (key_data k)"
  let ?c = "c\<lparr>cl_reqSize := ?n, cl_req := fill_key k (cl_req c)\<rparr>"
  have "send_request e ?n (Some k) None ty (Inr i) c = enqueueAndWait e i ty ?c"
    using assms(3) by (simp add: send_request_def resizeMsgBuffers_def fillReqMsg_def Let_def)
  then show ?thesis using that [of ?c] fill_key_spec [OF assms(1,2)] by (simp add: wire_def)
qed

section \<open>Remote operations\<close>

text \<open>What is assumed of eRPC: a request reaches the handler the server registered, and its response comes back; when
  the handler throws there is no response. \<open>node s n\<close> is the store behind session \<open>s\<close> in network state \<open>n\<close>.\<close>

definition delivers ::
  "'n erpc \<Rightarrow> ('q, 'r, 'k, 'p, 'c) kv_outside \<Rightarrow> (int \<Rightarrow> 'n \<Rightarrow> ('q, 'r, 'k, 'p, 'c) KVStore) \<Rightarrow>
    (int \<Rightarrow> ('q, 'r, 'k, 'p, 'c) KVStore \<Rightarrow> 'n \<Rightarrow> 'n) \<Rightarrow> bool" where
  "delivers e y node upd \<longleftrightarrow>
     (\<forall>s ty m n. erpc_request e s ty m n =
        (case serve y ty m (node s n) of (Inr res, kv) \<Rightarrow> (Some res, upd s kv n) | (Inl ex, kv) \<Rightarrow> (None, upd s kv n))) \<and>
     (\<forall>s kv n. node s (upd s kv n) = kv)"

lemma delivers_wait:
  assumes "delivers e y node upd" "s = sessionId (neighbors (cl_core c) ! i)"
  shows "enqueueAndWait e i ty c =
    (case serve y ty (wire c) (node s (cl_net c)) of
       (Inr res, kv) \<Rightarrow> (if res_status res = OK then Inr res else Inl (OperationFailed (res_status res)), c\<lparr>cl_net := upd s kv (cl_net c)\<rparr>)
     | (Inl ex, kv) \<Rightarrow> (Inl NoReturn, c\<lparr>cl_net := upd s kv (cl_net c)\<rparr>))"
  using assms by (auto simp: delivers_def enqueueAndWait_def split: prod.splits sum.splits)

lemma kv_GetRawBuf_pmem:
  assumes "art_inv (kv_tree kv)" "length key = 8" "art_map (kv_tree kv) key = Some (PmemVal v)" "length v \<le> cap"
  shows "kv_GetRawBuf y key (Some (replicate cap 0)) cap kv = (Inr (v @ replicate (cap - length v) 0, length v), kv)"
  using ART_Get_spec [OF assms(1,2)] assms(3,4) by (auto simp: kv_GetRawBuf_def memcpy_prefix_def)

lemma client_get_pmem:
  assumes "delivers e y node upd" "getHostForKey (cl_core c) (key_data k) = Inr i" "s = sessionId (neighbors (cl_core c) ! i)"
    and "length (key_data k) = 8" "key_in_msg k (cl_req c)" "8 \<le> length (msg_msg (cl_req c))"
    and "art_inv (kv_tree (node s (cl_net c)))" "art_map (kv_tree (node s (cl_net c))) (key_data k) = Some (PmemVal bs)"
    and "length bs \<le> ERPC_MAX_RESPONSE_SIZE - SIZEOF_DaqdbDhtResult"
  shows "fst (client_get e k c) = Inr \<lparr>val_data = HeapPtr bs, val_size = length bs, val_attr = NOT_BUFFERED\<rparr>"
proof -
  have fits: "SIZEOF_DaqdbDhtMsg + length (key_data k) \<le> ERPC_MAX_REQUEST_SIZE"
    using assms(4) by (simp add: SIZEOF_DaqdbDhtMsg_def ERPC_MAX_REQUEST_SIZE_def)
  obtain c' where c': "send_request e (SIZEOF_DaqdbDhtMsg + length (key_data k)) (Some k) None ERP_REQUEST_GET (Inr i) c = enqueueAndWait e i ERP_REQUEST_GET c'"
    "msg_keySize (wire c') = length (key_data k)" "msg_msg (wire c') = key_data k" "cl_core c' = cl_core c" "cl_net c' = cl_net c"
    using send_key [OF assms(5) _ fits, of e ERP_REQUEST_GET i] assms(4,6) by auto
  have "serve y ERP_REQUEST_GET (wire c') (node s (cl_net c')) = (Inr (ok_result bs), node s (cl_net c'))"
    using kv_GetRawBuf_pmem [OF assms(7,4,8,9), of y] c'(2,3,5) by (simp add: serve_def erpcReqGetHandler_def respond_def Let_def)
  then show ?thesis
    using c' assms(2) delivers_wait [OF assms(1), of s c' i] assms(3) by (simp add: client_get_def ok_result_def clb_bytes_def)
qed

section \<open>Properties\<close>

text \<open>C7. A value put on another node is found there. When eRPC delivers requests and responses, a \<open>put\<close> through
  the client either leaves the key with exactly these bytes in the index of the node the key is routed to, and
  a \<open>get\<close> through the client returns them, or it never returns: the server cannot allocate the value,
  as for a key that has one, and the exception ends its thread, while no key is changed.\<close>

theorem remote_put_get:
  assumes "delivers e y node upd" "getHostForKey (cl_core c) (key_data k) = Inr i" "s = sessionId (neighbors (cl_core c) ! i)"
    and "length (key_data k) = 8" "key_in_msg k (cl_req c)" "length (msg_msg (cl_req c)) = ERPC_MAX_REQUEST_SIZE - SIZEOF_DaqdbDhtMsg"
    and "val_bytes v = Inr bs" "SIZEOF_DaqdbDhtMsg + 8 + length bs \<le> ERPC_MAX_REQUEST_SIZE"
    and "art_inv (kv_tree (node s (cl_net c)))" "fresh_reserve (reserve (kv_off y))" "takes_key y (key_data k) (node s (cl_net c))"
  shows "case client_put e k v c of
      (Inr u, c1) \<Rightarrow> art_map (kv_tree (node s (cl_net c1))) = (art_map (kv_tree (node s (cl_net c))))(key_data k \<mapsto> PmemVal bs) \<and>
        fst (client_get e k c1) = Inr \<lparr>val_data = HeapPtr bs, val_size = length bs, val_attr = NOT_BUFFERED\<rparr>
    | (Inl ex, c1) \<Rightarrow> ex = NoReturn \<and> isl (fst (kv_AllocRaw y (key_data k) (length bs) KVS_BUFFERED (node s (cl_net c)))) \<and>
        art_map (kv_tree (node s (cl_net c1))) = art_map (kv_tree (node s (cl_net c)))"
proof -
  have fits: "SIZEOF_DaqdbDhtMsg + length (key_data k) + length bs \<le> ERPC_MAX_REQUEST_SIZE" using assms(4,8) by simp
  obtain c' where c': "send_request e (SIZEOF_DaqdbDhtMsg + length (key_data k) + val_size v) (Some k) (Some v) ERP_REQUEST_PUT (Inr i) c = enqueueAndWait e i ERP_REQUEST_PUT c'"
    "wire c' = \<lparr>msg_keySize = length (key_data k), msg_valSize = length bs, msg_msg = key_data k @ bs\<rparr>"
    "cl_core c' = cl_core c" "cl_net c' = cl_net c" "key_in_msg k (cl_req c')" "length (msg_msg (cl_req c')) = length (msg_msg (cl_req c))"
    using send_put [OF assms(5,7,6) fits] by blast
  have put: "client_put e k v c = (case enqueueAndWait e i ERP_REQUEST_PUT c' of (res, c) \<Rightarrow> (map_sum id (\<lambda>_. ()) res, c))"
    using assms(2) c'(1) by (simp add: client_put_def)
  have nd: "\<And>s kv n. node s (upd s kv n) = kv" using assms(1) by (simp add: delivers_def)
  note wt = delivers_wait [OF assms(1), of s c' i ERP_REQUEST_PUT, unfolded c'(2-4), OF assms(3)]
  show ?thesis using assms(9,4,10,11)
  proof (cases rule: kv_store_raw [where v = bs])
    case (fail t1)
    then show ?thesis using wt by (simp add: put serve_def erpcReqPutHandler_def nd)
  next
    case (ok b t1 t2 q)
    let ?kv = "(set_tree t2 (node s (cl_net c)))\<lparr>kv_readyKeys := q\<rparr>"
    let ?c1 = "c'\<lparr>cl_net := upd s ?kv (cl_net c)\<rparr>"
    have p: "client_put e k v c = (Inr (), ?c1)"
      using wt ok(1,2) by (simp add: put serve_def erpcReqPutHandler_def respond_def ok_result_def Let_def)
    have cap: "length bs \<le> ERPC_MAX_RESPONSE_SIZE - SIZEOF_DaqdbDhtResult" "8 \<le> length (msg_msg (cl_req ?c1))"
      using assms(6,8) c'(6) by (simp_all add: SIZEOF_DaqdbDhtMsg_def SIZEOF_DaqdbDhtResult_def ERPC_MAX_REQUEST_SIZE_def ERPC_MAX_RESPONSE_SIZE_def)
    have "fst (client_get e k ?c1) = Inr \<lparr>val_data = HeapPtr bs, val_size = length bs, val_attr = NOT_BUFFERED\<rparr>"
      by (rule client_get_pmem [OF assms(1) _ _ assms(4) _ cap(2) _ _ cap(1), of i s]) (use assms(2,3) c'(3,5) ok(3,4) in \<open>simp_all add: nd\<close>)
    then show ?thesis using ok(4) by (simp add: p nd)
  qed
qed

text \<open>A network of one server, reached by direct calls.\<close>

definition direct :: "('q, 'r, 'k, 'p, 'c) kv_outside \<Rightarrow> (int \<Rightarrow> ('q, 'r, 'k, 'p, 'c) KVStore) erpc" where
  "direct y =
     \<lparr>erpc_request = (\<lambda>s ty m n. case serve y ty m (n s) of (Inr res, kv) \<Rightarrow> (Some res, n(s := kv)) | (Inl ex, kv) \<Rightarrow> (None, n(s := kv))),
      erpc_create_session = (\<lambda>ip port rpc n. (0, n)), erpc_is_connected = (\<lambda>s n. True), erpc_run_event_loop = id\<rparr>"

lemma direct_delivers: "delivers (direct y) y (\<lambda>s n. n s) (\<lambda>s kv n. n(s := kv))"
  by (simp add: delivers_def direct_def)

definition ex_core :: DhtCore where
  "ex_core = \<lparr>neighbors = [new_node\<lparr>sessionId := 0\<rparr>], localNode = new_node, rangeToHost = [((0, 255), 0)], core_maskLength = 1, core_maskOffset = 0\<rparr>"

definition ex_client :: "(int \<Rightarrow> (rqst list, task list, bytes list, pm_rqst list, unit) KVStore) DhtClient" where
  "ex_client = \<lparr>cl_state = DHT_CLIENT_READY, cl_core = ex_core,
     cl_req = \<lparr>msg_keySize = 0, msg_valSize = 0, msg_msg = replicate (ERPC_MAX_REQUEST_SIZE - SIZEOF_DaqdbDhtMsg) 0\<rparr>,
     cl_reqSize = ERPC_MAX_REQUEST_SIZE, reqMsgBufInUse = False, reqMsgBufValInUse = False, cl_anyIdx = 0, remoteRpcId = 0, cl_net = (\<lambda>s. ex_kv)\<rparr>"

definition ex_val :: Value where
  "ex_val = \<lparr>val_data = HeapPtr [9, 9], val_size = 2, val_attr = NOT_BUFFERED\<rparr>"

theorem remote_put_get_witness:
  "\<exists>c1. client_put (direct ex_kvo) ex_key ex_val ex_client = (Inr (), c1) \<and> fst (client_get (direct ex_kvo) ex_key c1) = Inr ex_val"
proof -
  have h: "getHostForKey (cl_core ex_client) (key_data ex_key) = Inr 0" "sessionId (neighbors (cl_core ex_client) ! 0) = 0"
    "length (key_data ex_key) = 8" "key_in_msg ex_key (cl_req ex_client)" "val_bytes ex_val = Inr [9, 9]"
    "length (msg_msg (cl_req ex_client)) = ERPC_MAX_REQUEST_SIZE - SIZEOF_DaqdbDhtMsg" "cl_net ex_client 0 = ex_kv"
    by (simp_all add: ex_client_def ex_core_def ex_key_def key1_def key_in_msg_def key_isKvsBuffered_def val_bytes_def ex_val_def Let_def
        getHostForKey_def genHash_def shifted_byte_def in_range_def new_node_def)
  obtain t1 where "AllocValueForKey small_reserve key1 2 empty_tree = (Inr 1, t1)" using alloc_key1 by blast
  then have a: "\<not> isl (fst (kv_AllocRaw ex_kvo (key_data ex_key) 2 KVS_BUFFERED ex_kv))"
    by (simp add: kv_AllocRaw_def ex_kv_fields ex_kvo_def ex_outside_def ex_key_def)
  have t: "takes_key ex_kvo (key_data ex_key) ex_kv" "art_inv (kv_tree ex_kv)" "fresh_reserve (reserve (kv_off ex_kvo))"
    using ex_takes by (simp_all add: ex_key_def ex_kv_fields empty_tree_inv ex_kvo_def ex_outside_def small_reserve_fresh)
  show ?thesis
    using remote_put_get [OF direct_delivers h(1) h(2) [symmetric] h(3,4,6,5), of ex_kvo] t a
    by (cases "client_put (direct ex_kvo) ex_key ex_val ex_client")
      (auto simp: h ex_val_def SIZEOF_DaqdbDhtMsg_def ERPC_MAX_REQUEST_SIZE_def numeral_2_eq_2 split: sum.splits)
qed

section \<open>Well-typed values\<close>

text \<open>A value is well-typed if its memory has its size.\<close>

definition value_ok :: "ARTree \<Rightarrow> Value \<Rightarrow> bool" where
  "value_ok t v =
     (case val_data v of
        VNull \<Rightarrow> val_size v = 0
      | HeapPtr bs \<Rightarrow> length bs = val_size v \<and> val_attr v = NOT_BUFFERED
      | DhtPtr bs \<Rightarrow> length bs = val_size v \<and> val_attr v = KVS_BUFFERED
      | PmemPtr b \<Rightarrow> (case blocks (pm t) b of Some (ART_Tree.Value bs) \<Rightarrow> length bs = val_size v | _ \<Rightarrow> False) \<and> val_attr v = KVS_BUFFERED)"

lemma value_ok_heap: "value_ok t \<lparr>val_data = HeapPtr bs, val_size = length bs, val_attr = NOT_BUFFERED\<rparr>"
  by (simp add: value_ok_def)

text \<open>What the store relies on in a client: the values and keys it gives are well-typed.\<close>

locale typed_client =
  fixes dc :: "'c dht_client"
  assumes get_typed: "dc_get dc k c = (Inr v, c') \<Longrightarrow> value_ok t v"
    and alloc_typed: "dc_alloc dc k n c = (Inr v, c') \<Longrightarrow> value_ok t v \<and> val_size v = n"
    and allocKey_typed: "dc_allocKey dc n c = (Inr k, c') \<Longrightarrow> length (key_data k) = n"
begin

lemma Get_typed:
  assumes "kv_dc y = dc" "kv_Get y k kv = (Inr v, kv')"
  shows "value_ok t v"
proof -
  have g: "\<And>c c'. dc_get (kv_dc y) k c = (Inr v, c') \<Longrightarrow> value_ok t v" using get_typed assms(1) by simp
  show ?thesis using assms(2) by (auto simp: kv_Get_def on_client_def value_ok_heap dest: g split: sum.splits prod.splits if_splits)
qed

lemma Alloc_typed:
  assumes "kv_dc y = dc" "art_inv (kv_tree kv)" "length (key_data k) = 8" "fresh_reserve (reserve (kv_off y))"
    and "kv_Alloc y k n attr kv = (Inr v, kv')"
  shows "value_ok (kv_tree kv') v \<and> val_size v = n"
proof -
  have c: "\<And>c c'. dc_alloc (kv_dc y) k n c = (Inr v, c') \<Longrightarrow> value_ok (kv_tree kv') v \<and> val_size v = n" using alloc_typed assms(1) by simp
  obtain r t1 where s: "AllocValueForKey (reserve (kv_off y)) (key_data k) n (kv_tree kv) = (r, t1)"
    "case r of Inl e \<Rightarrow> e = OperationFailed PMEM_ALLOCATION_ERROR
      | Inr b \<Rightarrow> art_map (kv_tree kv) (key_data k) = None \<and> reserved_at t1 (key_data k) b (replicate n 0)"
    using AllocValueForKey_spec [OF assms(2-4), of n] by blast
  have a: "r = Inr b \<Longrightarrow> blocks (pm t1) b = Some (ART_Tree.Value (replicate n 0))" for b using s(2) by (auto simp: reserved_at_def)
  show ?thesis using assms(5) s(1) a
    by (cases r; cases attr) (auto simp: kv_Alloc_def kv_AllocRaw_def on_client_def value_ok_def dest: c [unfolded value_ok_def] split: sum.splits prod.splits if_splits)
qed

lemma AllocKey_typed:
  assumes "kv_dc y = dc" "kv_AllocKey y attr kv = (Inr k, kv')"
  shows "length (key_data k) = kv_keySize kv"
proof -
  have "\<And>c c'. dc_allocKey (kv_dc y) (kv_keySize kv) c = (Inr k, c') \<Longrightarrow> length (key_data k) = kv_keySize kv" using allocKey_typed assms(1) by simp
  then show ?thesis using assms(2) by (auto simp: kv_AllocKey_def on_client_def split: prod.splits if_splits)
qed

end

interpretation dht: typed_client "dht_client_of e" for e :: "'n erpc"
proof
  show "dc_get (dht_client_of e) k c = (Inr v, c') \<Longrightarrow> value_ok t v" for k c v c' t
    by (cases "clb_bytes (projr (fst (send_request e (SIZEOF_DaqdbDhtMsg + length (key_data k)) (Some k) None ERP_REQUEST_GET (getHostForKey (cl_core c) (key_data k)) c)))")
      (auto simp: dht_client_of_def client_get_def value_ok_heap split: sum.splits prod.splits)
  show "dc_alloc (dht_client_of e) k n c = (Inr v, c') \<Longrightarrow> value_ok t v \<and> val_size v = n" for k n c v c' t
    by (auto simp: dht_client_of_def client_alloc_def value_ok_def split: if_splits)
  show "dc_allocKey (dht_client_of e) n c = (Inr k, c') \<Longrightarrow> length (key_data k) = n" for k n c c'
    by (auto simp: dht_client_of_def client_allocKey_def split: if_splits)
qed


definition net_kvo :: "(rqst list, task list, bytes list, pm_rqst list, (int \<Rightarrow> (rqst list, task list, bytes list, pm_rqst list, unit) KVStore) DhtClient) kv_outside" where
  "net_kvo = \<lparr>kv_off = ex_outside, kv_enq = (\<lambda>k r. Inr (r @ [k])), kv_deq = (\<lambda>r. case r of [] \<Rightarrow> Inl () | k # r \<Rightarrow> Inr (k, r)),
     kv_ring = list_ring 64, kv_dc = dht_client_of (direct ex_kvo), second = id\<rparr>"

definition net_kv :: "(rqst list, task list, bytes list, pm_rqst list, (int \<Rightarrow> (rqst list, task list, bytes list, pm_rqst list, unit) KVStore) DhtClient) KVStore" where
  "net_kv = \<lparr>kv_options = ex_options, kv_keySize = 8, kv_sys = ex_sys, kv_spdkReady = False, kv_offloadPoller = False, kv_dht = ex_core,
     kv_client = ex_client, kv_pKey = kv_pKey ex_kv, kv_readyKeys = [], kv_rqstPollers = [], kv_pollerId = 0, kv_next = 0\<rparr>"

lemma net_kv_alloc:
  "kv_Alloc net_kvo ex_key 100 KVS_BUFFERED net_kv =
    (Inr \<lparr>val_data = DhtPtr (replicate 100 0), val_size = 100, val_attr = KVS_BUFFERED\<rparr>,
     net_kv\<lparr>kv_client := ex_client\<lparr>reqMsgBufValInUse := True, cl_req := (cl_req ex_client)\<lparr>msg_valSize := 100\<rparr>\<rparr>\<rparr>)"
  by (simp add: kv_Alloc_def net_kvo_def net_kv_def kv_isLocalKey_def isLocalKey_def ex_core_def genHash_def ex_key_def key1_def shifted_byte_def
      new_node_def on_client_def dht_client_of_def client_alloc_def ex_client_def ERPC_MAX_REQUEST_SIZE_def SIZEOF_DaqdbDhtMsg_def)


end
