(* ===== verification/Config_File.thy ===== *)
theory Config_File
  imports Key_Options
begin

text \<open>
  Reading the options from a file, \<^verbatim>\<open>lib/common/Configuration.cpp\<close>. The parser, libconfig, is a parameter: a
  file is given by what the lookups of the parser answer. The messages are not modelled.
\<close>

section \<open>What the parser answers\<close>

text \<open>A value that is read by converting a setting may be missing or have another type; both throw.\<close>

datatype 'a setting = Missing | WrongType | Setting 'a

datatype cfg_exn = SettingNotFound | SettingType

record device_group =
  dg_name :: string
  dg_addr :: "string option"
  dg_nvme :: "string option"

record neighbor_group =
  ng_ip :: "string setting"
  ng_port :: "u32 setting"
  ng_start :: "string setting"
  ng_end :: "string setting"
  ng_local :: "u32 setting"

record config =
  cf_string :: "string \<Rightarrow> string option"
  cf_int :: "string \<Rightarrow> u32 option"
  cf_uint :: "string \<Rightarrow> u32 option"
  cf_llong :: "string \<Rightarrow> u64 option"
  cf_keys :: "u32 setting list option"
  cf_devices :: "device_group list option"
  cf_neighbors :: "neighbor_group list option"

datatype cfg_file = FileIOError | ParseError | Parsed config

section \<open>Reading\<close>

text \<open>Numbers are words; a signed one is widened with its sign when it becomes a \<open>size_t\<close>.\<close>

definition to_size :: "u32 \<Rightarrow> nat" where
  "to_size n = unat (scast n :: u64)"

definition upd_opt :: "'a option \<Rightarrow> ('a \<Rightarrow> 'b \<Rightarrow> 'b) \<Rightarrow> 'b \<Rightarrow> 'b" where
  "upd_opt v f x = (case v of None \<Rightarrow> x | Some a \<Rightarrow> f a x)"

definition read_pmem :: "config \<Rightarrow> PMEMOptions \<Rightarrow> PMEMOptions" where
  "read_pmem cf p =
     upd_opt (cf_int cf ''alloc_unit_size'') (\<lambda>n p. p\<lparr>pmem_allocUnitSize := to_size n\<rparr>)
       (upd_opt (cf_llong cf ''pmem_size'') (\<lambda>n p. p\<lparr>totalSize := unat n\<rparr>)
         (upd_opt (cf_string cf ''pmem_path'') (\<lambda>s p. p\<lparr>poolPath := s\<rparr>) p))"

text \<open>The sizes of the fields of a key; the first field is the primary one.\<close>

fun read_keys :: "nat \<Rightarrow> u32 setting list \<Rightarrow> KeyDescriptor \<Rightarrow> (cfg_exn + unit) \<times> KeyDescriptor" where
  "read_keys n [] d = (Inr (), d)"
| "read_keys n (s # ss) d =
     (case s of
        Setting k \<Rightarrow> read_keys (n + 1) ss (set_field n (to_size k) (n = 0) d)
      | _ \<Rightarrow> (Inl SettingType, d))"

definition read_mode :: "config \<Rightarrow> OperationalMode" where
  "read_mode cf = (if cf_string cf ''mode'' = Some ''satellite'' then SATELLITE else STORAGE)"

text \<open>The devices; a group without an address or a name is left out. False means that there is none.\<close>

definition read_devices :: "device_group list \<Rightarrow> OffloadDevDescriptor list" where
  "read_devices ds = List.map_filter (\<lambda>d. case (dg_addr d, dg_nvme d) of
      (Some a, Some n) \<Rightarrow> Some \<lparr>devName = dg_name d, nvmeAddr = a, nvmeName = n\<rparr> | _ \<Rightarrow> None) ds"

definition dev_type :: "config \<Rightarrow> OffloadDevType option" where
  "dev_type cf =
     (if cf_string cf ''offload_dev_type'' = Some ''bdev'' then Some BDEV
      else if cf_string cf ''offload_dev_type'' = Some ''jbod'' then Some JBOD
      else if cf_string cf ''offload_dev_type'' = Some ''raid0'' then Some RAID0 else None)"

definition read_offload :: "config \<Rightarrow> OffloadOptions \<Rightarrow> (cfg_exn + bool) \<times> OffloadOptions" where
  "read_offload cf off =
     (case dev_type cf of
        None \<Rightarrow> (Inr True, off)
      | Some ty \<Rightarrow>
         (let off = off\<lparr>devType := ty, off_name := (case cf_string cf ''offload_dev_name'' of Some s \<Rightarrow> s | None \<Rightarrow> ''anonymous'')\<rparr>
          in if ty = BDEV
             then case (cf_string cf ''offload_nvme_addr'', cf_string cf ''offload_nvme_name'') of
                    (Some a, Some n) \<Rightarrow> (Inr True, off\<lparr>off_devs := off_devs off @ [\<lparr>devName = [], nvmeAddr = a, nvmeName = n\<rparr>]\<rparr>)
                  | _ \<Rightarrow> (Inr False, off)
             else case cf_devices cf of
                    None \<Rightarrow> (Inl SettingNotFound, off)
                  | Some ds \<Rightarrow>
                     (let off = off\<lparr>off_devs := off_devs off @ read_devices ds\<rparr>
                      in if off_devs off = [] then (Inr False, off)
                         else (Inr True, if ty = RAID0 then upd_opt (cf_int cf ''offload_raid0_stripe_size'') (\<lambda>n off. off\<lparr>raid0StripeSize := to_size n\<rparr>) off
                                         else off))))"

definition read_dht :: "config \<Rightarrow> DhtOptions \<Rightarrow> DhtOptions" where
  "read_dht cf d =
     upd_opt (cf_uint cf ''runtime_base_dht_id'') (\<lambda>n d. d\<lparr>baseDhtId := ucast n\<rparr>)
       (upd_opt (cf_uint cf ''runtime_dht_threads'') (\<lambda>n d. d\<lparr>numOfDhtThreads := ucast n\<rparr>)
         (upd_opt (cf_int cf ''dht_key_mask_offset'') (\<lambda>n d. d\<lparr>maskOffset := ucast n\<rparr>)
           (upd_opt (cf_int cf ''dht_key_mask_length'') (\<lambda>n d. d\<lparr>maskLength := ucast n\<rparr>) d)))"

text \<open>One neighbour. A missing address or port leaves the loop.\<close>

definition read_range :: "neighbor_group \<Rightarrow> cfg_exn + string \<times> string" where
  "read_range g =
     (case ng_start g of
        Missing \<Rightarrow> Inr ([], [])
      | WrongType \<Rightarrow> Inl SettingType
      | Setting s \<Rightarrow> (case ng_end g of Missing \<Rightarrow> Inr ([], []) | WrongType \<Rightarrow> Inl SettingType | Setting e \<Rightarrow> Inr (s, e)))"

definition read_neighbor :: "neighbor_group \<Rightarrow> cfg_exn + DhtNeighbor" where
  "read_neighbor g =
     (case (ng_ip g, ng_port g) of
        (Missing, _) \<Rightarrow> Inl SettingNotFound
      | (WrongType, _) \<Rightarrow> Inl SettingType
      | (Setting ip, Missing) \<Rightarrow> Inl SettingNotFound
      | (Setting ip, WrongType) \<Rightarrow> Inl SettingType
      | (Setting ip, Setting port) \<Rightarrow>
         (case read_range g of
            Inl e \<Rightarrow> Inl e
          | Inr (s, e) \<Rightarrow>
             (let mk = (\<lambda>lcl. \<lparr>nb_ip = ip, nb_port = ucast port, nb_local = lcl, range_start = s, range_end = e\<rparr>)
              in case ng_local g of Missing \<Rightarrow> Inr (mk False) | WrongType \<Rightarrow> Inl SettingType | Setting n \<Rightarrow> Inr (mk (0 < n)))))"

fun read_neighbors :: "neighbor_group list \<Rightarrow> DhtNeighbor list \<Rightarrow> (cfg_exn + unit) \<times> DhtNeighbor list" where
  "read_neighbors [] ns = (Inr (), ns)"
| "read_neighbors (g # gs) ns =
     (case read_neighbor g of
        Inr n \<Rightarrow> read_neighbors gs (ns @ [n])
      | Inl SettingNotFound \<Rightarrow> (Inr (), ns)
      | Inl SettingType \<Rightarrow> (Inl SettingType, ns))"

text \<open>The whole file. False is returned and exceptions are thrown with the options read so far.\<close>

definition read_tail :: "config \<Rightarrow> Options \<Rightarrow> (cfg_exn + bool) \<times> Options" where
  "read_tail cf opts =
     (let d = read_dht cf (opt_dht opts)
      in case (case cf_neighbors cf of None \<Rightarrow> (Inr (), dht_neighbors d) | Some gs \<Rightarrow> read_neighbors gs (dht_neighbors d)) of
           (r, ns) \<Rightarrow> (map_sum id (\<lambda>_. True) r, opts\<lparr>opt_dht := d\<lparr>dht_neighbors := ns\<rparr>\<rparr>))"

definition readConfiguration :: "cfg_file \<Rightarrow> Options \<Rightarrow> (cfg_exn + bool) \<times> Options" where
  "readConfiguration file opts =
     (case file of
        Parsed cf \<Rightarrow>
         (let opts = opts\<lparr>opt_pmem := read_pmem cf (opt_pmem opts)\<rparr>
          in case (case cf_keys cf of None \<Rightarrow> (Inr (), opt_key opts) | Some ks \<Rightarrow> read_keys 0 ks (opt_key opts)) of
               (Inl e, d) \<Rightarrow> (Inl e, opts\<lparr>opt_key := d\<rparr>)
             | (Inr u, d) \<Rightarrow>
                (let opts = opts\<lparr>opt_key := d, opt_mode := read_mode cf,
                       opt_runtime := upd_opt (cf_uint cf ''runtime_base_core_id'') (\<lambda>n r. r\<lparr>baseCoreId := ucast n\<rparr>) (opt_runtime opts),
                       opt_offload := upd_opt (cf_int cf ''offload_unit_alloc_size'') (\<lambda>n off. off\<lparr>off_allocUnitSize := to_size n\<rparr>) (opt_offload opts)\<rparr>
                 in if opt_mode opts \<noteq> STORAGE then read_tail cf opts
                    else case read_offload cf (opt_offload opts) of
                           (Inr True, off) \<Rightarrow> read_tail cf (opts\<lparr>opt_offload := off\<rparr>)
                         | (res, off) \<Rightarrow> (res, opts\<lparr>opt_offload := off\<rparr>)))
      | _ \<Rightarrow> (Inr False, opts))"

section \<open>Complete files\<close>

text \<open>When every neighbour is complete, every one is read.\<close>

lemma read_neighbors_complete:
  "list_all2 (\<lambda>g n. read_neighbor g = Inr n) gs ms \<Longrightarrow> read_neighbors gs ns = (Inr (), ns @ ms)"
  by (induction gs ms arbitrary: ns rule: list_all2_induct) auto

lemma upt_step: "[n..<Suc (n + m)] = n # [Suc n..<Suc (n + m)]"
  by (simp add: upt_conv_Cons del: upt_Suc)

text \<open>A list of sizes for a new descriptor gives fields of these sizes, the first one primary.\<close>

lemma read_keys_fields:
  "length d = n \<Longrightarrow> read_keys n (map Setting ks) d =
    (Inr (), d @ map (\<lambda>(i, k). \<lparr>fsize = to_size k, isPrimary = (i = 0)\<rparr>) (zip [n..<n + length ks] ks))"
proof (induction ks arbitrary: n d)
  case (Cons k ks)
  have "set_field n (to_size k) (n = 0) d = d @ [\<lparr>fsize = to_size k, isPrimary = (n = 0)\<rparr>]"
    using Cons.prems by (auto simp: set_field_def nfields_def list_update_append)
  then show ?case using Cons.prems Cons.IH [of "d @ [\<lparr>fsize = to_size k, isPrimary = (n = 0)\<rparr>]" "Suc n"] by (simp add: upt_step del: upt_Suc)
qed simp

text \<open>So a file that lists field sizes with a sum of eight and no earlier fields gives a descriptor of eight bytes.\<close>

lemma read_keys_size: "key_size (snd (read_keys n (map Setting ks) d)) = key_size d + (\<Sum>k\<leftarrow>ks. to_size k)" if "length d = n"
proof -
  have "key_size (map (\<lambda>(i, k). \<lparr>fsize = to_size k, isPrimary = (i = 0)\<rparr>) (zip [n..<n + length ks] ks)) = (\<Sum>k\<leftarrow>ks. to_size k)"
  proof (induction ks arbitrary: n)
    case (Cons k ks)
    show ?case using Cons [of "Suc n"] by (simp add: upt_step del: upt_Suc)
  qed simp
  then show ?thesis using read_keys_fields [OF that] by simp
qed

end
