(* ===== verification/Kv_Thin.thy ===== *)
theory Kv_Thin
  imports Dht_Rpc Config_File
begin

text \<open>
  The store of a client node, \<^verbatim>\<open>lib/thin/KVStoreThin.cpp\<close>, which keeps nothing and sends every operation to
  the DHT client. The operations that only throw are left out.
\<close>

section \<open>State and operations\<close>

record 'n KVStoreThin =
  th_options :: Options
  th_keySize :: nat
  th_client :: "'n DhtClient"

text \<open>The constructor adds to a member that is not initialised, here \<open>junk\<close>, and replaces every size but zero.\<close>

definition new_KVStoreThin :: "nat \<Rightarrow> Options \<Rightarrow> nat" where
  "new_KVStoreThin junk opts = (let n = junk + key_size (opt_key opts) in if n \<noteq> 0 then DEFAULT_KEY_SIZE else n)"

definition thin_init :: "'n erpc \<Rightarrow> nat \<Rightarrow> bytes \<Rightarrow> u64 \<Rightarrow> Options \<Rightarrow> 'n \<Rightarrow> exn + 'n KVStoreThin" where
  "thin_init e junk buf randomSeed opts n =
     (case new_DhtCore (opt_dht opts) of
        Inl ex \<Rightarrow> Inl ex
      | Inr core \<Rightarrow>
         (case initialize e buf (opt_dht opts) randomSeed 0 core n of
            (Inl ex, c) \<Rightarrow> Inl ex
          | (Inr u, c) \<Rightarrow> Inr \<lparr>th_options = opts, th_keySize = new_KVStoreThin junk opts, th_client = c\<rparr>))"

definition on_thin :: "('n DhtClient \<Rightarrow> (exn + 'a) \<times> 'n DhtClient) \<Rightarrow> 'n KVStoreThin \<Rightarrow> (exn + 'a) \<times> 'n KVStoreThin" where
  "on_thin f th = (case f (th_client th) of (r, c) \<Rightarrow> (r, th\<lparr>th_client := c\<rparr>))"

definition thin_Get :: "'n erpc \<Rightarrow> Key \<Rightarrow> 'n KVStoreThin \<Rightarrow> (exn + Value) \<times> 'n KVStoreThin" where
  "thin_Get e k = on_thin (client_get e k)"

text \<open>Both buffers are freed on every path on which the call of the client ends.\<close>

definition thin_free_both :: "Key \<Rightarrow> Value \<Rightarrow> 'n KVStoreThin \<Rightarrow> 'n KVStoreThin" where
  "thin_free_both k v th = snd (on_thin (client_freeKey k) (snd (on_thin (client_free v) th)))"

definition thin_Put :: "'n erpc \<Rightarrow> Key \<Rightarrow> Value \<Rightarrow> 'n KVStoreThin \<Rightarrow> (exn + unit) \<times> 'n KVStoreThin" where
  "thin_Put e k v th =
     (case on_thin (client_put e k v) th of
        (Inl ex, th) \<Rightarrow> (Inl ex, if ex \<in> {NoReturn, Undefined} then th else thin_free_both k v th)
      | (Inr u, th) \<Rightarrow> (Inr (), thin_free_both k v th))"

definition thin_GetAny :: "'n erpc \<Rightarrow> 'n KVStoreThin \<Rightarrow> (exn + Key) \<times> 'n KVStoreThin" where
  "thin_GetAny e = on_thin (client_getAny e)"

definition thin_Remove :: "'n erpc \<Rightarrow> Key \<Rightarrow> 'n KVStoreThin \<Rightarrow> (exn + unit) \<times> 'n KVStoreThin" where
  "thin_Remove e k = on_thin (client_remove e k)"

definition thin_Alloc :: "Key \<Rightarrow> nat \<Rightarrow> KeyValAttribute \<Rightarrow> 'n KVStoreThin \<Rightarrow> (exn + Value) \<times> 'n KVStoreThin" where
  "thin_Alloc k n attr th =
     (if n = 0 then (Inl (OperationFailed EINVAL), th)
      else if attr = KVS_BUFFERED then on_thin (client_alloc k n) th
      else (Inr \<lparr>val_data = HeapPtr (replicate n 0), val_size = n, val_attr = NOT_BUFFERED\<rparr>, th))"

definition thin_Free :: "Value \<Rightarrow> 'n KVStoreThin \<Rightarrow> (exn + unit) \<times> 'n KVStoreThin" where
  "thin_Free v th = (if val_isKvsBuffered v then on_thin (client_free v) th else (Inr (), th))"

definition thin_AllocKey :: "KeyValAttribute \<Rightarrow> 'n KVStoreThin \<Rightarrow> (exn + Key) \<times> 'n KVStoreThin" where
  "thin_AllocKey attr th =
     (if attr = KVS_BUFFERED then on_thin (client_allocKey (th_keySize th)) th
      else (Inr \<lparr>key_data = replicate (th_keySize th) 0, key_attr = NOT_BUFFERED\<rparr>, th))"

definition thin_FreeKey :: "Key \<Rightarrow> 'n KVStoreThin \<Rightarrow> (exn + unit) \<times> 'n KVStoreThin" where
  "thin_FreeKey k th = (if key_isKvsBuffered k then on_thin (client_freeKey k) th else (Inr (), th))"

section \<open>The buffers of a client\<close>

text \<open>No request changes the size of the buffer or who uses it.\<close>

lemma send_request_buffer:
  assumes "send_request e n (Some k) (Some v) ty host c = (r, c')" "length (key_data k) + val_size v \<le> length (msg_msg (cl_req c))"
  shows "length (msg_msg (cl_req c')) = length (msg_msg (cl_req c)) \<and> reqMsgBufInUse c' = reqMsgBufInUse c \<and> reqMsgBufValInUse c' = reqMsgBufValInUse c"
proof -
  have len: "length (msg_msg (fill_key k (cl_req c))) = length (msg_msg (cl_req c))" using assms(2) by (simp add: fill_key_def)
  show ?thesis using assms len
    by (cases "val_bytes v") (auto simp: send_request_def resizeMsgBuffers_def fillReqMsg_def enqueueAndWait_def Let_def dest: val_bytes_length
        split: if_splits sum.splits prod.splits option.splits)
qed

section \<open>Properties\<close>

text \<open>C38. A client node can store one value after the other through its message buffer: whatever the outcome of a
  \<open>Put\<close> that ends, both parts of the buffer are free afterwards, so the next \<open>AllocKey\<close> and the \<open>Alloc\<close> for
  that key succeed for every size that fits the buffer.\<close>

theorem thin_put_frees_buffers:
  assumes "thin_Put e k v th = (r, th')" "r \<noteq> Inl NoReturn" "r \<noteq> Inl Undefined"
    and "length (key_data k) + val_size v \<le> length (msg_msg (cl_req (th_client th)))"
    and "th_keySize th + n \<le> length (msg_msg (cl_req (th_client th)))" "0 < n"
  shows "\<exists>k' th1 v' th2. thin_AllocKey KVS_BUFFERED th' = (Inr k', th1) \<and> length (key_data k') = th_keySize th \<and>
    thin_Alloc k' n KVS_BUFFERED th1 = (Inr v', th2) \<and> val_size v' = n"
proof -
  obtain p c where c: "client_put e k v (th_client th) = (p, c)" by fastforce
  then obtain q where q: "send_request e (SIZEOF_DaqdbDhtMsg + length (key_data k) + val_size v) (Some k) (Some v) ERP_REQUEST_PUT
      (getHostForKey (cl_core (th_client th)) (key_data k)) (th_client th) = (q, c)"
    by (auto simp: client_put_def split: prod.splits)
  have th': "th' = thin_free_both k v (th\<lparr>th_client := c\<rparr>)"
    using assms(1-3) c by (auto simp: thin_Put_def on_thin_def split: sum.splits if_splits)
  show ?thesis using send_request_buffer [OF q assms(4)] assms(5,6)
    by (simp add: th' thin_free_both_def on_thin_def client_free_def client_freeKey_def thin_AllocKey_def client_allocKey_def thin_Alloc_def client_alloc_def)
qed

definition ex_thin :: "(int \<Rightarrow> (rqst list, task list, bytes list, pm_rqst list, unit) KVStore) KVStoreThin" where
  "ex_thin = \<lparr>th_options = ex_options, th_keySize = 16, th_client = ex_client\<lparr>cl_core := ex_core\<lparr>rangeToHost := []\<rparr>\<rparr>\<rparr>"

lemma ex_thin_put: "\<exists>th'. thin_Put (direct ex_kvo) ex_key ex_val ex_thin = (Inl (OperationFailed KEY_NOT_FOUND), th')"
  by (simp add: thin_Put_def on_thin_def ex_thin_def client_put_def send_request_def resizeMsgBuffers_def fillReqMsg_def ex_client_def ex_core_def
      ex_key_def key1_def ex_val_def val_bytes_def Let_def getHostForKey_def genHash_def shifted_byte_def SIZEOF_DaqdbDhtMsg_def ERPC_MAX_REQUEST_SIZE_def)

theorem thin_put_frees_buffers_witness:
  "\<exists>th' k' th1 v' th2. thin_Put (direct ex_kvo) ex_key ex_val ex_thin = (Inl (OperationFailed KEY_NOT_FOUND), th') \<and>
    thin_AllocKey KVS_BUFFERED th' = (Inr k', th1) \<and> thin_Alloc k' 5000 KVS_BUFFERED th1 = (Inr v', th2) \<and> val_size v' = 5000"
proof -
  obtain th' where p: "thin_Put (direct ex_kvo) ex_key ex_val ex_thin = (Inl (OperationFailed KEY_NOT_FOUND), th')" using ex_thin_put by blast
  from thin_put_frees_buffers [OF p, of 5000] show ?thesis using p
    by (auto simp: ex_thin_def ex_client_def ex_key_def key1_def ex_val_def SIZEOF_DaqdbDhtMsg_def ERPC_MAX_REQUEST_SIZE_def)
qed

end
