(* ===== verification/Minidaq_Stats.thy ===== *)
theory Minidaq_Stats
  imports Daqdb_Types "HOL-Library.Multiset"
begin

text \<open>
  The statistics of the benchmark, \<^verbatim>\<open>apps/minidaq/MinidaqStats.cpp\<close>: samples of what a worker thread did in
  an interval, four histograms of rates, and how the statistics of the threads are put together. The
  histograms are those of HdrHistogram, a parameter; of it the theorems assume that a value that fits is
  counted, that the answer whether it fits depends on the value, and that histograms of the same range add up.
\<close>

section \<open>Samples\<close>

record MinidaqSample =
  nRequests :: u64
  nCompletions :: u64
  nErrRequests :: u64
  nErrCompletions :: u64
  interval_ns :: u64

definition sample_Reset :: MinidaqSample where
  "sample_Reset = \<lparr>nRequests = 0, nCompletions = 0, nErrRequests = 0, nErrCompletions = 0, interval_ns = 0\<rparr>"

datatype MinidaqMetricType = METRIC_RPS | METRIC_RPS_ERR | METRIC_CPS | METRIC_CPS_ERR

section \<open>Histograms and statistics\<close>

text \<open>What is used of HdrHistogram. \<open>hdr_init\<close> gives an error number or a histogram, \<open>hdr_add h g\<close> adds \<open>g\<close> to
  \<open>h\<close> and says how many values it dropped. The four numbers of a report, in millions, are one text.\<close>

record 'h hdr =
  hdr_init :: "nat \<Rightarrow> nat \<Rightarrow> nat \<Rightarrow> int + 'h"
  hdr_record_value :: "'h \<Rightarrow> int \<Rightarrow> bool \<times> 'h"
  hdr_add :: "'h \<Rightarrow> 'h \<Rightarrow> u64 \<times> 'h"
  hdr_total_count :: "'h \<Rightarrow> int"
  hdr_row :: "'h \<Rightarrow> string"
  hdr_percentiles :: "'h \<Rightarrow> string list"

record 'h MinidaqStats =
  histogramRps :: 'h
  histogramCps :: 'h
  histogramRpsErr :: 'h
  histogramCpsErr :: 'h
  nIterations :: u64
  totalTime_ns :: u64
  nOverflows :: u64

definition NSECS_IN_SEC :: u64 where
  "NSECS_IN_SEC = 1000000000"

definition OPS_MIN :: nat where
  "OPS_MIN = 1"

definition OPS_MAX :: nat where
  "OPS_MAX = 100000000"

definition new_histogram :: "'h hdr \<Rightarrow> int + 'h" where
  "new_histogram lib = hdr_init lib OPS_MIN OPS_MAX 5"

text \<open>The constructor throws \<open>std::system_error\<close> with the number of the first call that fails.\<close>

definition new_MinidaqStats :: "'h hdr \<Rightarrow> int + 'h MinidaqStats" where
  "new_MinidaqStats lib =
     (case new_histogram lib of Inl e \<Rightarrow> Inl e
      | Inr h1 \<Rightarrow> (case new_histogram lib of Inl e \<Rightarrow> Inl e
      | Inr h2 \<Rightarrow> (case new_histogram lib of Inl e \<Rightarrow> Inl e
      | Inr h3 \<Rightarrow> (case new_histogram lib of Inl e \<Rightarrow> Inl e
      | Inr h4 \<Rightarrow> Inr \<lparr>histogramRps = h1, histogramCps = h2, histogramRpsErr = h3, histogramCpsErr = h4,
                       nIterations = 0, totalTime_ns = 0, nOverflows = 0\<rparr>))))"

text \<open>The copy constructor. It has no overflows, whatever the other has.\<close>

definition copy_MinidaqStats :: "'h hdr \<Rightarrow> 'h MinidaqStats \<Rightarrow> int + 'h MinidaqStats" where
  "copy_MinidaqStats lib other = map_sum id
     (\<lambda>st. st\<lparr>histogramRps := snd (hdr_add lib (histogramRps st) (histogramRps other)),
              histogramCps := snd (hdr_add lib (histogramCps st) (histogramCps other)),
              histogramRpsErr := snd (hdr_add lib (histogramRpsErr st) (histogramRpsErr other)),
              histogramCpsErr := snd (hdr_add lib (histogramCpsErr st) (histogramCpsErr other)),
              nIterations := nIterations other, totalTime_ns := totalTime_ns other\<rparr>)
     (new_MinidaqStats lib)"

text \<open>The move assignment; the other loses its histograms, and the old ones are not freed.\<close>

definition move_MinidaqStats :: "'h MinidaqStats \<Rightarrow> 'h MinidaqStats \<Rightarrow> 'h MinidaqStats" where
  "move_MinidaqStats other st = other\<lparr>nOverflows := nOverflows st\<rparr>"

definition Combine :: "'h hdr \<Rightarrow> 'h MinidaqStats \<Rightarrow> 'h MinidaqStats \<Rightarrow> 'h MinidaqStats" where
  "Combine lib stats st =
     (if nIterations stats = 0 then st
      else case (hdr_add lib (histogramRps st) (histogramRps stats), hdr_add lib (histogramCps st) (histogramCps stats),
                 hdr_add lib (histogramRpsErr st) (histogramRpsErr stats), hdr_add lib (histogramCpsErr st) (histogramCpsErr stats)) of
             ((d1, h1), (d2, h2), (d3, h3), (d4, h4)) \<Rightarrow>
               \<lparr>histogramRps = h1, histogramCps = h2, histogramRpsErr = h3, histogramCpsErr = h4,
                nIterations = nIterations st + nIterations stats, totalTime_ns = totalTime_ns st + totalTime_ns stats,
                nOverflows = nOverflows st + d1 + d2 + d3 + d4 + nOverflows stats\<rparr>)"

definition combined_MinidaqStats :: "'h hdr \<Rightarrow> 'h MinidaqStats list \<Rightarrow> int + 'h MinidaqStats" where
  "combined_MinidaqStats lib rVector = map_sum id (fold (Combine lib) rVector) (new_MinidaqStats lib)"

text \<open>The results of the threads, taken from their futures: the statistics have no move constructor, so each of them is
  copied out; one copy is kept, one is combined.\<close>

fun collect :: "'h hdr \<Rightarrow> 'h MinidaqStats list \<Rightarrow> 'h MinidaqStats list \<Rightarrow> 'h MinidaqStats \<Rightarrow> int + 'h MinidaqStats list \<times> 'h MinidaqStats" where
  "collect lib [] statsVec statsAll = Inr (statsVec, statsAll)"
| "collect lib (f # fs) statsVec statsAll =
     (case copy_MinidaqStats lib f of Inl e \<Rightarrow> Inl e
      | Inr s \<Rightarrow> (case copy_MinidaqStats lib s of Inl e \<Rightarrow> Inl e
      | Inr s' \<Rightarrow> collect lib fs (statsVec @ [s']) (Combine lib s statsAll)))"

text \<open>A rate is computed in 64 bits and passed on as a signed number.\<close>

definition rate :: "u64 \<Rightarrow> MinidaqSample \<Rightarrow> int" where
  "rate n s = sint ((n * NSECS_IN_SEC) div interval_ns s)"

definition overflow :: "bool \<Rightarrow> u64" where
  "overflow ok = (if ok then 0 else 1)"

definition RecordSample :: "'h hdr \<Rightarrow> MinidaqSample \<Rightarrow> 'h MinidaqStats \<Rightarrow> 'h MinidaqStats" where
  "RecordSample lib s st =
     (if interval_ns s = 0 then st
      else case (hdr_record_value lib (histogramRps st) (rate (nRequests s) s), hdr_record_value lib (histogramCps st) (rate (nCompletions s) s),
                 hdr_record_value lib (histogramRpsErr st) (rate (nErrRequests s) s), hdr_record_value lib (histogramCpsErr st) (rate (nErrCompletions s) s)) of
             ((ok1, h1), (ok2, h2), (ok3, h3), (ok4, h4)) \<Rightarrow>
               \<lparr>histogramRps = h1, histogramCps = h2, histogramRpsErr = h3, histogramCpsErr = h4,
                nIterations = nIterations st + 1, totalTime_ns = totalTime_ns st + interval_ns s,
                nOverflows = nOverflows st + overflow ok1 + overflow ok2 + overflow ok3 + overflow ok4\<rparr>)"

section \<open>Reports\<close>

definition csv_name :: "MinidaqMetricType \<Rightarrow> string" where
  "csv_name m = (case m of METRIC_RPS \<Rightarrow> ''histo-mrps'' | METRIC_RPS_ERR \<Rightarrow> ''histo-mrps-err'' | METRIC_CPS \<Rightarrow> ''histo-mcps''
     | METRIC_CPS_ERR \<Rightarrow> ''histo-mcps-err'')"

text \<open>The histogram a file shows, the same in both functions that write files, and the one the screen shows.\<close>

definition csv_histogram :: "MinidaqMetricType \<Rightarrow> 'h MinidaqStats \<Rightarrow> 'h" where
  "csv_histogram m st = (case m of METRIC_RPS \<Rightarrow> histogramRps st | METRIC_RPS_ERR \<Rightarrow> histogramRpsErr st | METRIC_CPS \<Rightarrow> histogramRps st
     | METRIC_CPS_ERR \<Rightarrow> histogramCpsErr st)"

definition screen_histogram :: "MinidaqMetricType \<Rightarrow> 'h MinidaqStats \<Rightarrow> 'h" where
  "screen_histogram m st = (case m of METRIC_RPS \<Rightarrow> histogramRps st | METRIC_RPS_ERR \<Rightarrow> histogramRpsErr st | METRIC_CPS \<Rightarrow> histogramCps st
     | METRIC_CPS_ERR \<Rightarrow> histogramCpsErr st)"

text \<open>Files as lines of text; a file that cannot be opened is reported, and then the null pointer is used.\<close>

type_synonym file_system = "string \<Rightarrow> string list option"

definition DumpCsv :: "'h hdr \<Rightarrow> (string \<Rightarrow> bool) \<Rightarrow> string \<Rightarrow> MinidaqMetricType \<Rightarrow> 'h MinidaqStats \<Rightarrow> file_system \<Rightarrow> exn + file_system" where
  "DumpCsv lib can_open fp m st fs =
     (let fn = fp @ ''-'' @ csv_name m @ ''.csv''
      in if can_open fn then Inr (fs(fn \<mapsto> hdr_percentiles lib (csv_histogram m st))) else Inl Undefined)"

fun dump_metrics :: "'h hdr \<Rightarrow> (string \<Rightarrow> bool) \<Rightarrow> string \<Rightarrow> MinidaqMetricType list \<Rightarrow> 'h MinidaqStats \<Rightarrow> file_system \<Rightarrow> exn + file_system" where
  "dump_metrics lib can_open fp [] st fs = Inr fs"
| "dump_metrics lib can_open fp (m # ms) st fs =
     (case DumpCsv lib can_open fp m st fs of Inl e \<Rightarrow> Inl e | Inr fs \<Rightarrow> dump_metrics lib can_open fp ms st fs)"

definition stats_Dump :: "'h hdr \<Rightarrow> (string \<Rightarrow> bool) \<Rightarrow> string \<Rightarrow> 'h MinidaqStats \<Rightarrow> file_system \<Rightarrow> exn + file_system" where
  "stats_Dump lib can_open fp st fs = dump_metrics lib can_open fp [METRIC_RPS, METRIC_RPS_ERR, METRIC_CPS, METRIC_CPS_ERR] st fs"

definition summary_cell :: "'h hdr \<Rightarrow> 'h \<Rightarrow> string" where
  "summary_cell lib h = (if hdr_total_count lib h \<noteq> 0 then hdr_row lib h else ''0,0,0,0'')"

definition DumpSummaryCsv :: "'h hdr \<Rightarrow> MinidaqMetricType \<Rightarrow> 'h MinidaqStats \<Rightarrow> string" where
  "DumpSummaryCsv lib m st = summary_cell lib (csv_histogram m st)"

definition summary_header :: string where
  "summary_header = ''TestName,'' @ ''mrps-Mean,mrps-StdDev,mrps-Min,mrps-Max,'' @ ''mcps-Mean,mcps-StdDev,mcps-Min,mcps-Max,'' @
     ''mrps-e-Mean,mrps-e-StdDev,mrps-e-Min,mrps-e-Max,'' @ ''mcps-e-Mean,mcps-e-StdDev,mcps-e-Min,mcps-e-Max''"

definition summary_line :: "'h hdr \<Rightarrow> string \<Rightarrow> 'h MinidaqStats \<Rightarrow> string" where
  "summary_line lib name st = name @ '','' @ DumpSummaryCsv lib METRIC_RPS st @ '','' @ DumpSummaryCsv lib METRIC_CPS st @ '','' @
     DumpSummaryCsv lib METRIC_RPS_ERR st @ '','' @ DumpSummaryCsv lib METRIC_CPS_ERR st"

text \<open>A line of the summary file: appended, or written after a new header. A file that cannot be opened takes nothing.\<close>

definition DumpSummary :: "'h hdr \<Rightarrow> (string \<Rightarrow> bool) \<Rightarrow> string \<Rightarrow> string \<Rightarrow> 'h MinidaqStats \<Rightarrow> file_system \<Rightarrow> file_system" where
  "DumpSummary lib can_open file name st fs =
     (case (if can_open file then fs file else None) of
        Some ls \<Rightarrow> fs(file \<mapsto> ls @ [summary_line lib name st])
      | None \<Rightarrow> if can_open file then fs(file \<mapsto> [summary_header, summary_line lib name st]) else fs)"

text \<open>The rows of the summary on the screen: the name of a metric and its numbers.\<close>

definition screen_summary :: "'h hdr \<Rightarrow> 'h MinidaqStats \<Rightarrow> (string \<times> string) list" where
  "screen_summary lib st =
     [(''mrps'', summary_cell lib (screen_histogram METRIC_RPS st)), (''mcps'', summary_cell lib (screen_histogram METRIC_CPS st)),
      (''mrps-err'', summary_cell lib (screen_histogram METRIC_RPS_ERR st)), (''mcps-err'', summary_cell lib (screen_histogram METRIC_CPS_ERR st))]"

section \<open>What a histogram holds\<close>

text \<open>A description of HdrHistogram: the histograms of the range in use, the values that fit, the bucket a value
  falls into, and the buckets counted so far.\<close>

record 'h hdr_view =
  hv_made :: "'h \<Rightarrow> bool"
  hv_fits :: "int \<Rightarrow> bool"
  hv_bucket :: "int \<Rightarrow> int"
  hv_counts :: "'h \<Rightarrow> int multiset"

definition hdr_ok :: "'h hdr \<Rightarrow> 'h hdr_view \<Rightarrow> bool" where
  "hdr_ok lib v \<longleftrightarrow>
     (\<forall>h. new_histogram lib = Inr h \<longrightarrow> hv_made v h \<and> hv_counts v h = {#}) \<and>
     (\<forall>h x. hv_made v h \<longrightarrow> fst (hdr_record_value lib h x) = hv_fits v x \<and> hv_made v (snd (hdr_record_value lib h x)) \<and>
        hv_counts v (snd (hdr_record_value lib h x)) = hv_counts v h + (if hv_fits v x then {#hv_bucket v x#} else {#})) \<and>
     (\<forall>h g. hv_made v h \<longrightarrow> hv_made v g \<longrightarrow> fst (hdr_add lib h g) = 0 \<and> hv_made v (snd (hdr_add lib h g)) \<and>
        hv_counts v (snd (hdr_add lib h g)) = hv_counts v h + hv_counts v g)"

definition stats_made :: "'h hdr_view \<Rightarrow> 'h MinidaqStats \<Rightarrow> bool" where
  "stats_made v st \<longleftrightarrow> hv_made v (histogramRps st) \<and> hv_made v (histogramCps st) \<and> hv_made v (histogramRpsErr st) \<and> hv_made v (histogramCpsErr st)"

text \<open>The statistics with the contents of the histograms for the histograms.\<close>

type_synonym stats_content = "int multiset MinidaqStats"

definition stats_view :: "'h hdr_view \<Rightarrow> 'h MinidaqStats \<Rightarrow> stats_content" where
  "stats_view v st =
     \<lparr>histogramRps = hv_counts v (histogramRps st), histogramCps = hv_counts v (histogramCps st), histogramRpsErr = hv_counts v (histogramRpsErr st),
      histogramCpsErr = hv_counts v (histogramCpsErr st), nIterations = nIterations st, totalTime_ns = totalTime_ns st, nOverflows = nOverflows st\<rparr>"

definition vzero :: stats_content where
  "vzero = \<lparr>histogramRps = {#}, histogramCps = {#}, histogramRpsErr = {#}, histogramCpsErr = {#}, nIterations = 0, totalTime_ns = 0, nOverflows = 0\<rparr>"

definition vplus :: "stats_content \<Rightarrow> stats_content \<Rightarrow> stats_content" where
  "vplus a b = \<lparr>histogramRps = histogramRps a + histogramRps b, histogramCps = histogramCps a + histogramCps b,
     histogramRpsErr = histogramRpsErr a + histogramRpsErr b, histogramCpsErr = histogramCpsErr a + histogramCpsErr b,
     nIterations = nIterations a + nIterations b, totalTime_ns = totalTime_ns a + totalTime_ns b, nOverflows = nOverflows a + nOverflows b\<rparr>"

interpretation content: comm_monoid_mset vplus vzero
  by unfold_locales (simp_all add: vplus_def vzero_def ac_simps)

text \<open>What one sample adds.\<close>

definition slot :: "'h hdr_view \<Rightarrow> int \<Rightarrow> int multiset" where
  "slot v x = (if hv_fits v x then {#hv_bucket v x#} else {#})"

definition sample_content :: "'h hdr_view \<Rightarrow> MinidaqSample \<Rightarrow> stats_content" where
  "sample_content v s =
     (if interval_ns s = 0 then vzero
      else \<lparr>histogramRps = slot v (rate (nRequests s) s), histogramCps = slot v (rate (nCompletions s) s),
            histogramRpsErr = slot v (rate (nErrRequests s) s), histogramCpsErr = slot v (rate (nErrCompletions s) s),
            nIterations = 1, totalTime_ns = interval_ns s,
            nOverflows = overflow (hv_fits v (rate (nRequests s) s)) + overflow (hv_fits v (rate (nCompletions s) s)) +
              overflow (hv_fits v (rate (nErrRequests s) s)) + overflow (hv_fits v (rate (nErrCompletions s) s))\<rparr>)"

abbreviation samples_content :: "'h hdr_view \<Rightarrow> MinidaqSample multiset \<Rightarrow> stats_content" where
  "samples_content v M \<equiv> content.F (image_mset (sample_content v) M)"

lemma new_MinidaqStats_ok:
  assumes "hdr_ok lib v" "new_MinidaqStats lib = Inr st"
  shows "stats_made v st" "stats_view v st = vzero"
proof -
  obtain h where h: "new_histogram lib = Inr h" "st = \<lparr>histogramRps = h, histogramCps = h, histogramRpsErr = h, histogramCpsErr = h,
      nIterations = 0, totalTime_ns = 0, nOverflows = 0\<rparr>"
    using assms(2) by (auto simp: new_MinidaqStats_def split: sum.splits)
  then show "stats_made v st" "stats_view v st = vzero"
    using assms(1) by (auto simp: hdr_ok_def stats_made_def stats_view_def vzero_def)
qed

lemma record_content:
  assumes "hdr_ok lib v" "stats_made v st"
  shows "stats_made v (RecordSample lib s st) \<and> stats_view v (RecordSample lib s st) = vplus (stats_view v st) (sample_content v s)"
proof (cases "interval_ns s = 0")
  case True
  then show ?thesis using assms(2) by (simp add: RecordSample_def sample_content_def)
next
  case False
  have r: "fst (hdr_record_value lib h x) = hv_fits v x" "hv_made v (snd (hdr_record_value lib h x))"
     "hv_counts v (snd (hdr_record_value lib h x)) = hv_counts v h + slot v x" if "hv_made v h" for h x
    using assms(1) that by (auto simp: hdr_ok_def slot_def)
  show ?thesis using False assms(2)
    by (auto simp: RecordSample_def sample_content_def stats_made_def stats_view_def vplus_def case_prod_unfold r ac_simps)
qed

lemma records_content:
  assumes "hdr_ok lib v" "stats_made v st"
  shows "stats_made v (fold (RecordSample lib) ss st) \<and> stats_view v (fold (RecordSample lib) ss st) = vplus (stats_view v st) (samples_content v (mset ss))"
  using assms(2)
proof (induction ss arbitrary: st)
  case (Cons s ss)
  then show ?case using record_content [OF assms(1) Cons.prems, of s] by (simp add: content.assoc)
qed simp

lemma combine_content:
  assumes "hdr_ok lib v" "stats_made v st" "stats_made v a" "nIterations a = 0 \<Longrightarrow> stats_view v a = vzero"
  shows "stats_made v (Combine lib a st) \<and> stats_view v (Combine lib a st) = vplus (stats_view v st) (stats_view v a)"
proof (cases "nIterations a = 0")
  case True
  then show ?thesis using assms(2,4) by (simp add: Combine_def)
next
  case False
  have r: "fst (hdr_add lib h g) = 0" "hv_made v (snd (hdr_add lib h g))" "hv_counts v (snd (hdr_add lib h g)) = hv_counts v h + hv_counts v g"
    if "hv_made v h" "hv_made v g" for h g
    using assms(1) that by (auto simp: hdr_ok_def)
  show ?thesis using False assms(2,3) by (simp add: Combine_def stats_made_def stats_view_def vplus_def case_prod_unfold r)
qed

lemma copy_content:
  assumes "hdr_ok lib v" "stats_made v a" "new_MinidaqStats lib = Inr st0"
  obtains c where "copy_MinidaqStats lib a = Inr c" "stats_made v c" "stats_view v c = (stats_view v a)\<lparr>nOverflows := 0\<rparr>"
proof -
  have r: "hv_made v (snd (hdr_add lib h g))" "hv_counts v (snd (hdr_add lib h g)) = hv_counts v h + hv_counts v g"
    if "hv_made v h" "hv_made v g" for h g
    using assms(1) that by (auto simp: hdr_ok_def)
  let ?c = "projr (copy_MinidaqStats lib a)"
  have "copy_MinidaqStats lib a = Inr ?c" by (simp add: copy_MinidaqStats_def assms(3))
  moreover have "stats_made v ?c" "stats_view v ?c = (stats_view v a)\<lparr>nOverflows := 0\<rparr>"
    using new_MinidaqStats_ok [OF assms(1,3)] assms(2)
    by (simp_all add: copy_MinidaqStats_def assms(3) stats_made_def stats_view_def vzero_def r)
  ultimately show ?thesis by (rule that)
qed

text \<open>The number of iterations of the samples of a thread; fewer than the counter can hold.\<close>

lemma nIterations_content [simp]:
  "nIterations vzero = 0" "nIterations (vplus a b) = nIterations a + nIterations b"
  "nIterations (sample_content v s) = (if interval_ns s = 0 then 0 else 1)"
  by (simp_all add: vzero_def vplus_def sample_content_def)

lemma samples_iterations: "nIterations (samples_content v (mset ss)) = of_nat (length (filter (\<lambda>s. interval_ns s \<noteq> 0) ss))"
  by (induction ss) simp_all

lemma samples_none: "filter (\<lambda>s. interval_ns s \<noteq> 0) ss = [] \<Longrightarrow> samples_content v (mset ss) = vzero"
  by (induction ss) (auto simp: sample_content_def split: if_splits)

lemma samples_zero:
  assumes "nIterations (samples_content v (mset ss)) = 0" "length ss < 2 ^ 64"
  shows "samples_content v (mset ss) = vzero"
proof -
  let ?n = "length (filter (\<lambda>s. interval_ns s \<noteq> 0) ss)"
  have "(of_nat ?n :: u64) = 0" using assms(1) by (simp only: samples_iterations)
  moreover have "?n < 2 ^ 64" using assms(2) length_filter_le [of "\<lambda>s. interval_ns s \<noteq> 0" ss] by linarith
  ultimately have "?n = 0" by (auto simp: word_of_nat_eq_0_iff dest: nat_dvd_not_less)
  then show ?thesis by (intro samples_none) simp
qed

section \<open>The statistics of all threads\<close>

lemma content_no_overflows: "(vplus a b)\<lparr>nOverflows := 0\<rparr> = vplus (a\<lparr>nOverflows := 0\<rparr>) (b\<lparr>nOverflows := 0\<rparr>)" "vzero\<lparr>nOverflows := 0\<rparr> = vzero"
  by (simp_all add: vplus_def vzero_def)

lemma collect_content:
  assumes ok: "hdr_ok lib v" and new: "new_MinidaqStats lib = Inr st0" and len: "\<forall>ss \<in> set sss. length ss < 2 ^ 64"
    and "stats_made v st"
  shows "\<exists>cs all. collect lib (map (\<lambda>ss. fold (RecordSample lib) ss st0) sss) vec st = Inr (vec @ cs, all) \<and>
     map (stats_view v) cs = map (\<lambda>ss. (samples_content v (mset ss))\<lparr>nOverflows := 0\<rparr>) sss \<and>
     stats_view v all = vplus (stats_view v st) ((samples_content v (mset (concat sss)))\<lparr>nOverflows := 0\<rparr>)"
  using len assms(4)
proof (induction sss arbitrary: vec st)
  case (Cons ss sss)
  let ?a = "fold (RecordSample lib) ss st0"
  have a: "stats_made v ?a" "stats_view v ?a = samples_content v (mset ss)"
    using records_content [OF ok new_MinidaqStats_ok(1) [OF ok new], of ss] new_MinidaqStats_ok(2) [OF ok new] by simp_all
  obtain c where c: "copy_MinidaqStats lib ?a = Inr c" "stats_made v c" "stats_view v c = (samples_content v (mset ss))\<lparr>nOverflows := 0\<rparr>"
    using copy_content [OF ok a(1) new] a(2) by metis
  have i: "(stats_view v c)\<lparr>nOverflows := 0\<rparr> = stats_view v c" using c(3) by simp
  obtain c' where c': "copy_MinidaqStats lib c = Inr c'" "stats_made v c'" "stats_view v c' = stats_view v c"
    using copy_content [OF ok c(2) new] i by metis
  have lss: "length ss < 2 ^ 64" using Cons.prems(1) by simp
  have z: "stats_view v c = vzero" if "nIterations c = 0"
  proof -
    have "nIterations (stats_view v c) = 0" using that by (simp add: stats_view_def)
    then have "samples_content v (mset ss) = vzero" using c(3) lss by (intro samples_zero) simp_all
    then show ?thesis using c(3) by (simp add: content_no_overflows)
  qed
  have len: "\<forall>ss \<in> set sss. length ss < 2 ^ 64" using Cons.prems(1) by simp
  have m: "stats_made v (Combine lib c st)" "stats_view v (Combine lib c st) = vplus (stats_view v st) (stats_view v c)"
    using combine_content [OF ok Cons.prems(2) c(2) z] by simp_all
  obtain cs all where "collect lib (map (\<lambda>ss. fold (RecordSample lib) ss st0) sss) (vec @ [c']) (Combine lib c st) = Inr ((vec @ [c']) @ cs, all)"
     "map (stats_view v) cs = map (\<lambda>ss. (samples_content v (mset ss))\<lparr>nOverflows := 0\<rparr>) sss"
     "stats_view v all = vplus (stats_view v (Combine lib c st)) ((samples_content v (mset (concat sss)))\<lparr>nOverflows := 0\<rparr>)"
    using Cons.IH [OF len m(1), of "vec @ [c']"] by blast
  then show ?case using c(1,3) c'(1,3) m(2)
    by (intro exI [of _ "c' # cs"] exI [of _ all]) (simp add: content_no_overflows content.assoc)
qed (simp add: content_no_overflows)

text \<open>C26. Putting the statistics of the threads together is the same as recording all their samples in one place, in any order:
  the combined histograms hold the same values, and iterations and time are the same. The one
  thing that is lost is the number of values that did not fit: the copies the results pass through drop it.\<close>

theorem combined_threads_eq_all_samples:
  assumes "hdr_ok lib v" "new_MinidaqStats lib = Inr st0" "\<forall>ss \<in> set sss. length ss < 2 ^ 64" "mset all_ss = mset (concat sss)"
  shows "\<exists>vec all. collect lib (map (\<lambda>ss. fold (RecordSample lib) ss st0) sss) [] st0 = Inr (vec, all) \<and> length vec = length sss \<and>
     stats_view v all = (stats_view v (fold (RecordSample lib) all_ss st0))\<lparr>nOverflows := 0\<rparr>"
proof -
  have st0: "stats_made v st0" "stats_view v st0 = vzero" using new_MinidaqStats_ok [OF assms(1,2)] by simp_all
  obtain cs all where c: "collect lib (map (\<lambda>ss. fold (RecordSample lib) ss st0) sss) [] st0 = Inr ([] @ cs, all)"
      "map (stats_view v) cs = map (\<lambda>ss. (samples_content v (mset ss))\<lparr>nOverflows := 0\<rparr>) sss"
      "stats_view v all = (samples_content v (mset (concat sss)))\<lparr>nOverflows := 0\<rparr>"
    using collect_content [OF assms(1-3) st0(1), of "[]"] st0(2) by auto
  have "length cs = length sss" using arg_cong [OF c(2), of length] by simp
  moreover have "stats_view v (fold (RecordSample lib) all_ss st0) = samples_content v (mset (concat sss))"
    using records_content [OF assms(1) st0(1), of all_ss] st0(2) assms(4) by simp
  ultimately show ?thesis using c(1,3) by auto
qed

text \<open>Histograms that keep every value up to the maximum.\<close>

definition list_hdr :: "int list hdr" where
  "list_hdr = \<lparr>hdr_init = (\<lambda>a b c. Inr []), hdr_record_value = (\<lambda>h x. if 0 \<le> x \<and> x \<le> int OPS_MAX then (True, x # h) else (False, h)),
     hdr_add = (\<lambda>h g. (0, g @ h)), hdr_total_count = (\<lambda>h. int (length h)), hdr_row = (\<lambda>h. []), hdr_percentiles = (\<lambda>h. [])\<rparr>"

definition list_hdr_view :: "int list hdr_view" where
  "list_hdr_view = \<lparr>hv_made = (\<lambda>h. True), hv_fits = (\<lambda>x. 0 \<le> x \<and> x \<le> int OPS_MAX), hv_bucket = (\<lambda>x. x), hv_counts = mset\<rparr>"

lemma list_hdr_ok: "hdr_ok list_hdr list_hdr_view"
  by (simp add: hdr_ok_def list_hdr_def list_hdr_view_def new_histogram_def)

definition list_stats0 :: "int list MinidaqStats" where
  "list_stats0 = \<lparr>histogramRps = [], histogramCps = [], histogramRpsErr = [], histogramCpsErr = [], nIterations = 0, totalTime_ns = 0, nOverflows = 0\<rparr>"

lemma list_stats0: "new_MinidaqStats list_hdr = Inr list_stats0"
  by (simp add: new_MinidaqStats_def new_histogram_def list_hdr_def list_stats0_def)

definition ex_sample :: "u64 \<Rightarrow> MinidaqSample" where
  "ex_sample n = \<lparr>nRequests = n, nCompletions = n, nErrRequests = 0, nErrCompletions = 0, interval_ns = 1000000\<rparr>"

text \<open>Two threads; the second sample of the first is too fast for the histogram.\<close>

theorem combined_threads_eq_all_samples_witness:
  "\<exists>vec all. collect list_hdr (map (\<lambda>ss. fold (RecordSample list_hdr) ss list_stats0) [[ex_sample 3, ex_sample 900000], [ex_sample 5]]) [] list_stats0 = Inr (vec, all) \<and>
     mset (histogramRps all) = {#3000, 5000#} \<and> nIterations all = 3 \<and> totalTime_ns all = 3000000 \<and> nOverflows all = 0 \<and>
     nOverflows (fold (RecordSample list_hdr) [ex_sample 5, ex_sample 900000, ex_sample 3] list_stats0) = 2"
proof -
  let ?all = "fold (RecordSample list_hdr) [ex_sample 5, ex_sample 900000, ex_sample 3] list_stats0"
  have "?all = \<lparr>histogramRps = [3000, 5000], histogramCps = [3000, 5000], histogramRpsErr = [0, 0, 0], histogramCpsErr = [0, 0, 0],
      nIterations = 3, totalTime_ns = 3000000, nOverflows = 2\<rparr>"
    by (simp add: RecordSample_def rate_def overflow_def NSECS_IN_SEC_def list_hdr_def OPS_MAX_def ex_sample_def list_stats0_def)
  then show ?thesis
    using combined_threads_eq_all_samples [OF list_hdr_ok list_stats0, of "[[ex_sample 3, ex_sample 900000], [ex_sample 5]]" "[ex_sample 5, ex_sample 900000, ex_sample 3]"]
    by (auto simp: stats_view_def list_hdr_view_def)
qed

end
