(* ===== verification/Minidaq_Node.thy ===== *)
theory Minidaq_Node
  imports Complex_Main Dht_Rpc Minidaq_Stats
begin

text \<open>
  The worker nodes of the benchmark, \<^verbatim>\<open>apps/minidaq\<close>, as clients of the store: readout nodes make keys and
  store fragments of events, filter nodes fetch the fragments of an event, check their bytes and keep or remove
  them. The random numbers of the distributions are arguments.
\<close>

unbundle bit_operations_syntax

section \<open>Nodes\<close>

text \<open>The classes, by extension. \<open>nTh\<close>, the subdetectors and the settings are values of \<open>int\<close>.\<close>

record MinidaqNode =
  nTh :: int
  localOnly :: bool
  nIntegrityChecks :: u64
  nIntegrityErrors :: u64
  tTest_ms :: int
  tRamp_ms :: int
  tIter_us :: int
  delay_s :: int
  tidFile :: string
  nCores :: int
  baseCoreId :: int
  maxIterations :: u64
  stopOnError :: bool
  live :: bool

record MinidaqRoNode = MinidaqNode +
  fSize :: nat
  ro_id :: int

record MinidaqFfNode = MinidaqNode +
  baseId :: int
  nSubdetectors :: int
  delay_us :: int
  maxRetries :: nat
  acceptLevel :: rat

definition new_MinidaqNode :: MinidaqNode where
  "new_MinidaqNode = \<lparr>nTh = 1, localOnly = False, nIntegrityChecks = 0, nIntegrityErrors = 0, tTest_ms = 0, tRamp_ms = 0, tIter_us = 0,
     delay_s = 0, tidFile = [], nCores = 1, baseCoreId = 0, maxIterations = 0, stopOnError = False, live = False\<rparr>"

definition new_MinidaqRoNode :: MinidaqRoNode where
  "new_MinidaqRoNode = MinidaqNode.extend new_MinidaqNode \<lparr>fSize = 0, ro_id = 0\<rparr>"

definition new_MinidaqFfNode :: MinidaqFfNode where
  "new_MinidaqFfNode = MinidaqNode.extend new_MinidaqNode \<lparr>baseId = 0, nSubdetectors = 0, delay_us = 100, maxRetries = 100, acceptLevel = 1\<rparr>"

text \<open>What a worker needs besides its node: the store's outside, the memory of buffered keys, which is in a
  message of the client, what the other threads do while it sleeps, how often it may try again, and whether the program is
  built with the integrity check.\<close>

record ('q, 'r, 'k, 'p, 'c) app =
  a_kv :: "('q, 'r, 'k, 'p, 'c) kv_outside"
  a_poke :: "bytes \<Rightarrow> 'c \<Rightarrow> 'c"
  a_idle :: "('q, 'r, 'k, 'p, 'c) KVStore \<Rightarrow> ('q, 'r, 'k, 'p, 'c) KVStore"
  a_patience :: nat
  a_integrity :: bool

section \<open>Keys and buffers\<close>

text \<open>\<open>MinidaqKey\<close> is packed: five bytes of event number, one of detector, two of component. The machine is little endian.\<close>

definition le_bytes :: "nat \<Rightarrow> u64 \<Rightarrow> bytes" where
  "le_bytes n x = map (\<lambda>i. ucast (drop_bit (8 * i) x)) [0..<n]"

definition SIZEOF_eventId :: nat where
  "SIZEOF_eventId = 5"

definition SIZEOF_MinidaqKey :: nat where
  "SIZEOF_MinidaqKey = 8"

definition set_detectorId :: "int \<Rightarrow> bytes \<Rightarrow> bytes" where
  "set_detectorId d key = key[5 := word_of_int d]"

definition set_componentId :: "u16 \<Rightarrow> bytes \<Rightarrow> bytes" where
  "set_componentId c key = key[6 := ucast c, 7 := ucast (drop_bit 8 c)]"

definition set_eventId :: "u64 \<Rightarrow> bytes \<Rightarrow> bytes" where
  "set_eventId e key = blit (le_bytes SIZEOF_eventId e) 0 key"

text \<open>Writing to the memory of a key and of a value.\<close>

definition write_key :: "('q, 'r, 'k, 'p, 'c) app \<Rightarrow> bytes \<Rightarrow> Key \<Rightarrow> ('q, 'r, 'k, 'p, 'c) KVStore \<Rightarrow> Key \<times> ('q, 'r, 'k, 'p, 'c) KVStore" where
  "write_key a d k kv = (k\<lparr>key_data := d\<rparr>, if key_isKvsBuffered k then kv\<lparr>kv_client := a_poke a d (kv_client kv)\<rparr> else kv)"

definition write_value :: "bytes \<Rightarrow> Value \<Rightarrow> ('q, 'r, 'k, 'p, 'c) KVStore \<Rightarrow> exn + Value \<times> ('q, 'r, 'k, 'p, 'c) KVStore" where
  "write_value bs v kv =
     (case val_data v of
        PmemPtr b \<Rightarrow> Inr (v, fill b bs kv)
      | HeapPtr _ \<Rightarrow> Inr (v\<lparr>val_data := HeapPtr bs\<rparr>, kv)
      | DhtPtr _ \<Rightarrow> Inr (v\<lparr>val_data := DhtPtr bs\<rparr>, kv)
      | VNull \<Rightarrow> if bs = [] then Inr (v, kv) else Inl Undefined)"

definition read_value :: "Value \<Rightarrow> ('q, 'r, 'k, 'p, 'c) KVStore \<Rightarrow> exn + bytes" where
  "read_value v kv =
     (case val_data v of
        PmemPtr b \<Rightarrow> (case blocks (pm (kv_tree kv)) b of
                       Some (ART_Tree.Value bs) \<Rightarrow> if length bs < val_size v then Inl Undefined else Inr (take (val_size v) bs)
                     | _ \<Rightarrow> Inl Undefined)
      | _ \<Rightarrow> val_bytes v)"

definition GetBufferByte :: "bytes \<Rightarrow> nat \<Rightarrow> u8" where
  "GetBufferByte key i = key ! (i mod SIZEOF_eventId)"

definition FillBuffer :: "bytes \<Rightarrow> nat \<Rightarrow> bytes" where
  "FillBuffer key s = map (GetBufferByte key) [0..<s]"

definition CheckBuffer :: "bytes \<Rightarrow> bytes \<Rightarrow> 'n MinidaqNode_scheme \<Rightarrow> bool \<times> 'n MinidaqNode_scheme" where
  "CheckBuffer key buf nd =
     (let nd = nd\<lparr>nIntegrityChecks := nIntegrityChecks nd + 1\<rparr>; err = (\<exists>i \<in> {0..<length buf}. GetBufferByte key i \<noteq> buf ! i)
      in (\<not> err, if err then nd\<lparr>nIntegrityErrors := nIntegrityErrors nd + 1\<rparr> else nd))"

section \<open>Readout\<close>

datatype fragment_distro = Distro_const | Distro_poisson

definition SetFragmentDistro :: "string \<Rightarrow> exn + fragment_distro" where
  "SetFragmentDistro distro =
     (if distro = ''const'' then Inr Distro_const else if distro = ''poisson'' then Inr Distro_poisson
      else Inl (OperationFailed NOT_IMPLEMENTED))"

text \<open>The size of the next fragment, and the random numbers left; \<open>None\<close> when all that are given are zero.\<close>

fun nonzero_draw :: "nat list \<Rightarrow> (nat \<times> nat list) option" where
  "nonzero_draw [] = None"
| "nonzero_draw (x # xs) = (if x = 0 then nonzero_draw xs else Some (x, xs))"

definition nextFragmentSize :: "fragment_distro \<Rightarrow> nat list \<Rightarrow> 'n MinidaqRoNode_scheme \<Rightarrow> (nat \<times> nat list) option" where
  "nextFragmentSize d draws nd = (case d of Distro_const \<Rightarrow> Some (fSize nd, draws) | Distro_poisson \<Rightarrow> nonzero_draw draws)"

definition alloc_attr :: "'n MinidaqNode_scheme \<Rightarrow> KeyValAttribute" where
  "alloc_attr nd = (if localOnly nd then NOT_BUFFERED else KVS_BUFFERED)"

text \<open>Making the next key of a thread; \<open>eventId\<close> is its own counter.\<close>

definition next_event_key ::
  "('q, 'r, 'k, 'p, 'c) app \<Rightarrow> int \<Rightarrow> 'n MinidaqNode_scheme \<Rightarrow> u64 \<Rightarrow> ('q, 'r, 'k, 'p, 'c) KVStore \<Rightarrow>
    (exn + Key) \<times> u64 \<times> ('q, 'r, 'k, 'p, 'c) KVStore" where
  "next_event_key a d nd eventId kv =
     (case kv_AllocKey (a_kv a) (alloc_attr nd) kv of
        (Inl e, kv) \<Rightarrow> (Inl e, eventId, kv)
      | (Inr k, kv) \<Rightarrow>
         (if length (key_data k) < SIZEOF_MinidaqKey then (Inl Undefined, eventId, kv)
          else case write_key a (set_eventId eventId (set_componentId 0 (set_detectorId d (key_data k)))) k kv of
                 (k, kv) \<Rightarrow> (Inr k, eventId + word_of_int (nTh nd), kv)))"

definition Ro_Setup :: "int \<Rightarrow> u64" where
  "Ro_Setup executorId = word_of_int executorId"

definition Ro_NextKey ::
  "('q, 'r, 'k, 'p, 'c) app \<Rightarrow> 'n MinidaqRoNode_scheme \<Rightarrow> u64 \<Rightarrow> ('q, 'r, 'k, 'p, 'c) KVStore \<Rightarrow>
    (exn + Key) \<times> u64 \<times> ('q, 'r, 'k, 'p, 'c) KVStore" where
  "Ro_NextKey a nd eventId kv = next_event_key a (ro_id nd) nd eventId kv"

definition DATA_BUFFER_SIZE :: nat where
  "DATA_BUFFER_SIZE = 100000"

definition data_buffer :: "nat \<Rightarrow> bytes" where
  "data_buffer n = take n (32 # replicate (DATA_BUFFER_SIZE - 1) 0)"

text \<open>Allocation of the fragment and its bytes; an exception frees the key and goes on, unless freeing throws.\<close>

definition rethrow :: "('q, 'r, 'k, 'p, 'c) app \<Rightarrow> Key \<Rightarrow> exn \<Rightarrow> ('q, 'r, 'k, 'p, 'c) KVStore \<Rightarrow> exn \<times> ('q, 'r, 'k, 'p, 'c) KVStore" where
  "rethrow a k e kv = (case kv_FreeKey (a_kv a) k kv of (Inl e', kv) \<Rightarrow> (e', kv) | (Inr u, kv) \<Rightarrow> (e, kv))"

definition make_fragment ::
  "('q, 'r, 'k, 'p, 'c) app \<Rightarrow> nat \<Rightarrow> Key \<Rightarrow> ('q, 'r, 'k, 'p, 'c) KVStore \<Rightarrow> (exn + Value) \<times> ('q, 'r, 'k, 'p, 'c) KVStore" where
  "make_fragment a sz k kv =
     (case kv_Alloc (a_kv a) k sz KVS_BUFFERED kv of
        (Inl e, kv) \<Rightarrow> (case rethrow a k e kv of (e, kv) \<Rightarrow> (Inl e, kv))
      | (Inr v, kv) \<Rightarrow>
         (if DATA_BUFFER_SIZE < val_size v then (Inl Undefined, kv)
          else case write_value (data_buffer (val_size v)) v kv of
                 Inl e \<Rightarrow> (Inl e, kv)
               | Inr (v, kv) \<Rightarrow>
                  (if \<not> a_integrity a then (Inr v, kv)
                   else case write_value (FillBuffer (key_data k) (val_size v)) v kv of Inl e \<Rightarrow> (Inl e, kv) | Inr (v, kv) \<Rightarrow> (Inr v, kv))))"

text \<open>The synchronous task. Its own check of the buffer counts, its answer does not.\<close>

definition Ro_Task ::
  "('q, 'r, 'k, 'p, 'c) app \<Rightarrow> nat \<Rightarrow> Key \<Rightarrow> 'n MinidaqRoNode_scheme \<Rightarrow> u64 \<Rightarrow> ('q, 'r, 'k, 'p, 'c) KVStore \<Rightarrow>
    (exn + unit) \<times> 'n MinidaqRoNode_scheme \<times> u64 \<times> ('q, 'r, 'k, 'p, 'c) KVStore" where
  "Ro_Task a sz k nd cnt kv =
     (case make_fragment a sz k kv of
        (Inl e, kv) \<Rightarrow> (Inl e, nd, cnt, kv)
      | (Inr v, kv) \<Rightarrow>
         (case (if a_integrity a then map_sum id (\<lambda>bs. snd (CheckBuffer (key_data k) bs nd)) (read_value v kv) else Inr nd) of
            Inl e \<Rightarrow> (Inl e, nd, cnt, kv)
          | Inr nd \<Rightarrow>
             (case kv_Put (a_kv a) k v kv of
                (Inl e, kv) \<Rightarrow> (Inl e, nd, cnt, kv)
              | (Inr u, kv) \<Rightarrow> (Inr (), nd, cnt + 1, kv))))"

text \<open>The asynchronous task. The callback, number \<open>cb\<close>, counts later.\<close>

definition Aro_Task ::
  "('q, 'r, 'k, 'p, 'c) app \<Rightarrow> nat \<Rightarrow> nat \<Rightarrow> Key \<Rightarrow> ('q, 'r, 'k, 'p, 'c) KVStore \<Rightarrow> (exn + unit) \<times> ('q, 'r, 'k, 'p, 'c) KVStore" where
  "Aro_Task a sz cb k kv =
     (case make_fragment a sz k kv of
        (Inl e, kv) \<Rightarrow> (Inl e, kv)
      | (Inr v, kv) \<Rightarrow> kv_PutAsync (a_kv a) k v cb default_put kv)"

definition count_callback :: "StatusCode \<Rightarrow> u64 \<times> u64 \<Rightarrow> u64 \<times> u64" where
  "count_callback st c = (if st \<noteq> OK then (fst c, snd c + 1) else (fst c + 1, snd c))"

section \<open>Filter\<close>

text \<open>Fetching a ready key: only a missing key is waited for.\<close>

fun get_ready :: "('q, 'r, 'k, 'p, 'c) app \<Rightarrow> KeyValAttribute \<Rightarrow> nat \<Rightarrow> ('q, 'r, 'k, 'p, 'c) KVStore \<Rightarrow> (exn + Key) \<times> ('q, 'r, 'k, 'p, 'c) KVStore" where
  "get_ready a attr 0 kv = (Inl (OperationFailed KEY_NOT_FOUND), kv)"
| "get_ready a attr (Suc n) kv =
     (case kv_GetAny (a_kv a) attr kv of
        (Inr k, kv) \<Rightarrow> (Inr k, kv)
      | (Inl e, kv) \<Rightarrow> if e = OperationFailed KEY_NOT_FOUND then get_ready a attr n (a_idle a kv) else (Inl e, kv))"

definition Ff_NextKey :: "('q, 'r, 'k, 'p, 'c) app \<Rightarrow> 'n MinidaqFfNode_scheme \<Rightarrow> ('q, 'r, 'k, 'p, 'c) KVStore \<Rightarrow> (exn + Key) \<times> ('q, 'r, 'k, 'p, 'c) KVStore" where
  "Ff_NextKey a nd kv = get_ready a (alloc_attr nd) (maxRetries nd) kv"

definition FfSeq_NextKey ::
  "('q, 'r, 'k, 'p, 'c) app \<Rightarrow> 'n MinidaqFfNode_scheme \<Rightarrow> u64 \<Rightarrow> ('q, 'r, 'k, 'p, 'c) KVStore \<Rightarrow>
    (exn + Key) \<times> u64 \<times> ('q, 'r, 'k, 'p, 'c) KVStore" where
  "FfSeq_NextKey a nd eventId kv = next_event_key a (baseId nd) nd eventId kv"

definition Accept :: "bool \<Rightarrow> 'n MinidaqFfNode_scheme \<Rightarrow> bool" where
  "Accept draw nd = (if 1 \<le> acceptLevel nd then True else if 0 < acceptLevel nd then draw else False)"

text \<open>The value of a fragment: fetched once, or again while it is missing, at most \<open>maxRetries\<close> times.\<close>

definition get_once :: "('q, 'r, 'k, 'p, 'c) app \<Rightarrow> Key \<Rightarrow> ('q, 'r, 'k, 'p, 'c) KVStore \<Rightarrow> (exn + Value) \<times> ('q, 'r, 'k, 'p, 'c) KVStore" where
  "get_once a k kv =
     (case kv_Get (a_kv a) k kv of
        (Inr v, kv) \<Rightarrow> (Inr v, kv)
      | (Inl e, kv) \<Rightarrow> (case rethrow a k e kv of (e, kv) \<Rightarrow> (Inl e, kv)))"

fun get_retry :: "('q, 'r, 'k, 'p, 'c) app \<Rightarrow> nat \<Rightarrow> Key \<Rightarrow> ('q, 'r, 'k, 'p, 'c) KVStore \<Rightarrow> (exn + Value) \<times> ('q, 'r, 'k, 'p, 'c) KVStore" where
  "get_retry a 0 k kv = (Inr \<lparr>val_data = VNull, val_size = 0, val_attr = NOT_BUFFERED\<rparr>, kv)"
| "get_retry a (Suc n) k kv =
     (case kv_Get (a_kv a) k kv of
        (Inr v, kv) \<Rightarrow> (Inr v, kv)
      | (Inl e, kv) \<Rightarrow>
         (if e = OperationFailed KEY_NOT_FOUND \<and> 0 < n then get_retry a n k (a_idle a kv)
          else case rethrow a k e kv of (e, kv) \<Rightarrow> (Inl e, kv)))"

text \<open>Keeping a fragment: the update is tried until its queue takes it; \<open>NoReturn\<close> after \<open>a_patience\<close> attempts. Freeing is
  tried with it.\<close>

fun update_retry ::
  "('q, 'r, 'k, 'p, 'c) app \<Rightarrow> nat \<Rightarrow> nat \<Rightarrow> Key \<Rightarrow> Value \<Rightarrow> ('q, 'r, 'k, 'p, 'c) KVStore \<Rightarrow> (exn + unit) \<times> ('q, 'r, 'k, 'p, 'c) KVStore" where
  "update_retry a 0 cb k v kv = (Inl NoReturn, kv)"
| "update_retry a (Suc n) cb k v kv =
     (case (case kv_UpdateAsync (a_kv a) k cb (attr_EMPTY\<lparr>LONG_TERM := True\<rparr>) kv of
              (Inl e, kv) \<Rightarrow> (Inl e, kv)
            | (Inr u, kv) \<Rightarrow> kv_Free (a_kv a) k v kv) of
        (Inr u, kv) \<Rightarrow> (Inr (), kv)
      | (Inl QueueFull, kv) \<Rightarrow> update_retry a n cb k v (a_idle a kv)
      | (Inl e, kv) \<Rightarrow> (case kv_free_both (a_kv a) k v (Inl e) kv of (r, kv) \<Rightarrow> (r, kv)))"

definition drop_fragment ::
  "('q, 'r, 'k, 'p, 'c) app \<Rightarrow> Key \<Rightarrow> Value \<Rightarrow> u64 \<Rightarrow> ('q, 'r, 'k, 'p, 'c) KVStore \<Rightarrow> (exn + unit) \<times> u64 \<times> ('q, 'r, 'k, 'p, 'c) KVStore" where
  "drop_fragment a k v cnt kv =
     (case kv_Remove (a_kv a) k kv of
        (Inl e, kv) \<Rightarrow> (Inl e, cnt, kv)
      | (Inr u, kv) \<Rightarrow> (case kv_Free (a_kv a) k v kv of (Inl e, kv) \<Rightarrow> (Inl e, cnt, kv) | (Inr u, kv) \<Rightarrow> (Inr (), cnt + 1, kv)))"

text \<open>One turn of the loop over the fragments; \<open>getv\<close> fetches the value. A failed check leaves key and value.\<close>

definition filter_fragment ::
  "('q, 'r, 'k, 'p, 'c) app \<Rightarrow> (Key \<Rightarrow> ('q, 'r, 'k, 'p, 'c) KVStore \<Rightarrow> (exn + Value) \<times> ('q, 'r, 'k, 'p, 'c) KVStore) \<Rightarrow> bool \<Rightarrow> int \<Rightarrow> Key \<Rightarrow>
    'n MinidaqFfNode_scheme \<Rightarrow> u64 \<Rightarrow> ('q, 'r, 'k, 'p, 'c) KVStore \<Rightarrow>
    (exn + Key) \<times> 'n MinidaqFfNode_scheme \<times> u64 \<times> ('q, 'r, 'k, 'p, 'c) KVStore" where
  "filter_fragment a getv accept d k nd cnt kv =
     (case write_key a (set_detectorId d (key_data k)) k kv of
        (k, kv) \<Rightarrow>
         (case getv k kv of
            (Inl e, kv) \<Rightarrow> (Inl e, nd, cnt, kv)
          | (Inr v, kv) \<Rightarrow>
             (case (if a_integrity a then map_sum id (\<lambda>bs. CheckBuffer (key_data k) bs nd) (read_value v kv) else Inr (True, nd)) of
                Inl e \<Rightarrow> (Inl e, nd, cnt, kv)
              | Inr (ok, nd) \<Rightarrow>
                 (if \<not> ok then (Inl (OperationFailed UNKNOWN_ERROR), nd, cnt, kv)
                  else if accept
                  then case update_retry a (a_patience a) (kv_next kv) k v kv of (r, kv) \<Rightarrow> (map_sum id (\<lambda>_. k) r, nd, cnt, kv)
                  else case drop_fragment a k v cnt kv of (r, cnt, kv) \<Rightarrow> (map_sum id (\<lambda>_. k) r, nd, cnt, kv)))))"

fun filter_fragments ::
  "('q, 'r, 'k, 'p, 'c) app \<Rightarrow> (Key \<Rightarrow> ('q, 'r, 'k, 'p, 'c) KVStore \<Rightarrow> (exn + Value) \<times> ('q, 'r, 'k, 'p, 'c) KVStore) \<Rightarrow> bool \<Rightarrow> int list \<Rightarrow> Key \<Rightarrow>
    'n MinidaqFfNode_scheme \<Rightarrow> u64 \<Rightarrow> ('q, 'r, 'k, 'p, 'c) KVStore \<Rightarrow>
    (exn + unit) \<times> 'n MinidaqFfNode_scheme \<times> u64 \<times> ('q, 'r, 'k, 'p, 'c) KVStore" where
  "filter_fragments a getv accept [] k nd cnt kv = (case kv_FreeKey (a_kv a) k kv of (r, kv) \<Rightarrow> (r, nd, cnt, kv))"
| "filter_fragments a getv accept (d # ds) k nd cnt kv =
     (case filter_fragment a getv accept d k nd cnt kv of
        (Inl e, nd, cnt, kv) \<Rightarrow> (Inl e, nd, cnt, kv)
      | (Inr k, nd, cnt, kv) \<Rightarrow> filter_fragments a getv accept ds k nd cnt kv)"

text \<open>The detectors of an event; \<open>PickSubdetector\<close> and \<open>PickNFragments\<close> give the settings.\<close>

definition fragment_ids :: "'n MinidaqFfNode_scheme \<Rightarrow> int list" where
  "fragment_ids nd = map (\<lambda>i. baseId nd + int i) [0..<nat (nSubdetectors nd)]"

definition Ff_Task ::
  "('q, 'r, 'k, 'p, 'c) app \<Rightarrow> bool \<Rightarrow> Key \<Rightarrow> 'n MinidaqFfNode_scheme \<Rightarrow> u64 \<Rightarrow> ('q, 'r, 'k, 'p, 'c) KVStore \<Rightarrow>
    (exn + unit) \<times> 'n MinidaqFfNode_scheme \<times> u64 \<times> ('q, 'r, 'k, 'p, 'c) KVStore" where
  "Ff_Task a draw k nd cnt kv =
     (if length (key_data k) < SIZEOF_MinidaqKey then (Inl Undefined, nd, cnt, kv)
      else filter_fragments a (get_once a) (Accept draw nd) (fragment_ids nd) k nd cnt kv)"

definition FfSeq_Task ::
  "('q, 'r, 'k, 'p, 'c) app \<Rightarrow> bool \<Rightarrow> Key \<Rightarrow> 'n MinidaqFfNode_scheme \<Rightarrow> u64 \<Rightarrow> ('q, 'r, 'k, 'p, 'c) KVStore \<Rightarrow>
    (exn + unit) \<times> 'n MinidaqFfNode_scheme \<times> u64 \<times> ('q, 'r, 'k, 'p, 'c) KVStore" where
  "FfSeq_Task a draw k nd cnt kv =
     (if length (key_data k) < SIZEOF_MinidaqKey then (Inl Undefined, nd, cnt, kv)
      else filter_fragments a (get_retry a (maxRetries nd)) (Accept draw nd) (fragment_ids nd) k nd cnt kv)"

section \<open>Keys of events\<close>

definition event_key :: "int \<Rightarrow> u64 \<Rightarrow> bytes" where
  "event_key d ev = le_bytes SIZEOF_eventId ev @ [word_of_int d, 0, 0]"

lemma length_le_bytes [simp]: "length (le_bytes n x) = n"
  by (simp add: le_bytes_def)

lemma length_event_key [simp]: "length (event_key d ev) = 8"
  by (simp add: event_key_def SIZEOF_eventId_def)

lemma length_8: "length key = 8 \<Longrightarrow> \<exists>a b c d e f g h. key = [a, b, c, d, e, f, g, h]"
  by (auto simp: numeral_eq_Suc length_Suc_conv)

lemma set_fields: "length key = 8 \<Longrightarrow> set_eventId ev (set_componentId 0 (set_detectorId d key)) = event_key d ev"
  by (drule length_8) (auto simp: set_eventId_def set_componentId_def set_detectorId_def event_key_def blit_def le_bytes_def SIZEOF_eventId_def)

lemma set_detectorId_event_key [simp]: "set_detectorId d (event_key d' ev) = event_key d ev"
  by (simp add: set_detectorId_def event_key_def list_update_append SIZEOF_eventId_def)

lemma GetBufferByte_event_key: "GetBufferByte (event_key d ev) i = GetBufferByte (event_key d' ev) i"
  by (simp add: GetBufferByte_def event_key_def nth_append SIZEOF_eventId_def)

lemma FillBuffer_event_key: "FillBuffer (event_key d ev) n = FillBuffer (event_key d' ev) n"
  by (simp add: FillBuffer_def GetBufferByte_event_key [of d ev _ d'])

lemma length_FillBuffer [simp]: "length (FillBuffer key n) = n"
  by (simp add: FillBuffer_def)

lemma check_filled: "CheckBuffer key (FillBuffer key n) nd = (True, nd\<lparr>nIntegrityChecks := nIntegrityChecks nd + 1\<rparr>)"
  by (simp add: CheckBuffer_def FillBuffer_def)

lemma next_event_key_local:
  assumes "localOnly nd" "kv_keySize kv = 8"
  shows "next_event_key a d nd ev kv = (Inr \<lparr>key_data = event_key d ev, key_attr = NOT_BUFFERED\<rparr>, ev + word_of_int (nTh nd), kv)"
  using assms set_fields [of "replicate 8 0" ev d]
  by (simp add: next_event_key_def alloc_attr_def kv_AllocKey_def SIZEOF_MinidaqKey_def write_key_def key_isKvsBuffered_def)

lemma le_bytes_eq_iff: "le_bytes n x = le_bytes n y \<longleftrightarrow> take_bit (8 * n) x = take_bit (8 * n) y"
proof
  assume l: "le_bytes n x = le_bytes n y"
  show "take_bit (8 * n) x = take_bit (8 * n) y"
  proof (rule bit_eqI)
    fix j
    show "bit (take_bit (8 * n) x) j = bit (take_bit (8 * n) y) j"
    proof (cases "j < 8 * n")
      case True
      then have i: "j div 8 < n" by linarith
      have "(ucast (drop_bit (8 * (j div 8)) x) :: u8) = ucast (drop_bit (8 * (j div 8)) y)"
        using arg_cong [OF l, of "\<lambda>l. l ! (j div 8)"] i by (simp add: le_bytes_def)
      then have "bit (ucast (drop_bit (8 * (j div 8)) x) :: u8) (j mod 8) = bit (ucast (drop_bit (8 * (j div 8)) y) :: u8) (j mod 8)" by simp
      then have "bit x (8 * (j div 8) + j mod 8) = bit y (8 * (j div 8) + j mod 8)" by (simp add: bit_simps)
      then show ?thesis using True by (simp add: bit_simps)
    qed (simp add: bit_simps)
  qed
next
  assume t: "take_bit (8 * n) x = take_bit (8 * n) y"
  have "(ucast (drop_bit (8 * i) x) :: u8) = ucast (drop_bit (8 * i) y)" if "i < n" for i
  proof (rule bit_word_eqI)
    fix j assume "j < LENGTH(8)"
    then have "8 * i + j < 8 * n" using that by simp
    then have "bit x (8 * i + j) = bit y (8 * i + j)" using arg_cong [OF t, of "\<lambda>w. bit w (8 * i + j)"] by (simp add: bit_simps)
    then show "bit (ucast (drop_bit (8 * i) x) :: u8) j = bit (ucast (drop_bit (8 * i) y) :: u8) j" by (simp add: bit_simps)
  qed
  then show "le_bytes n x = le_bytes n y" by (simp add: le_bytes_def)
qed

lemma event_key_eq_iff:
  "event_key d x = event_key d' y \<longleftrightarrow> (word_of_int d :: u8) = word_of_int d' \<and> unat x mod 2 ^ 40 = unat y mod 2 ^ 40"
proof -
  have "take_bit 40 x = take_bit 40 y \<longleftrightarrow> unat x mod 2 ^ 40 = unat y mod 2 ^ 40"
    by (simp only: word_unat_eq_iff unsigned_take_bit_eq) (simp only: take_bit_eq_mod)
  then show ?thesis by (auto simp: event_key_def SIZEOF_eventId_def le_bytes_eq_iff [of 5 x y, simplified])
qed

text \<open>The first keys of a thread.\<close>

fun ro_keys :: "('q, 'r, 'k, 'p, 'c) app \<Rightarrow> 'n MinidaqRoNode_scheme \<Rightarrow> nat \<Rightarrow> u64 \<Rightarrow> ('q, 'r, 'k, 'p, 'c) KVStore \<Rightarrow> Key list" where
  "ro_keys a nd 0 ev kv = []"
| "ro_keys a nd (Suc m) ev kv =
     (case Ro_NextKey a nd ev kv of (Inl e, ev, kv) \<Rightarrow> [] | (Inr k, ev, kv) \<Rightarrow> k # ro_keys a nd m ev kv)"

lemma ro_keys_local:
  assumes "localOnly nd" "kv_keySize kv = 8"
  shows "map key_data (ro_keys a nd m ev kv) = map (\<lambda>i. event_key (ro_id nd) (ev + of_nat i * word_of_int (nTh nd))) [0..<m]"
proof (induction m arbitrary: ev)
  case (Suc m)
  have "[0..<Suc m] = 0 # map Suc [0..<m]" by (simp only: upt_conv_Cons [OF zero_less_Suc] map_Suc_upt)
  then show ?case using Suc by (simp add: Ro_NextKey_def next_event_key_local [OF assms] o_def algebra_simps del: upt_Suc)
qed simp

text \<open>The events of the threads \<open>0..<n\<close> are all numbers below \<open>n * m\<close>.\<close>

lemma interleaved_events:
  fixes n m :: nat
  defines "evs \<equiv> concat (map (\<lambda>e. map (\<lambda>i. e + i * n) [0..<m]) [0..<n])"
  shows "distinct evs" "set evs = {0..<n * m}"
proof -
  show s: "set evs = {0..<n * m}"
  proof (intro set_eqI iffI)
    fix x assume "x \<in> set evs"
    then obtain e i where "e < n" "i < m" "x = e + i * n" by (auto simp: evs_def)
    moreover from this have "e + i * n < n + i * n" "n + i * n \<le> m * n" using mult_le_mono1 [of "Suc i" m n] by simp_all
    ultimately show "x \<in> {0..<n * m}" by (simp add: mult.commute)
  next
    fix x assume x: "x \<in> {0..<n * m}"
    then have "0 < n" by (cases n) simp_all
    then have "x mod n < n" "x div n < m" using x by (simp_all add: div_less_iff_less_mult mult.commute)
    then show "x \<in> set evs" by (auto simp: evs_def intro!: bexI [of _ "x mod n"] image_eqI [of _ _ "x div n"])
  qed
  have "length evs = n * m" by (simp add: evs_def length_concat o_def sum_list_triv)
  then show "distinct evs" using s by (intro card_distinct) simp
qed

lemma inj_mod: "inj_on (\<lambda>x. x mod c) {0..<N} \<longleftrightarrow> N \<le> c" if "0 < c" for c N :: nat
proof
  assume i: "inj_on (\<lambda>x. x mod c) {0..<N}"
  show "N \<le> c"
  proof (rule ccontr)
    assume "\<not> N \<le> c"
    then have "0 \<in> {0..<N}" "c \<in> {0..<N}" by simp_all
    from inj_onD [OF i _ this] that show False by simp
  qed
qed (auto simp: inj_on_def)

text \<open>C24. Readout threads never use a key twice, as long as the event numbers fit their five bytes: over all the threads of
  a node, each starting at its own number and stepping by the number of threads, the keys of the
  first \<open>m\<close> rounds are pairwise different exactly when no event number reaches \<open>2 ^ 40\<close>. After that the
  keys start again, while the counter goes on.\<close>

theorem readout_keys_distinct:
  assumes "localOnly nd" "kv_keySize kv = 8" "nTh nd = int n" "n * m < 2 ^ 64"
  shows "distinct (map key_data (concat (map (\<lambda>e. ro_keys a nd m (Ro_Setup (int e)) kv) [0..<n]))) \<longleftrightarrow> n * m \<le> 2 ^ 40"
proof -
  let ?evs = "concat (map (\<lambda>e. map (\<lambda>i. e + i * n) [0..<m]) [0..<n])" and ?f = "\<lambda>x. event_key (ro_id nd) (of_nat x)"
  have "map key_data (ro_keys a nd m (Ro_Setup (int e)) kv) = map ?f (map (\<lambda>i. e + i * n) [0..<m])" for e
    by (simp add: ro_keys_local [OF assms(1,2)] Ro_Setup_def assms(3))
  then have k: "map key_data (concat (map (\<lambda>e. ro_keys a nd m (Ro_Setup (int e)) kv) [0..<n])) = map ?f ?evs"
    by (simp add: map_concat o_def)
  have u: "unat (of_nat x :: u64) = x" if "x < n * m" for x using that assms(4) by (simp add: unat_of_nat take_bit_nat_eq_self)
  have "inj_on ?f {0..<n * m} \<longleftrightarrow> inj_on (\<lambda>x. x mod 2 ^ 40) {0..<n * m}"
    by (simp add: inj_on_def event_key_eq_iff u)
  also have "\<dots> \<longleftrightarrow> n * m \<le> 2 ^ 40" by (rule inj_mod) simp
  finally show ?thesis using interleaved_events [of n m] by (simp only: k distinct_map) simp
qed

text \<open>The store of the examples and a readout node.\<close>

definition ex_app :: "(rqst list, task list, bytes list, pm_rqst list, unit) app" where
  "ex_app = \<lparr>a_kv = ex_kvo, a_poke = (\<lambda>d c. c), a_idle = id, a_patience = 1, a_integrity = True\<rparr>"

definition ex_ro :: MinidaqRoNode where
  "ex_ro = new_MinidaqRoNode\<lparr>localOnly := True\<rparr>"

lemma ex_kv_keySize: "kv_keySize ex_kv = 8"
proof -
  have "kv_init ex_kvo ex_site ex_options = Some (Inr kv) \<Longrightarrow> kv_keySize kv = 8" for kv
    by (auto simp: kv_init_def ex_options_def split: sum.splits spdk_device.splits if_splits)
  then show ?thesis using ex_kv_fields(1) by blast
qed

text \<open>Two threads, three keys each.\<close>

theorem readout_keys_distinct_witness:
  "distinct (map key_data (concat (map (\<lambda>e. ro_keys ex_app (ex_ro\<lparr>nTh := 2\<rparr>) 3 (Ro_Setup (int e)) ex_kv) [0..<2])))"
proof -
  have "localOnly (ex_ro\<lparr>nTh := 2\<rparr>)" "nTh (ex_ro\<lparr>nTh := 2\<rparr>) = int 2"
    by (simp_all add: ex_ro_def new_MinidaqRoNode_def new_MinidaqNode_def MinidaqNode.defs)
  from readout_keys_distinct [OF this(1) ex_kv_keySize this(2), of 3] show ?thesis by simp
qed

end
