(* ===== verification/Minidaq_Event.thy ===== *)
theory Minidaq_Event
  imports Minidaq_Node
begin

text \<open>
  An event of the benchmark from end to end: the readout nodes store its fragments, one per subdetector, and
  the filter node that visits the same event finds all of them, with the bytes that were stored, and hands
  them over to be kept.
\<close>

section \<open>A store of one node\<close>

text \<open>What the benchmark sets up for a single node without a queue of ready keys: every key is local, keys have the size of \<open>MinidaqKey\<close>.\<close>

definition bench_ok :: "('q, 'r, 'k, 'p, 'c) app \<Rightarrow> ('q, 'r, 'k, 'p, 'c) KVStore \<Rightarrow> bool" where
  "bench_ok a kv \<longleftrightarrow> art_inv (kv_tree kv) \<and> fresh_reserve (reserve (kv_off (a_kv a))) \<and> a_integrity a \<and>
     kv_keySize kv = SIZEOF_MinidaqKey \<and> core_maskLength (kv_dht kv) = 0 \<and> maxReadyKeys (opt_runtime (kv_options kv)) = 0"

text \<open>The parts of a store that storing a value leaves alone.\<close>

definition same_site :: "('q, 'r, 'k, 'p, 'c) KVStore \<Rightarrow> ('q, 'r, 'k, 'p, 'c) KVStore \<Rightarrow> bool" where
  "same_site kv kv' \<longleftrightarrow> kv_keySize kv' = kv_keySize kv \<and> kv_dht kv' = kv_dht kv \<and> kv_options kv' = kv_options kv \<and>
     kv_spdkReady kv' = kv_spdkReady kv \<and> kv_offloadPoller kv' = kv_offloadPoller kv \<and> sys_dev (kv_sys kv') = sys_dev (kv_sys kv) \<and>
     sys_poller (kv_sys kv') = sys_poller (kv_sys kv)"

lemma same_site_trans: "same_site kv kv' \<Longrightarrow> same_site kv' kv'' \<Longrightarrow> same_site kv kv''"
  by (simp add: same_site_def)

lemma same_site_store: "same_site kv ((set_tree t kv)\<lparr>kv_readyKeys := q\<rparr>)" "same_site kv (set_tree t kv)"
  by (simp_all add: same_site_def set_tree_def)

lemma bench_ok_site: "bench_ok a kv \<Longrightarrow> same_site kv kv' \<Longrightarrow> art_inv (kv_tree kv') \<Longrightarrow> bench_ok a kv'"
  by (simp add: bench_ok_def same_site_def)

lemma bench_ok_local: "bench_ok a kv \<Longrightarrow> kv_isLocalKey k kv = Inr True"
  by (simp add: bench_ok_def kv_isLocalKey_def isLocalKey_def)

lemma bench_ok_takes: "bench_ok a kv \<Longrightarrow> takes_key y key kv"
  by (simp add: bench_ok_def takes_key_def pKey_enqueueNext_def base_enqueueNext_def)

section \<open>Readout\<close>

lemma fill_fill [simp]: "fill b v (fill b u kv) = fill b v kv"
  by (simp add: fill_def set_tree_def write_block_def)

lemma length_data_buffer: "n \<le> DATA_BUFFER_SIZE \<Longrightarrow> length (data_buffer n) = n"
  by (simp add: data_buffer_def DATA_BUFFER_SIZE_def)

lemma Ro_Task_local:
  assumes ok: "bench_ok a kv" and k: "length (key_data k) = 8" "key_attr k = NOT_BUFFERED" and sz: "sz \<le> DATA_BUFFER_SIZE"
  obtains (fail) t1 where "Ro_Task a sz k nd cnt kv = (Inl (OperationFailed PMEM_ALLOCATION_ERROR), nd, cnt, set_tree t1 kv)"
      "art_inv t1" "art_map t1 = art_map (kv_tree kv)" "isl (fst (AllocValueForKey (reserve (kv_off (a_kv a))) (key_data k) sz (kv_tree kv)))"
    | (stored) t2 q where "Ro_Task a sz k nd cnt kv =
        (Inr (), nd\<lparr>nIntegrityChecks := nIntegrityChecks nd + 1\<rparr>, cnt + 1, (set_tree t2 kv)\<lparr>kv_readyKeys := q\<rparr>)"
      "art_inv t2" "art_map t2 = (art_map (kv_tree kv))(key_data k \<mapsto> PmemVal (FillBuffer (key_data k) sz))"
proof -
  let ?v = "FillBuffer (key_data k) sz"
  have inv: "art_inv (kv_tree kv)" "fresh_reserve (reserve (kv_off (a_kv a)))" "a_integrity a" using ok by (simp_all add: bench_ok_def)
  note lcl = bench_ok_local [OF ok, of k]
  from inv(1) k(1) inv(2) bench_ok_takes [OF ok]
  show ?thesis
  proof (cases rule: kv_store_raw [where v = ?v])
    case (fail t1)
    moreover have "isl (fst (AllocValueForKey (reserve (kv_off (a_kv a))) (key_data k) sz (kv_tree kv)))"
      using fail(1) by (auto simp: kv_AllocRaw_def split: prod.splits sum.splits)
    ultimately show ?thesis using lcl k(2)
      by (intro that(1) [of t1]) (simp_all add: Ro_Task_def make_fragment_def kv_Alloc_def rethrow_def kv_FreeKey_def key_isKvsBuffered_def)
  next
    case (ok b t1 t2 q)
    let ?val = "\<lparr>val_data = PmemPtr b, val_size = sz, val_attr = KVS_BUFFERED\<rparr>"
    have m: "make_fragment a sz k kv = (Inr ?val, fill b ?v (set_tree t1 kv))"
      using ok(1) lcl sz inv(3) by (simp add: make_fragment_def kv_Alloc_def write_value_def)
    have r: "read_value ?val (fill b ?v (set_tree t1 kv)) = Inr ?v"
      by (simp add: read_value_def fill_def write_block_def)
    have p: "kv_Put (a_kv a) k ?val (fill b ?v (set_tree t1 kv)) = (Inr (), (set_tree t2 kv)\<lparr>kv_readyKeys := q\<rparr>)"
      using lcl k(2) ok(2) by (simp add: kv_Put_def fill_def kv_free_both_def kv_Free_def kv_FreeKey_def val_isKvsBuffered_def key_isKvsBuffered_def)
    show ?thesis using m r p ok(3,4) inv(3) by (intro that(2) [of q t2]) (simp_all add: Ro_Task_def check_filled)
  qed
qed

text \<open>Several readout nodes, each with its own subdetector and size of fragment, working on the same event.\<close>

fun readouts :: "('q, 'r, 'k, 'p, 'c) app \<Rightarrow> u64 \<Rightarrow> (MinidaqRoNode \<times> nat) list \<Rightarrow> ('q, 'r, 'k, 'p, 'c) KVStore \<Rightarrow> (exn + unit) \<times> ('q, 'r, 'k, 'p, 'c) KVStore" where
  "readouts a ev [] kv = (Inr (), kv)"
| "readouts a ev (n # ns) kv =
     (case Ro_NextKey a (fst n) ev kv of
        (Inl e, ev', kv) \<Rightarrow> (Inl e, kv)
      | (Inr k, ev', kv) \<Rightarrow>
         (case Ro_Task a (snd n) k (fst n) 0 kv of
            (Inl e, nd, cnt, kv) \<Rightarrow> (Inl e, kv)
          | (Inr u, nd, cnt, kv) \<Rightarrow> readouts a ev ns kv))"

definition fragment :: "u64 \<Rightarrow> nat \<Rightarrow> bytes" where
  "fragment ev sz = FillBuffer (event_key 0 ev) sz"

lemma fragment_eq: "FillBuffer (event_key d ev) sz = fragment ev sz"
  unfolding fragment_def by (rule FillBuffer_event_key)

lemma readouts_spec:
  assumes "bench_ok a kv" "\<forall>n \<in> set ns. localOnly (fst n) \<and> snd n \<le> DATA_BUFFER_SIZE"
    and "readouts a ev ns kv = (Inr (), kv')" "distinct (map (\<lambda>n. word_of_int (ro_id (fst n)) :: u8) ns)"
  shows "bench_ok a kv' \<and> same_site kv kv' \<and> (\<forall>n \<in> set ns. art_map (kv_tree kv') (event_key (ro_id (fst n)) ev) = Some (PmemVal (fragment ev (snd n)))) \<and>
    (\<forall>key. (\<forall>n \<in> set ns. key \<noteq> event_key (ro_id (fst n)) ev) \<longrightarrow> art_map (kv_tree kv') key = art_map (kv_tree kv) key)"
  using assms
proof (induction ns arbitrary: kv)
  case Nil
  then show ?case by (simp add: same_site_def)
next
  case (Cons n ns)
  let ?d = "ro_id (fst n)" let ?k = "\<lparr>key_data = event_key ?d ev, key_attr = NOT_BUFFERED\<rparr>"
  have nx: "Ro_NextKey a (fst n) ev kv = (Inr ?k, ev + word_of_int (nTh (fst n)), kv)"
    using Cons.prems(1,2) by (simp add: Ro_NextKey_def next_event_key_local bench_ok_def SIZEOF_MinidaqKey_def)
  have "length (key_data ?k) = 8" "key_attr ?k = NOT_BUFFERED" "snd n \<le> DATA_BUFFER_SIZE" using Cons.prems(2) by simp_all
  from Cons.prems(1) this show ?case
  proof (cases rule: Ro_Task_local [where nd = "fst n" and cnt = 0])
    case (fail t1)
    then show ?thesis using Cons.prems(3) by (simp add: nx)
  next
    case (stored t2 q)
    let ?kv = "(set_tree t2 kv)\<lparr>kv_readyKeys := q\<rparr>"
    have ok: "bench_ok a ?kv" using stored(2) by (intro bench_ok_site [OF Cons.prems(1) same_site_store(1)]) simp
    have IH: "bench_ok a kv' \<and> same_site ?kv kv' \<and>
      (\<forall>n \<in> set ns. art_map (kv_tree kv') (event_key (ro_id (fst n)) ev) = Some (PmemVal (fragment ev (snd n)))) \<and>
      (\<forall>key. (\<forall>n \<in> set ns. key \<noteq> event_key (ro_id (fst n)) ev) \<longrightarrow> art_map (kv_tree kv') key = art_map (kv_tree ?kv) key)"
      using Cons.prems(2-4) stored(1) by (intro Cons.IH [OF ok]) (simp_all add: nx)
    have "\<forall>n' \<in> set ns. event_key ?d ev \<noteq> event_key (ro_id (fst n')) ev" using Cons.prems(4) by (auto simp: event_key_eq_iff)
    then have "art_map (kv_tree kv') (event_key ?d ev) = Some (PmemVal (fragment ev (snd n)))"
      using IH stored(3) by (simp add: fragment_eq)
    then show ?thesis using IH stored(3) same_site_trans [OF same_site_store(1)] by auto
  qed
qed

section \<open>Filter\<close>

text \<open>A store whose offload thread takes another \<open>n\<close> requests.\<close>

definition takes_updates :: "('q, 'r, 'k, 'p, 'c) app \<Rightarrow> ('q \<Rightarrow> rqst list) \<Rightarrow> nat \<Rightarrow> nat \<Rightarrow> ('q, 'r, 'k, 'p, 'c) KVStore \<Rightarrow> bool" where
  "takes_updates a conts cap n kv \<longleftrightarrow> ring_ok (rq_ring (kv_off (a_kv a))) conts cap \<and> kv_isOffloadEnabled kv \<and> kv_offloadPoller kv \<and>
     length (conts (rqstRing (sys_poller (kv_sys kv)))) + n \<le> cap"

abbreviation queued :: "('q \<Rightarrow> rqst list) \<Rightarrow> ('q, 'r, 'k, 'p, 'c) KVStore \<Rightarrow> rqst list" where
  "queued conts kv \<equiv> conts (rqstRing (sys_poller (kv_sys kv)))"

definition keep_rqst :: "bytes \<Rightarrow> bytes \<Rightarrow> rqst \<Rightarrow> bool" where
  "keep_rqst key v r \<longleftrightarrow> rq_op r = OFFLOAD_UPDATE \<and> rq_key r = key \<and> rq_value r = Bytes v \<and> rq_valueSize r = of_nat (length v) \<and> rq_loc r = PMEM"

lemma update_accepted:
  assumes inv: "art_inv (kv_tree kv)" "length (key_data k) = 8" "art_map (kv_tree kv) (key_data k) = Some (PmemVal v)"
    and room: "takes_updates a conts cap (Suc n) kv"
  obtains r kv' where "kv_UpdateAsync (a_kv a) k cb (attr_EMPTY\<lparr>LONG_TERM := True\<rparr>) kv = (Inr (), kv')" "keep_rqst (key_data k) v r"
    "queued conts kv' = queued conts kv @ [r]" "kv_tree kv' = kv_tree kv" "takes_updates a conts cap n kv'"
    "kv_keySize kv' = kv_keySize kv" "kv_dht kv' = kv_dht kv" "kv_options kv' = kv_options kv"
proof -
  let ?r = "(pool_rqst kv)\<lparr>rq_op := OFFLOAD_UPDATE, rq_key := key_data k, rq_value := Bytes v, rq_valueSize := of_nat (length v), rq_clb := Some cb, rq_loc := PMEM\<rparr>"
  obtain b where "ART_Get (key_data k) (kv_tree kv) = Inr (Some b, length v, PMEM)" "blocks (pm (kv_tree kv)) b = Some (ART_Tree.Value v)"
    using ART_Get_spec [OF inv(1,2)] inv(3) by auto
  then have g: "getValCtx ((pool_rqst kv)\<lparr>rq_key := key_data k\<rparr>) (kv_tree kv) = Inr (OK, Bytes v, of_nat (length v), PMEM)"
    by (simp add: getValCtx_def)
  have f: "finalizeUpdate (key_data k) (Bytes v) (of_nat (length v)) (Some cb) PMEM (pool_rqst kv) = Inr ?r"
    using inv(2) by (simp add: finalizeUpdate_def KEY_BUFFER_SIZE_def)
  have rg: "ring_ok (rq_ring (kv_off (a_kv a))) conts cap" "length (queued conts kv) < cap" using room by (simp_all add: takes_updates_def)
  obtain p where p: "poller_enqueue (rq_ring (kv_off (a_kv a))) ?r (sys_poller (kv_sys kv)) = (True, p)" "conts (rqstRing p) = queued conts kv @ [?r]"
    using poller_enqueue_spec(1,2) [OF rg(1), of ?r "sys_poller (kv_sys kv)"] rg(2)
    by (cases "poller_enqueue (rq_ring (kv_off (a_kv a))) ?r (sys_poller (kv_sys kv))") auto
  let ?kv' = "kv\<lparr>kv_sys := (kv_sys kv)\<lparr>sys_poller := p\<rparr>, kv_next := kv_next kv + 1\<rparr>"
  have "kv_UpdateAsync (a_kv a) k cb (attr_EMPTY\<lparr>LONG_TERM := True\<rparr>) kv = (Inr (), ?kv')"
    using room g f p(1) by (simp add: kv_UpdateAsync_def takes_updates_def offload_enqueue_def)
  moreover have "takes_updates a conts cap n ?kv'" using room p(2) by (simp add: takes_updates_def kv_isOffloadEnabled_def)
  ultimately show ?thesis using p(2) by (intro that [of ?kv' ?r]) (simp_all add: keep_rqst_def)
qed

text \<open>One fragment; both ways to fetch it give the same.\<close>

definition fetches :: "('q, 'r, 'k, 'p, 'c) app \<Rightarrow> (Key \<Rightarrow> ('q, 'r, 'k, 'p, 'c) KVStore \<Rightarrow> (exn + Value) \<times> ('q, 'r, 'k, 'p, 'c) KVStore) \<Rightarrow> bool" where
  "fetches a getv \<longleftrightarrow> (\<forall>k kv kv' v. kv_Get (a_kv a) k kv = (Inr v, kv') \<longrightarrow> getv k kv = (Inr v, kv'))"

lemma fetches_get: "fetches a (get_once a)" "0 < n \<Longrightarrow> fetches a (get_retry a n)"
  by (cases n; simp add: fetches_def get_once_def)+

lemma filter_fragment_kept:
  assumes ok: "bench_ok a kv" and k: "key_data k = event_key d' ev" "key_attr k = NOT_BUFFERED" and f: "fetches a getv"
    and v: "art_map (kv_tree kv) (event_key d ev) = Some (PmemVal (fragment ev sz))"
    and room: "takes_updates a conts cap (Suc n) kv" "0 < a_patience a"
  obtains r kv' where "filter_fragment a getv True d k nd cnt kv =
      (Inr (k\<lparr>key_data := event_key d ev\<rparr>), nd\<lparr>nIntegrityChecks := nIntegrityChecks nd + 1\<rparr>, cnt, kv')"
    "keep_rqst (event_key d ev) (fragment ev sz) r" "queued conts kv' = queued conts kv @ [r]" "kv_tree kv' = kv_tree kv"
    "bench_ok a kv'" "takes_updates a conts cap n kv'"
proof -
  let ?k = "k\<lparr>key_data := event_key d ev\<rparr>" and ?v = "\<lparr>val_data = HeapPtr (fragment ev sz), val_size = length (fragment ev sz), val_attr = NOT_BUFFERED\<rparr>"
  have inv: "art_inv (kv_tree kv)" "a_integrity a" using ok by (simp_all add: bench_ok_def)
  have g: "getv ?k kv = (Inr ?v, kv)"
    using f kv_GetRaw_pmem [OF inv(1) _ v, of "a_kv a"] bench_ok_local [OF ok, of ?k] by (simp add: fetches_def kv_Get_def)
  have c: "CheckBuffer (event_key d ev) (fragment ev sz) nd = (True, nd\<lparr>nIntegrityChecks := nIntegrityChecks nd + 1\<rparr>)"
    using check_filled [of "event_key d ev" sz nd] by (simp add: fragment_eq)
  obtain m where m: "a_patience a = Suc m" using room(2) by (cases "a_patience a") simp_all
  have e: "length (key_data ?k) = 8" "art_map (kv_tree kv) (key_data ?k) = Some (PmemVal (fragment ev sz))" using v by simp_all
  obtain r kv' where u: "kv_UpdateAsync (a_kv a) ?k (kv_next kv) (attr_EMPTY\<lparr>LONG_TERM := True\<rparr>) kv = (Inr (), kv')" "keep_rqst (key_data ?k) (fragment ev sz) r"
    "queued conts kv' = queued conts kv @ [r]" "kv_tree kv' = kv_tree kv" "takes_updates a conts cap n kv'"
    "kv_keySize kv' = kv_keySize kv" "kv_dht kv' = kv_dht kv" "kv_options kv' = kv_options kv"
    by (rule update_accepted [OF inv(1) e room(1), of "kv_next kv"])
  have "filter_fragment a getv True d k nd cnt kv = (Inr ?k, nd\<lparr>nIntegrityChecks := nIntegrityChecks nd + 1\<rparr>, cnt, kv')"
    using g c u(1) k inv(2)
    by (simp add: filter_fragment_def write_key_def key_isKvsBuffered_def read_value_def val_bytes_def Let_def m kv_Free_def val_isKvsBuffered_def)
  moreover have "bench_ok a kv'" using ok u(4,6-8) by (simp add: bench_ok_def)
  ultimately show ?thesis using u by (intro that [of kv' r]) simp_all
qed

lemma filter_fragments_kept:
  assumes "bench_ok a kv" "key_data k = event_key d' ev" "key_attr k = NOT_BUFFERED" "fetches a getv" "0 < a_patience a"
    and "\<forall>d \<in> set ds. art_map (kv_tree kv) (event_key d ev) = Some (PmemVal (fragment ev (sz d)))" "takes_updates a conts cap (length ds) kv"
  shows "\<exists>kv' rs. filter_fragments a getv True ds k nd cnt kv = (Inr (), nd\<lparr>nIntegrityChecks := nIntegrityChecks nd + of_nat (length ds)\<rparr>, cnt, kv') \<and>
    list_all2 (\<lambda>d r. keep_rqst (event_key d ev) (fragment ev (sz d)) r) ds rs \<and> queued conts kv' = queued conts kv @ rs \<and> kv_tree kv' = kv_tree kv"
  using assms(1-3,6,7)
proof (induction ds arbitrary: k d' nd kv)
  case Nil
  then show ?case by (simp add: kv_FreeKey_def key_isKvsBuffered_def)
next
  case (Cons d ds)
  have v: "art_map (kv_tree kv) (event_key d ev) = Some (PmemVal (fragment ev (sz d)))" and room: "takes_updates a conts cap (Suc (length ds)) kv"
    using Cons.prems(4,5) by simp_all
  let ?nd = "nd\<lparr>nIntegrityChecks := nIntegrityChecks nd + 1\<rparr>"
  obtain r kv' where f: "filter_fragment a getv True d k nd cnt kv = (Inr (k\<lparr>key_data := event_key d ev\<rparr>), ?nd, cnt, kv')"
    "keep_rqst (event_key d ev) (fragment ev (sz d)) r" "queued conts kv' = queued conts kv @ [r]" "kv_tree kv' = kv_tree kv"
    "bench_ok a kv'" "takes_updates a conts cap (length ds) kv'"
    by (rule filter_fragment_kept [OF Cons.prems(1-3) assms(4) v room assms(5)])
  obtain kv'' rs where g: "filter_fragments a getv True ds (k\<lparr>key_data := event_key d ev\<rparr>) ?nd cnt kv' =
        (Inr (), ?nd\<lparr>nIntegrityChecks := nIntegrityChecks ?nd + of_nat (length ds)\<rparr>, cnt, kv'')"
      "list_all2 (\<lambda>d r. keep_rqst (event_key d ev) (fragment ev (sz d)) r) ds rs" "queued conts kv'' = queued conts kv' @ rs" "kv_tree kv'' = kv_tree kv'"
    using Cons.IH [OF f(5) _ _ _ f(6), of "k\<lparr>key_data := event_key d ev\<rparr>" d ?nd] Cons.prems(3,4) f(4) by auto
  show ?case using f(1-4) g by (intro exI [of _ kv''] exI [of _ "r # rs"]) (simp add: add.commute add.left_commute)
qed

section \<open>The event\<close>

definition readout_nodes :: "MinidaqRoNode \<Rightarrow> int \<Rightarrow> nat list \<Rightarrow> (MinidaqRoNode \<times> nat) list" where
  "readout_nodes ro base szs = map (\<lambda>i. (ro\<lparr>ro_id := base + int i\<rparr>, szs ! i)) [0..<length szs]"

lemma bytes_distinct:
  assumes "n \<le> 256"
  shows "distinct (map (\<lambda>i. word_of_int (base + int i) :: u8) [0..<n])"
proof -
  have "i = j" if "i < n" "j < n" "(word_of_int (base + int i) :: u8) = word_of_int (base + int j)" for i j
  proof -
    have "(of_nat i :: u8) = of_nat j" using that(3) by simp
    then have "unat (of_nat i :: u8) = unat (of_nat j :: u8)" by simp
    then show ?thesis using that(1,2) assms by (simp add: unat_of_nat take_bit_nat_eq_self)
  qed
  then show ?thesis by (auto simp: distinct_map inj_on_def)
qed

text \<open>C17. An event goes through the benchmark unharmed. Readout nodes with consecutive subdetector numbers store the fragments of an
  event; the filter node that visits the same event then finds every fragment, none of its integrity checks
  fails, and when the event is accepted each fragment is handed to the offload thread, in order, with
  its key and exactly the bytes that were stored. The index is not changed by the filter.\<close>

theorem event_readout_then_filter:
  assumes "bench_ok a kv" "takes_updates a conts cap (length szs) kv" "0 < a_patience a" "localOnly ro" "localOnly ff"
    and "length szs \<le> 256" "\<forall>sz \<in> set szs. sz \<le> DATA_BUFFER_SIZE" "nSubdetectors ff = int (length szs)" "Accept draw ff" "0 < maxRetries ff"
    and "readouts a ev (readout_nodes ro (baseId ff) szs) kv = (Inr (), kv1)"
  shows "\<exists>k ev' kv2 rs. FfSeq_NextKey a ff ev kv1 = (Inr k, ev', kv1) \<and>
    FfSeq_Task a draw k ff cnt kv1 = (Inr (), ff\<lparr>nIntegrityChecks := nIntegrityChecks ff + of_nat (length szs)\<rparr>, cnt, kv2) \<and>
    kv_tree kv2 = kv_tree kv1 \<and> queued conts kv2 = queued conts kv @ rs \<and>
    list_all2 (\<lambda>i r. keep_rqst (event_key (baseId ff + int i) ev) (fragment ev (szs ! i)) r) [0..<length szs] rs"
proof -
  let ?ns = "readout_nodes ro (baseId ff) szs" and ?n = "length szs"
  have "distinct (map (\<lambda>n. word_of_int (ro_id (fst n)) :: u8) ?ns)"
    using bytes_distinct [OF assms(6), of "baseId ff"] by (simp add: readout_nodes_def o_def)
  moreover have "\<forall>n \<in> set ?ns. localOnly (fst n) \<and> snd n \<le> DATA_BUFFER_SIZE" using assms(4,7) by (auto simp: readout_nodes_def)
  ultimately have r: "bench_ok a kv1" "same_site kv kv1"
      "\<forall>n \<in> set ?ns. art_map (kv_tree kv1) (event_key (ro_id (fst n)) ev) = Some (PmemVal (fragment ev (snd n)))"
    using readouts_spec [OF assms(1) _ assms(11)] by blast+
  let ?k = "\<lparr>key_data = event_key (baseId ff) ev, key_attr = NOT_BUFFERED\<rparr>"
  define sz where "sz d = szs ! nat (d - baseId ff)" for d
  have stored: "\<forall>d \<in> set (fragment_ids ff). art_map (kv_tree kv1) (event_key d ev) = Some (PmemVal (fragment ev (sz d)))"
    using r(3) assms(8) by (auto simp: fragment_ids_def readout_nodes_def sz_def)
  have room: "takes_updates a conts cap (length (fragment_ids ff)) kv1"
    using assms(2,8) r(2) by (simp add: takes_updates_def same_site_def fragment_ids_def kv_isOffloadEnabled_def)
  obtain kv2 rs where f: "filter_fragments a (get_retry a (maxRetries ff)) True (fragment_ids ff) ?k ff cnt kv1 =
        (Inr (), ff\<lparr>nIntegrityChecks := nIntegrityChecks ff + of_nat (length (fragment_ids ff))\<rparr>, cnt, kv2)"
      "list_all2 (\<lambda>d r. keep_rqst (event_key d ev) (fragment ev (sz d)) r) (fragment_ids ff) rs"
      "queued conts kv2 = queued conts kv1 @ rs" "kv_tree kv2 = kv_tree kv1"
    using filter_fragments_kept [OF r(1) _ _ fetches_get(2) [OF assms(10)] assms(3) stored room, of ?k "baseId ff" ff cnt] by auto
  have "FfSeq_NextKey a ff ev kv1 = (Inr ?k, ev + word_of_int (nTh ff), kv1)"
    using r(1) assms(5) by (simp add: FfSeq_NextKey_def next_event_key_local bench_ok_def SIZEOF_MinidaqKey_def)
  moreover have "FfSeq_Task a draw ?k ff cnt kv1 = (Inr (), ff\<lparr>nIntegrityChecks := nIntegrityChecks ff + of_nat ?n\<rparr>, cnt, kv2)"
    using f(1) assms(8,9) by (simp add: FfSeq_Task_def SIZEOF_MinidaqKey_def fragment_ids_def)
  moreover have "queued conts kv2 = queued conts kv @ rs" using f(3) r(2) by (simp add: same_site_def)
  moreover have "list_all2 (\<lambda>i r. keep_rqst (event_key (baseId ff + int i) ev) (fragment ev (szs ! i)) r) [0..<?n] rs"
    using f(2) assms(8) by (simp add: fragment_ids_def list.rel_map sz_def)
  ultimately show ?thesis using f(4) by blast
qed

text \<open>One subdetector, on the store of the examples with an idle device.\<close>

definition bench_kv :: "(rqst list, task list, bytes list, pm_rqst list, unit) KVStore" where
  "bench_kv = disk_kv empty_tree"

definition ex_ff :: MinidaqFfNode where
  "ex_ff = new_MinidaqFfNode\<lparr>localOnly := True, baseId := 100, nSubdetectors := 1\<rparr>"

lemma ex_event_key: "event_key 100 1 = [1, 0, 0, 0, 0, 100, 0, 0]"
  by (simp add: event_key_def SIZEOF_eventId_def le_bytes_def upt_rec)

lemma ex_event_alloc: "\<not> isl (fst (AllocValueForKey small_reserve (event_key 100 1) n empty_tree))"
  unfolding ex_event_key
  by (simp add: AllocValueForKey_def empty_tree_def LEAF_DEPTH_8 numeral_eq_Suc fresh_wrapper_def
      allocateFullLevels_def new_child_def LEVEL_TYPE_def child_class_def small_reserve_def empty_mem_def Let_def set_wrapper_def)

lemma ex_bench: "bench_ok ex_app bench_kv" "kv_tree bench_kv = empty_tree" "takes_updates ex_app id 64 1 bench_kv"
proof -
  show "bench_ok ex_app bench_kv"
    by (simp add: bench_ok_def bench_kv_def disk_kv_def ex_app_def empty_tree_inv ex_kvo_def ex_outside_def small_reserve_fresh ex_kv_keySize
        SIZEOF_MinidaqKey_def ex_kv_fields ex_options_def default_options_def)
  show "kv_tree bench_kv = empty_tree" by (simp add: bench_kv_def disk_kv_def)
  show "takes_updates ex_app id 64 1 bench_kv"
    by (simp add: takes_updates_def ex_app_def ex_kvo_def ex_outside_def bench_kv_def disk_kv_def kv_isOffloadEnabled_def isOffloadEnabled_def
        ex_sys_def ex_dev_def ctx512_def) (simp add: ring_ok_def list_ring_def)
qed

lemma ex_readout: "\<exists>kv1. readouts ex_app 1 (readout_nodes ex_ro 100 [7]) bench_kv = (Inr (), kv1)"
proof -
  let ?k = "\<lparr>key_data = event_key 100 1, key_attr = NOT_BUFFERED\<rparr>" and ?nd = "ex_ro\<lparr>ro_id := 100\<rparr>"
  have nx: "Ro_NextKey ex_app ?nd 1 bench_kv = (Inr ?k, 2, bench_kv)"
    using ex_bench(1) by (simp add: Ro_NextKey_def next_event_key_local bench_ok_def SIZEOF_MinidaqKey_def ex_ro_def new_MinidaqRoNode_def
        new_MinidaqNode_def MinidaqNode.defs)
  have "length (key_data ?k) = 8" "key_attr ?k = NOT_BUFFERED" "7 \<le> DATA_BUFFER_SIZE" by (simp_all add: DATA_BUFFER_SIZE_def)
  from ex_bench(1) this show ?thesis
  proof (cases rule: Ro_Task_local [where nd = ?nd and cnt = 0])
    case (fail t1)
    then show ?thesis using ex_event_alloc by (simp add: ex_bench(2) ex_app_def ex_kvo_def ex_outside_def)
  next
    case (stored t2 q)
    then show ?thesis using nx by (simp add: readout_nodes_def)
  qed
qed

theorem event_readout_then_filter_witness:
  "\<exists>kv1 k ev' kv2 r. readouts ex_app 1 (readout_nodes ex_ro 100 [7]) bench_kv = (Inr (), kv1) \<and> FfSeq_NextKey ex_app ex_ff 1 kv1 = (Inr k, ev', kv1) \<and>
    FfSeq_Task ex_app False k ex_ff 0 kv1 = (Inr (), ex_ff\<lparr>nIntegrityChecks := 1\<rparr>, 0, kv2) \<and>
    queued id kv2 = [r] \<and> rq_key r = [1, 0, 0, 0, 0, 100, 0, 0] \<and> rq_value r = Bytes [1, 0, 0, 0, 0, 1, 0]"
proof -
  obtain kv1 where kv1: "readouts ex_app 1 (readout_nodes ex_ro 100 [7]) bench_kv = (Inr (), kv1)" using ex_readout by blast
  have ff: "localOnly ex_ro" "localOnly ex_ff" "nSubdetectors ex_ff = int (length [7 :: nat])" "Accept False ex_ff" "0 < maxRetries ex_ff" "baseId ex_ff = 100"
     "nIntegrityChecks ex_ff = 0" "0 < a_patience ex_app"
    by (simp_all add: ex_ro_def ex_ff_def ex_app_def new_MinidaqRoNode_def new_MinidaqFfNode_def new_MinidaqNode_def MinidaqNode.defs Accept_def)
  have u: "takes_updates ex_app id 64 (length [7 :: nat]) bench_kv" using ex_bench(3) by simp
  have q: "rqstRing (sys_poller (kv_sys bench_kv)) = []" by (simp add: bench_kv_def disk_kv_def ex_sys_def)
  have v: "fragment 1 7 = [1, 0, 0, 0, 0, 1, 0]" by (simp add: fragment_def FillBuffer_def GetBufferByte_def event_key_def SIZEOF_eventId_def le_bytes_def upt_rec)
  obtain k ev' kv2 rs where f: "FfSeq_NextKey ex_app ex_ff 1 kv1 = (Inr k, ev', kv1)"
      "FfSeq_Task ex_app False k ex_ff 0 kv1 = (Inr (), ex_ff\<lparr>nIntegrityChecks := nIntegrityChecks ex_ff + of_nat (length [7 :: nat])\<rparr>, 0, kv2)"
      "queued id kv2 = queued id bench_kv @ rs"
      "list_all2 (\<lambda>i r. keep_rqst (event_key (baseId ex_ff + int i) 1) (fragment 1 ([7] ! i)) r) [0..<length [7 :: nat]] rs"
    using event_readout_then_filter [OF ex_bench(1) u ff(8,1,2) _ _ ff(3-5), of 1 kv1 0] kv1 by (auto simp: ff(6) DATA_BUFFER_SIZE_def)
  obtain r where r: "rs = [r]" "keep_rqst (event_key 100 1) (fragment 1 7) r" using f(4) by (auto simp: ff(6) list_all2_Cons1)
  have "readouts ex_app 1 (readout_nodes ex_ro 100 [7]) bench_kv = (Inr (), kv1) \<and> FfSeq_NextKey ex_app ex_ff 1 kv1 = (Inr k, ev', kv1) \<and>
    FfSeq_Task ex_app False k ex_ff 0 kv1 = (Inr (), ex_ff\<lparr>nIntegrityChecks := 1\<rparr>, 0, kv2) \<and>
    queued id kv2 = [r] \<and> rq_key r = [1, 0, 0, 0, 0, 100, 0, 0] \<and> rq_value r = Bytes [1, 0, 0, 0, 0, 1, 0]"
    using kv1 f(1-3) r by (simp add: ff(7) q keep_rqst_def v ex_event_key)
  then show ?thesis by (intro exI)
qed

end
