(* ===== verification/Minidaq_Exec.thy ===== *)
theory Minidaq_Exec
  imports Minidaq_Node
begin

text \<open>
  A worker thread of the benchmark, \<open>MinidaqNode::_Execute\<close>: it runs the task of its node for a ramp-up time
  and then, in samples, for the test time, while other threads stop the test, callbacks count
  completions and the clock runs. The thread is a step relation over its control points; each access to a shared counter is
  a step of its own.
\<close>

section \<open>Timers\<close>

text \<open>\<^verbatim>\<open>MinidaqTimerHR.cpp\<close>; the reading of the clock, in nanoseconds, is an argument.\<close>

record MinidaqTimerHR =
  tm_expired :: bool
  tm_start :: int
  tm_reqInterval :: int
  tm_currInterval :: int

definition timer_restart :: "int \<Rightarrow> MinidaqTimerHR \<Rightarrow> MinidaqTimerHR" where
  "timer_restart now tm = tm\<lparr>tm_expired := False, tm_start := now\<rparr>"

definition Restart_s :: "int \<Rightarrow> int \<Rightarrow> MinidaqTimerHR \<Rightarrow> MinidaqTimerHR" where
  "Restart_s interval_s now tm = timer_restart now (tm\<lparr>tm_reqInterval := interval_s * 1000000000\<rparr>)"

definition Restart_ms :: "int \<Rightarrow> int \<Rightarrow> MinidaqTimerHR \<Rightarrow> MinidaqTimerHR" where
  "Restart_ms interval_ms now tm = timer_restart now (tm\<lparr>tm_reqInterval := interval_ms * 1000000\<rparr>)"

definition Restart_us :: "int \<Rightarrow> int \<Rightarrow> MinidaqTimerHR \<Rightarrow> MinidaqTimerHR" where
  "Restart_us interval_us now tm = timer_restart now (tm\<lparr>tm_reqInterval := interval_us * 1000\<rparr>)"

definition IsExpired :: "int \<Rightarrow> MinidaqTimerHR \<Rightarrow> bool \<times> MinidaqTimerHR" where
  "IsExpired now tm =
     (if tm_expired tm then (True, tm)
      else let tm = tm\<lparr>tm_currInterval := now - tm_start tm\<rparr>
           in if tm_reqInterval tm \<le> tm_currInterval tm then (True, tm\<lparr>tm_expired := True\<rparr>) else (False, tm))"

definition GetElapsed_ns :: "int \<Rightarrow> MinidaqTimerHR \<Rightarrow> u64 \<times> MinidaqTimerHR" where
  "GetElapsed_ns now tm = (let tm = snd (IsExpired now tm) in (word_of_int (tm_currInterval tm), tm))"

section \<open>The thread\<close>

datatype exec_pc = Ramp | Start_c | Start_err | Sample | Inner | Again | Fetch_c | Fetch_err | Record | Stop | Drain_c | Drain_err | Drain_test | Finished

text \<open>The locals of the thread, the flag it shares, and \<open>'s\<close> for the store, the node and the thread's event counter. The last
  part is no state of the code but its history: tasks run, tasks run for samples and how many of them threw, the
  completions counted since the counters were reset, the samples recorded, the sample given up, and how often the limit
  of iterations was met.\<close>

record ('h, 's) exec_state =
  x_pc :: exec_pc
  x_i :: u64
  x_s :: MinidaqSample
  x_c :: u64
  x_err :: u64
  x_timerTest :: MinidaqTimerHR
  x_timerSample :: MinidaqTimerHR
  x_stats :: "'h MinidaqStats"
  x_stopped :: bool
  x_env :: 's
  h_run :: nat
  h_reqs :: nat
  h_errs :: nat
  h_compl :: u64
  h_complErr :: u64
  h_samples :: "MinidaqSample list"
  h_lost :: MinidaqSample
  h_max :: nat

text \<open>A task, the next key included: it may throw, and adds to the two counters what it completes at once.\<close>

type_synonym 's turn = "'s \<Rightarrow> (exn + unit) \<times> u64 \<times> u64 \<times> 's"

definition at_limit :: "'n MinidaqNode_scheme \<Rightarrow> ('h, 's) exec_state \<Rightarrow> bool" where
  "at_limit nd x \<longleftrightarrow> maxIterations nd \<noteq> 0 \<and> maxIterations nd < x_i x + 1"

definition run_task :: "'n MinidaqNode_scheme \<Rightarrow> 's turn \<Rightarrow> ('h, 's) exec_state \<Rightarrow> bool \<times> ('h, 's) exec_state" where
  "run_task nd turn x =
     (case turn (x_env x) of
        (r, dc, de, s) \<Rightarrow>
          (isl r, x\<lparr>x_i := x_i x + 1, x_s := (x_s x)\<lparr>nRequests := nRequests (x_s x) + 1\<rparr>, x_c := x_c x + dc, x_err := x_err x + de,
             x_env := s, x_stopped := (x_stopped x \<or> isl r \<and> stopOnError nd), h_run := h_run x + 1,
             h_compl := h_compl x + dc, h_complErr := h_complErr x + de\<rparr>))"

text \<open>What the other threads may do between two steps: callbacks count, the flag is set, the rest changes in any way.\<close>

definition interfere :: "u64 \<Rightarrow> u64 \<Rightarrow> bool \<Rightarrow> 's \<Rightarrow> ('h, 's) exec_state \<Rightarrow> ('h, 's) exec_state" where
  "interfere dc de stop s x = x\<lparr>x_c := x_c x + dc, x_err := x_err x + de, x_stopped := (x_stopped x \<or> stop), x_env := s,
     h_compl := h_compl x + dc, h_complErr := h_complErr x + de\<rparr>"

text \<open>The steps, in the order of the code. \<open>quiesce\<close> is the call that waits for the offload: \<open>None\<close> when it does not return.\<close>

inductive exec_step :: "'h hdr \<Rightarrow> 'n MinidaqNode_scheme \<Rightarrow> 's turn \<Rightarrow> ('s \<Rightarrow> 's option) \<Rightarrow> ('h, 's) exec_state \<Rightarrow> ('h, 's) exec_state \<Rightarrow> bool"
  for lib :: "'h hdr" and nd :: "'n MinidaqNode_scheme" and turn :: "'s turn" and quiesce :: "'s \<Rightarrow> 's option" where
  others: "exec_step lib nd turn quiesce x (interfere dc de stop s x)"
| ramp_end: "x_pc x = Ramp \<Longrightarrow> IsExpired now (x_timerTest x) = (ex, tm) \<Longrightarrow> ex \<or> x_stopped x \<Longrightarrow>
    exec_step lib nd turn quiesce x (x\<lparr>x_pc := Start_c, x_timerTest := Restart_ms (tTest_ms nd) now' tm\<rparr>)"
| ramp_limit: "x_pc x = Ramp \<Longrightarrow> IsExpired now (x_timerTest x) = (False, tm) \<Longrightarrow> \<not> x_stopped x \<Longrightarrow> at_limit nd x \<Longrightarrow>
    exec_step lib nd turn quiesce x
      (x\<lparr>x_pc := Start_c, x_timerTest := Restart_ms (tTest_ms nd) now' tm, x_i := x_i x + 1, x_stopped := True, h_max := h_max x + 1\<rparr>)"
| ramp_task: "x_pc x = Ramp \<Longrightarrow> IsExpired now (x_timerTest x) = (False, tm) \<Longrightarrow> \<not> x_stopped x \<Longrightarrow> \<not> at_limit nd x \<Longrightarrow>
    run_task nd turn x = (threw, x') \<Longrightarrow> exec_step lib nd turn quiesce x (x'\<lparr>x_timerTest := tm\<rparr>)"
| start_c: "x_pc x = Start_c \<Longrightarrow> exec_step lib nd turn quiesce x (x\<lparr>x_pc := Start_err, x_c := 0, h_compl := 0\<rparr>)"
| start_err: "x_pc x = Start_err \<Longrightarrow> exec_step lib nd turn quiesce x (x\<lparr>x_pc := Sample, x_err := 0, h_complErr := 0\<rparr>)"
| sample_end: "x_pc x = Sample \<Longrightarrow> IsExpired now (x_timerTest x) = (True, tm) \<Longrightarrow>
    exec_step lib nd turn quiesce x (x\<lparr>x_pc := Stop, x_timerTest := tm\<rparr>)"
| sample_begin: "x_pc x = Sample \<Longrightarrow> IsExpired now (x_timerTest x) = (False, tm) \<Longrightarrow>
    exec_step lib nd turn quiesce x
      (x\<lparr>x_pc := Inner, x_timerTest := tm, x_s := sample_Reset, x_timerSample := Restart_us (tIter_us nd) now' (x_timerSample x)\<rparr>)"
| inner_limit: "x_pc x = Inner \<Longrightarrow> at_limit nd x \<Longrightarrow>
    exec_step lib nd turn quiesce x (x\<lparr>x_pc := Stop, x_i := x_i x + 1, x_stopped := True, h_max := h_max x + 1, h_lost := x_s x\<rparr>)"
| inner_task: "x_pc x = Inner \<Longrightarrow> \<not> at_limit nd x \<Longrightarrow> run_task nd turn x = (threw, x') \<Longrightarrow>
    exec_step lib nd turn quiesce x
      (x'\<lparr>x_pc := Again, x_s := (if threw then (x_s x')\<lparr>nErrRequests := nErrRequests (x_s x') + 1\<rparr> else x_s x'),
         h_reqs := h_reqs x' + 1, h_errs := h_errs x' + (if threw then 1 else 0)\<rparr>)"
| again_stopped: "x_pc x = Again \<Longrightarrow> x_stopped x \<Longrightarrow> exec_step lib nd turn quiesce x (x\<lparr>x_pc := Stop, h_lost := x_s x\<rparr>)"
| again_more: "x_pc x = Again \<Longrightarrow> \<not> x_stopped x \<Longrightarrow> IsExpired now (x_timerSample x) = (False, tm) \<Longrightarrow>
    exec_step lib nd turn quiesce x (x\<lparr>x_pc := Inner, x_timerSample := tm\<rparr>)"
| again_done: "x_pc x = Again \<Longrightarrow> \<not> x_stopped x \<Longrightarrow> IsExpired now (x_timerSample x) = (True, tm) \<Longrightarrow> GetElapsed_ns now' tm = (ns, tm') \<Longrightarrow>
    exec_step lib nd turn quiesce x (x\<lparr>x_pc := Fetch_c, x_timerSample := tm', x_s := (x_s x)\<lparr>interval_ns := ns\<rparr>\<rparr>)"
| fetch_c: "x_pc x = Fetch_c \<Longrightarrow>
    exec_step lib nd turn quiesce x (x\<lparr>x_pc := Fetch_err, x_s := (x_s x)\<lparr>nCompletions := x_c x\<rparr>, x_c := 0\<rparr>)"
| fetch_err: "x_pc x = Fetch_err \<Longrightarrow>
    exec_step lib nd turn quiesce x (x\<lparr>x_pc := Record, x_s := (x_s x)\<lparr>nErrCompletions := x_err x\<rparr>, x_err := 0\<rparr>)"
| record_sample: "x_pc x = Record \<Longrightarrow>
    exec_step lib nd turn quiesce x (x\<lparr>x_pc := Sample, x_stats := RecordSample lib (x_s x) (x_stats x), h_samples := h_samples x @ [x_s x]\<rparr>)"
| stop: "x_pc x = Stop \<Longrightarrow> quiesce (x_env x) = Some s \<Longrightarrow> exec_step lib nd turn quiesce x (x\<lparr>x_pc := Drain_c, x_stopped := True, x_env := s\<rparr>)"
| drain_c: "x_pc x = Drain_c \<Longrightarrow> exec_step lib nd turn quiesce x (x\<lparr>x_pc := Drain_err, x_c := 0\<rparr>)"
| drain_err: "x_pc x = Drain_err \<Longrightarrow> exec_step lib nd turn quiesce x (x\<lparr>x_pc := Drain_test, x_err := 0\<rparr>)"
| drain_again: "x_pc x = Drain_test \<Longrightarrow> x_c x \<noteq> 0 \<or> x_err x \<noteq> 0 \<Longrightarrow> exec_step lib nd turn quiesce x (x\<lparr>x_pc := Drain_c\<rparr>)"
| finish: "x_pc x = Drain_test \<Longrightarrow> x_c x = 0 \<and> x_err x = 0 \<Longrightarrow> exec_step lib nd turn quiesce x (x\<lparr>x_pc := Finished\<rparr>)"

text \<open>The start, after \<open>_Affinity\<close> and \<open>_Setup\<close>: the counters have no value yet, any they may have is possible.\<close>

definition exec_start :: "'n MinidaqNode_scheme \<Rightarrow> 'h MinidaqStats \<Rightarrow> int \<Rightarrow> u64 \<Rightarrow> u64 \<Rightarrow> MinidaqTimerHR \<Rightarrow> bool \<Rightarrow> 's \<Rightarrow> ('h, 's) exec_state" where
  "exec_start nd st0 now c c_err tm stopped s =
     \<lparr>x_pc = Ramp, x_i = 0, x_s = sample_Reset, x_c = c, x_err = c_err, x_timerTest = Restart_ms (tRamp_ms nd) now tm, x_timerSample = tm,
      x_stats = st0, x_stopped = stopped, x_env = s, h_run = 0, h_reqs = 0, h_errs = 0, h_compl = 0, h_complErr = 0, h_samples = [],
      h_lost = sample_Reset, h_max = 0\<rparr>"

inductive exec_reach :: "'h hdr \<Rightarrow> 'n MinidaqNode_scheme \<Rightarrow> 's turn \<Rightarrow> ('s \<Rightarrow> 's option) \<Rightarrow> ('h, 's) exec_state \<Rightarrow> ('h, 's) exec_state \<Rightarrow> bool"
  for lib :: "'h hdr" and nd :: "'n MinidaqNode_scheme" and turn :: "'s turn" and quiesce :: "'s \<Rightarrow> 's option" and x0 :: "('h, 's) exec_state" where
  start: "exec_reach lib nd turn quiesce x0 x0"
| step: "exec_reach lib nd turn quiesce x0 x \<Longrightarrow> exec_step lib nd turn quiesce x x' \<Longrightarrow> exec_reach lib nd turn quiesce x0 x'"

text \<open>The number the thread prints at the end.\<close>

definition printed_iterations :: "('h, 's) exec_state \<Rightarrow> u64" where
  "printed_iterations x = x_i x - 1"

section \<open>Accounting\<close>

text \<open>The sample being filled, and what all samples say.\<close>

definition open_sample :: "('h, 's) exec_state \<Rightarrow> MinidaqSample" where
  "open_sample x = (if x_pc x \<in> {Inner, Again, Fetch_c, Fetch_err, Record} then x_s x else sample_Reset)"

definition total :: "(MinidaqSample \<Rightarrow> u64) \<Rightarrow> ('h, 's) exec_state \<Rightarrow> u64" where
  "total f x = sum_list (map f (h_samples x)) + f (open_sample x)"

definition measuring :: "exec_pc \<Rightarrow> bool" where
  "measuring pc \<longleftrightarrow> pc \<in> {Sample, Inner, Again, Fetch_c, Fetch_err, Record, Stop}"

text \<open>The parts of the invariant: iterations, requests, completions. A sample under way has no completions before they are fetched.\<close>

definition iterations_ok :: "'n MinidaqNode_scheme \<Rightarrow> ('h, 's) exec_state \<Rightarrow> bool" where
  "iterations_ok nd x \<longleftrightarrow> x_i x = of_nat (h_run x + h_max x) \<and> (maxIterations nd \<noteq> 0 \<longrightarrow> h_run x \<le> unat (maxIterations nd)) \<and>
     (x_pc x \<in> {Ramp, Start_c, Start_err, Sample, Inner, Again, Fetch_c, Fetch_err, Record} \<longrightarrow> h_max x \<le> 1) \<and> (x_pc x = Ramp \<longrightarrow> h_max x = 0)"

definition requests_ok :: "('h, 's) exec_state \<Rightarrow> bool" where
  "requests_ok x \<longleftrightarrow> total nRequests x + nRequests (h_lost x) = of_nat (h_reqs x) \<and> total nErrRequests x + nErrRequests (h_lost x) = of_nat (h_errs x) \<and>
     (x_pc x \<notin> {Stop, Drain_c, Drain_err, Drain_test, Finished} \<longrightarrow> h_lost x = sample_Reset) \<and>
     (x_pc x \<in> {Ramp, Start_c, Start_err} \<longrightarrow> h_samples x = [])"

definition completions_ok :: "('h, 's) exec_state \<Rightarrow> bool" where
  "completions_ok x \<longleftrightarrow>
     (x_pc x = Start_err \<or> measuring (x_pc x) \<longrightarrow> total nCompletions x + x_c x = h_compl x) \<and>
     (measuring (x_pc x) \<longrightarrow> total nErrCompletions x + x_err x = h_complErr x) \<and>
     (x_pc x \<in> {Inner, Again, Fetch_c} \<longrightarrow> nCompletions (x_s x) = 0) \<and> (x_pc x \<in> {Inner, Again, Fetch_c, Fetch_err} \<longrightarrow> nErrCompletions (x_s x) = 0) \<and>
     (x_pc x \<in> {Ramp, Start_c, Start_err} \<longrightarrow> h_samples x = [])"

lemma below_limit:
  assumes "\<not> at_limit nd x" "maxIterations nd \<noteq> 0" "unat (maxIterations nd) < 2 ^ 63" "x_i x = of_nat (h_run x + h_max x)"
    "h_run x \<le> unat (maxIterations nd)" "h_max x \<le> 1"
  shows "Suc (h_run x) \<le> unat (maxIterations nd)"
proof -
  have "h_run x + h_max x + 1 < 2 ^ LENGTH(64)" using assms(3,5,6) by simp
  then have "unat (of_nat (h_run x + h_max x + 1) :: u64) = h_run x + h_max x + 1"
    by (simp only: unat_of_nat take_bit_eq_mod mod_less)
  moreover have "x_i x + 1 = of_nat (h_run x + h_max x + 1)" using assms(4) by simp
  ultimately have "h_run x + h_max x + 1 \<le> unat (maxIterations nd)"
    using assms(1,2) unfolding at_limit_def word_less_nat_alt by (simp only: not_less) simp
  then show ?thesis by simp
qed

lemmas exec_defs = open_sample_def total_def measuring_def interfere_def run_task_def sample_Reset_def

lemma interfere_simps [simp]:
  "total f (interfere dc de stop s x) = total f x" "x_pc (interfere dc de stop s x) = x_pc x" "h_lost (interfere dc de stop s x) = h_lost x"
  "h_reqs (interfere dc de stop s x) = h_reqs x" "h_errs (interfere dc de stop s x) = h_errs x" "h_samples (interfere dc de stop s x) = h_samples x"
  "x_s (interfere dc de stop s x) = x_s x" "x_c (interfere dc de stop s x) = x_c x + dc" "h_compl (interfere dc de stop s x) = h_compl x + dc"
  "x_err (interfere dc de stop s x) = x_err x + de" "h_complErr (interfere dc de stop s x) = h_complErr x + de"
  by (simp_all add: interfere_def total_def open_sample_def)

lemma step_iterations:
  assumes "exec_step lib nd turn quiesce x x'" "iterations_ok nd x" "unat (maxIterations nd) < 2 ^ 63"
  shows "iterations_ok nd x'"
  using assms(1)
proof (cases rule: exec_step.cases)
  case (ramp_task now tm threw y)
  then show ?thesis using assms(2) below_limit [OF ramp_task(5) _ assms(3)] by (auto simp: iterations_ok_def run_task_def split: prod.splits)
next
  case (inner_task threw y)
  then show ?thesis using assms(2) below_limit [OF inner_task(3) _ assms(3)] by (auto simp: iterations_ok_def run_task_def split: prod.splits)
qed (use assms(2) in \<open>auto simp: iterations_ok_def interfere_def\<close>)

lemma step_requests:
  assumes "exec_step lib nd turn quiesce x x'" "requests_ok x"
  shows "requests_ok x'"
  using assms(1)
proof (cases rule: exec_step.cases)
  case (others dc de stop s)
  then show ?thesis using assms(2) by (simp add: requests_ok_def)
next
  case (inner_task threw y)
  have r: "of_nat (h_reqs x) = sum_list (map nRequests (h_samples x)) + nRequests (x_s x)"
    "of_nat (h_errs x) = sum_list (map nErrRequests (h_samples x)) + nErrRequests (x_s x)" "h_lost x = sample_Reset"
    using assms(2) inner_task(2) by (auto simp: requests_ok_def total_def open_sample_def sample_Reset_def)
  obtain e dc de s where "turn (x_env x) = (e, dc, de, s)" by (cases "turn (x_env x)") simp
  then show ?thesis using inner_task(1,2,4) r
    by (cases "isl e") (auto simp: requests_ok_def exec_defs r add.assoc add.commute)
qed (use assms(2) in \<open>auto simp: requests_ok_def exec_defs split: prod.splits\<close>)

lemma step_completions:
  assumes "exec_step lib nd turn quiesce x x'" "completions_ok x"
  shows "completions_ok x'"
  using assms(1)
proof (cases rule: exec_step.cases)
  case (others dc de stop s)
  then show ?thesis using assms(2) by (auto simp: completions_ok_def)
next
  case (inner_task threw y)
  have r: "h_compl x = sum_list (map nCompletions (h_samples x)) + x_c x" "h_complErr x = sum_list (map nErrCompletions (h_samples x)) + x_err x"
      "nCompletions (x_s x) = 0" "nErrCompletions (x_s x) = 0"
    using assms(2) inner_task(2) by (auto simp: completions_ok_def total_def open_sample_def measuring_def)
  obtain e dc de s where "turn (x_env x) = (e, dc, de, s)" by (cases "turn (x_env x)") simp
  then show ?thesis using inner_task(1,2,4) r
    by (cases "isl e") (auto simp: completions_ok_def exec_defs r add.assoc)
qed (use assms(2) in \<open>auto simp: completions_ok_def exec_defs split: prod.splits\<close>)

lemma step_stats:
  assumes "exec_step lib nd turn quiesce x x'" "x_stats x = fold (RecordSample lib) (h_samples x) st0"
  shows "x_stats x' = fold (RecordSample lib) (h_samples x') st0"
  using assms by (cases rule: exec_step.cases) (auto simp: exec_defs split: prod.splits)

text \<open>C19. The books of a worker thread balance, whatever the other threads and the callbacks do: at every moment the
  statistics are those of the samples recorded; the tasks run for samples are exactly those its samples report, with the one
  under way or given up, and so are the ones that threw; while it measures, every completion counted since the start is
  in exactly one sample or still in its counter; and no more tasks are run than the limit allows. The number of
  iterations it prints counts the attempts stopped by the limit too, less one.\<close>

theorem executor_accounts:
  assumes "exec_reach lib nd turn quiesce (exec_start nd st0 now c c_err tm stopped s) x" "unat (maxIterations nd) < 2 ^ 63"
  shows "x_stats x = fold (RecordSample lib) (h_samples x) st0 \<and>
    total nRequests x + nRequests (h_lost x) = of_nat (h_reqs x) \<and> total nErrRequests x + nErrRequests (h_lost x) = of_nat (h_errs x) \<and>
    (measuring (x_pc x) \<longrightarrow> total nCompletions x + x_c x = h_compl x \<and> total nErrCompletions x + x_err x = h_complErr x) \<and>
    (maxIterations nd \<noteq> 0 \<longrightarrow> h_run x \<le> unat (maxIterations nd)) \<and> printed_iterations x = of_nat (h_run x + h_max x) - 1"
proof -
  have "x_stats x = fold (RecordSample lib) (h_samples x) st0 \<and> requests_ok x \<and> completions_ok x \<and> iterations_ok nd x"
    using assms(1)
  proof (induction rule: exec_reach.induct)
    case start
    then show ?case
      by (simp add: exec_start_def requests_ok_def completions_ok_def iterations_ok_def total_def open_sample_def measuring_def sample_Reset_def)
  next
    case (step x x')
    then show ?case using step_stats [OF step(2)] step_requests [OF step(2)] step_completions [OF step(2)] step_iterations [OF step(2) _ assms(2)] by blast
  qed
  then show ?thesis by (simp add: requests_ok_def completions_ok_def iterations_ok_def printed_iterations_def)
qed

text \<open>One sample: the task completes at once, and a callback of an earlier task comes in before the counter is read.\<close>

definition ex_worker :: MinidaqNode where
  "ex_worker = new_MinidaqNode\<lparr>tTest_ms := 1, tIter_us := 1, maxIterations := 5\<rparr>"

definition ex_turn :: "unit turn" where
  "ex_turn s = (Inr (), 1, 0, s)"

definition ex_timer :: MinidaqTimerHR where
  "ex_timer = \<lparr>tm_expired = False, tm_start = 0, tm_reqInterval = 0, tm_currInterval = 0\<rparr>"

lemma ex_sampled:
  "\<exists>x. exec_reach list_hdr ex_worker ex_turn Some (exec_start ex_worker list_stats0 0 77 88 ex_timer False ()) x \<and> x_pc x = Sample \<and>
    h_samples x = [\<lparr>nRequests = 1, nCompletions = 2, nErrRequests = 0, nErrCompletions = 0, interval_ns = 1000\<rparr>]"
proof -
  note ex = ex_worker_def new_MinidaqNode_def ex_timer_def exec_start_def Restart_ms_def Restart_us_def timer_restart_def IsExpired_def
  define x0 where "x0 = (exec_start ex_worker list_stats0 0 77 88 ex_timer False () :: (int list, unit) exec_state)"
  define x1 where "x1 = x0\<lparr>x_pc := Start_c, x_timerTest := Restart_ms (tTest_ms ex_worker) 0 (snd (IsExpired 0 (x_timerTest x0)))\<rparr>"
  define x2 where "x2 = x1\<lparr>x_pc := Start_err, x_c := 0, h_compl := 0\<rparr>"
  define x3 where "x3 = x2\<lparr>x_pc := Sample, x_err := 0, h_complErr := 0\<rparr>"
  define x4 where "x4 = x3\<lparr>x_pc := Inner, x_timerTest := snd (IsExpired 10 (x_timerTest x3)), x_s := sample_Reset,
     x_timerSample := Restart_us (tIter_us ex_worker) 10 (x_timerSample x3)\<rparr>"
  define x5 where "x5 = (snd (run_task ex_worker ex_turn x4))\<lparr>x_pc := Again, h_reqs := 1\<rparr>"
  define x6 where "x6 = interfere 1 0 False () x5"
  define x7 where "x7 = x6\<lparr>x_pc := Fetch_c, x_timerSample := (x_timerSample x6)\<lparr>tm_expired := True, tm_currInterval := 1000\<rparr>,
     x_s := (x_s x6)\<lparr>interval_ns := 1000\<rparr>\<rparr>"
  define x8 where "x8 = x7\<lparr>x_pc := Fetch_err, x_s := (x_s x7)\<lparr>nCompletions := x_c x7\<rparr>, x_c := 0\<rparr>"
  define x9 where "x9 = x8\<lparr>x_pc := Record, x_s := (x_s x8)\<lparr>nErrCompletions := x_err x8\<rparr>, x_err := 0\<rparr>"
  define x10 where "x10 = x9\<lparr>x_pc := Sample, x_stats := RecordSample list_hdr (x_s x9) (x_stats x9), h_samples := h_samples x9 @ [x_s x9]\<rparr>"
  note xs = x0_def x1_def x2_def x3_def x4_def x5_def x6_def x7_def x8_def x9_def
  let ?step = "exec_step list_hdr ex_worker ex_turn Some"
  have "?step x0 x1" unfolding x1_def by (rule exec_step.ramp_end [where now = 0]) (simp_all add: x0_def ex Let_def)
  moreover have "?step x1 x2" unfolding x2_def by (rule exec_step.start_c) (simp add: x1_def)
  moreover have "?step x2 x3" unfolding x3_def by (rule exec_step.start_err) (simp add: x2_def)
  moreover have "?step x3 x4" unfolding x4_def by (rule exec_step.sample_begin [where now = 10]) (simp_all add: x3_def x2_def x1_def x0_def ex Let_def)
  moreover have "?step x4 x5"
  proof -
    have "?step x4 ((snd (run_task ex_worker ex_turn x4))\<lparr>x_pc := Again, x_s := (if False then (x_s (snd (run_task ex_worker ex_turn x4)))\<lparr>nErrRequests := 0\<rparr> else x_s (snd (run_task ex_worker ex_turn x4))),
         h_reqs := h_reqs (snd (run_task ex_worker ex_turn x4)) + 1, h_errs := h_errs (snd (run_task ex_worker ex_turn x4)) + (if False then 1 else 0)\<rparr>)"
      using exec_step.inner_task [of x4 ex_worker ex_turn False "snd (run_task ex_worker ex_turn x4)" list_hdr Some]
      by (simp add: x4_def x3_def x2_def x1_def x0_def ex at_limit_def run_task_def ex_turn_def)
    then show ?thesis by (simp add: x5_def x4_def x3_def x2_def x1_def x0_def exec_start_def run_task_def ex_turn_def)
  qed
  moreover have "?step x5 x6" unfolding x6_def by (rule exec_step.others)
  moreover have "?step x6 x7" unfolding x7_def
    by (rule exec_step.again_done [where now = 1010 and now' = 1010 and tm = "(x_timerSample x6)\<lparr>tm_expired := True, tm_currInterval := 1000\<rparr>"]) (simp_all add: xs ex Let_def interfere_def run_task_def ex_turn_def GetElapsed_ns_def)
  moreover have "?step x7 x8" unfolding x8_def by (rule exec_step.fetch_c) (simp add: x7_def)
  moreover have "?step x8 x9" unfolding x9_def by (rule exec_step.fetch_err) (simp add: x8_def)
  moreover have "?step x9 x10" unfolding x10_def by (rule exec_step.record_sample) (simp add: x9_def)
  ultimately have "exec_reach list_hdr ex_worker ex_turn Some x0 x10" by (meson exec_reach.intros)
  moreover have "x_pc x10 = Sample \<and> h_samples x10 = [\<lparr>nRequests = 1, nCompletions = 2, nErrRequests = 0, nErrCompletions = 0, interval_ns = 1000\<rparr>]"
    by (simp add: x10_def xs exec_start_def interfere_def run_task_def ex_turn_def sample_Reset_def)
  ultimately show ?thesis unfolding x0_def by blast
qed

theorem executor_accounts_witness:
  "\<exists>x. exec_reach list_hdr ex_worker ex_turn Some (exec_start ex_worker list_stats0 0 77 88 ex_timer False ()) x \<and>
    total nRequests x = 1 \<and> h_compl x = 2 + x_c x \<and> nRequests (h_lost x) + 1 = of_nat (h_reqs x) \<and> h_run x \<le> 5 \<and>
    x_stats x = RecordSample list_hdr \<lparr>nRequests = 1, nCompletions = 2, nErrRequests = 0, nErrCompletions = 0, interval_ns = 1000\<rparr> list_stats0"
proof -
  obtain x where x: "exec_reach list_hdr ex_worker ex_turn Some (exec_start ex_worker list_stats0 0 77 88 ex_timer False ()) x" "x_pc x = Sample"
    "h_samples x = [\<lparr>nRequests = 1, nCompletions = 2, nErrRequests = 0, nErrCompletions = 0, interval_ns = 1000\<rparr>]"
    using ex_sampled by blast
  have m: "unat (maxIterations ex_worker) = 5" "maxIterations ex_worker \<noteq> 0" by (simp_all add: ex_worker_def)
  have "unat (maxIterations ex_worker) < 2 ^ 63" unfolding m(1) by simp
  from executor_accounts [OF x(1) this] m x(2,3) have "total nRequests x = 1 \<and> h_compl x = 2 + x_c x \<and> nRequests (h_lost x) + 1 = of_nat (h_reqs x) \<and> h_run x \<le> 5 \<and>
    x_stats x = RecordSample list_hdr \<lparr>nRequests = 1, nCompletions = 2, nErrRequests = 0, nErrCompletions = 0, interval_ns = 1000\<rparr> list_stats0"
    by (auto simp: total_def open_sample_def measuring_def sample_Reset_def add.commute)
  then show ?thesis using x(1) by blast
qed

end
