(* ===== verification/Minidaq_Main.thy ===== *)
theory Minidaq_Main
  imports Minidaq_Event Minidaq_Exec Config_File
begin

text \<open>
  The benchmark program, \<^verbatim>\<open>apps/minidaq/minidaq.cpp\<close>: the options it opens the store with, the nodes it makes from its
  settings, the cores it gives to their threads, and what it does with the results. The parser of the
  command line is a library; its results are the fields of a record.
\<close>

section \<open>Settings\<close>

record settings =
  g_pmem_path :: string
  g_pmem_size :: nat
  g_fSize :: nat
  g_nPoolers :: int
  g_nDhtThreads :: int
  g_bDhtId :: int
  g_bCoreId :: int
  g_nCores :: int
  g_maxReadyKeys :: int
  g_satellite :: bool
  g_tTest_ms :: int
  g_tRamp_ms :: int
  g_tIter_ms :: int
  g_delay :: int
  g_tid_file :: string
  g_maxIters :: u64
  g_stopOnError :: bool
  g_live :: bool
  g_nRoTh :: int
  g_nAroTh :: int
  g_nFfTh :: int
  g_nEbTh :: int
  g_subId :: int
  g_startSubId :: int
  g_nSub :: int
  g_acceptLevel :: rat
  g_collectorDelay :: int
  g_frDistro :: string
  g_isParallel :: bool

text \<open>How the program can end early: with an exit code, or with an exception it reports.\<close>

datatype ending = Exited int | ConfigError cfg_exn | StoreError exn

section \<open>Opening the store\<close>

text \<open>A file that cannot be parsed is reported, and what was read of it is kept.\<close>

definition read_file :: "cfg_file option \<Rightarrow> Options \<Rightarrow> ending + Options" where
  "read_file file opts =
     (case file of
        None \<Rightarrow> Inr opts
      | Some f \<Rightarrow> (case readConfiguration f opts of (Inl e, opts) \<Rightarrow> Inl (ConfigError e) | (Inr ok, opts) \<Rightarrow> Inr opts))"

definition minidaq_key :: "KeyDescriptor \<Rightarrow> KeyDescriptor" where
  "minidaq_key d = set_field 2 2 False (set_field 1 1 False (set_field 0 5 True d))"

definition local_neighbor :: DhtNeighbor where
  "local_neighbor = \<lparr>nb_ip = ''localhost'', nb_port = 31850, nb_local = True, range_start = [], range_end = []\<rparr>"

definition take_offload :: "OffloadOptions \<Rightarrow> OffloadOptions \<Rightarrow> OffloadOptions" where
  "take_offload spdk off = off\<lparr>off_allocUnitSize := off_allocUnitSize spdk, off_devs := off_devs spdk, devType := devType spdk, off_name := off_name spdk\<rparr>"

text \<open>The options set from the settings.\<close>

definition kvs_options :: "settings \<Rightarrow> Options \<Rightarrow> Options" where
  "kvs_options g opts =
     opts\<lparr>opt_pmem := (opt_pmem opts)\<lparr>poolPath := g_pmem_path g, totalSize := g_pmem_size g, pmem_allocUnitSize := g_fSize g\<rparr>,
       opt_key := minidaq_key (opt_key opts),
       opt_runtime := (opt_runtime opts)\<lparr>numOfPollers := word_of_int (g_nPoolers g), Key_Options.baseCoreId := word_of_int (g_bCoreId g),
         maxReadyKeys := to_size (word_of_int (g_maxReadyKeys g))\<rparr>,
       opt_dht := (opt_dht opts)\<lparr>numOfDhtThreads := word_of_int (g_nDhtThreads g), baseDhtId := word_of_int (g_bDhtId g)\<rparr>\<rparr>"

text \<open>The mode; a storage node without neighbours is alone and gets itself as the only one.\<close>

definition kvs_mode :: "settings \<Rightarrow> Options \<Rightarrow> Options \<times> bool" where
  "kvs_mode g opts =
     (if g_satellite g then (opts\<lparr>opt_mode := SATELLITE\<rparr>, False)
      else if dht_neighbors (opt_dht opts) = []
           then (opts\<lparr>opt_mode := STORAGE, opt_dht := (opt_dht opts)\<lparr>dht_neighbors := [local_neighbor]\<rparr>\<rparr>, True)
           else (opts\<lparr>opt_mode := STORAGE\<rparr>, False))"

text \<open>The options, whether the node is alone, and the cores used so far.\<close>

definition openKVS :: "settings \<Rightarrow> cfg_file option \<Rightarrow> cfg_file option \<Rightarrow> int \<Rightarrow> ending + Options \<times> bool \<times> int" where
  "openKVS g configFile spdk_conf nCoresUsed =
     (case read_file configFile default_options of
        Inl e \<Rightarrow> Inl e
      | Inr opts \<Rightarrow>
         (let used = nCoresUsed + g_nPoolers g + (if g_satellite g then 0 else g_nDhtThreads g)
          in if g_nCores g < used then Inl (Exited 1)
             else case kvs_mode g (kvs_options g opts) of
                    (opts, single) \<Rightarrow>
                     (case spdk_conf of
                        None \<Rightarrow> Inr (opts, single, used)
                      | Some f \<Rightarrow>
                         (case read_file (Some f) default_options of
                            Inl e \<Rightarrow> Inl e
                          | Inr spdk \<Rightarrow> Inr (opts\<lparr>opt_offload := take_offload (opt_offload spdk) (opt_offload opts)\<rparr>, single, used)))))"

section \<open>Nodes and cores\<close>

datatype worker = RoWorker MinidaqRoNode fragment_distro | AroWorker MinidaqRoNode fragment_distro | FfWorker MinidaqFfNode | FfSeqWorker MinidaqFfNode

fun base :: "worker \<Rightarrow> MinidaqNode" where
  "base (RoWorker n d) = MinidaqNode.truncate n"
| "base (AroWorker n d) = MinidaqNode.truncate n"
| "base (FfWorker n) = MinidaqNode.truncate n"
| "base (FfSeqWorker n) = MinidaqNode.truncate n"

definition setup_node :: "settings \<Rightarrow> bool \<Rightarrow> int \<Rightarrow> 'n MinidaqNode_scheme \<Rightarrow> 'n MinidaqNode_scheme" where
  "setup_node g singleNode nCoresUsed n =
     n\<lparr>tTest_ms := g_tTest_ms g, tRamp_ms := g_tRamp_ms g, tIter_us := g_tIter_ms g * 1000, delay_s := g_delay g, tidFile := g_tid_file g,
       baseCoreId := g_bCoreId g + nCoresUsed, maxIterations := g_maxIters g, stopOnError := g_stopOnError g, live := g_live g,
       localOnly := singleNode, nCores := nTh n\<rparr>"

fun setup_worker :: "settings \<Rightarrow> bool \<Rightarrow> int \<Rightarrow> worker \<Rightarrow> worker" where
  "setup_worker g single used (RoWorker n d) = RoWorker (setup_node g single used n) d"
| "setup_worker g single used (AroWorker n d) = AroWorker (setup_node g single used n) d"
| "setup_worker g single used (FfWorker n) = FfWorker (setup_node g single used n)"
| "setup_worker g single used (FfSeqWorker n) = FfSeqWorker (setup_node g single used n)"

text \<open>The first loop of \<open>runBenchmark\<close>.\<close>

fun configure :: "settings \<Rightarrow> bool \<Rightarrow> int \<Rightarrow> worker list \<Rightarrow> ending + worker list \<times> int" where
  "configure g single used [] = Inr ([], used)"
| "configure g single used (w # ws) =
     (let used' = used + nTh (base w)
      in if g_nCores g < used' then Inl (Exited 1)
         else map_sum id (\<lambda>(ws, u). (setup_worker g single used w # ws, u)) (configure g single used' ws))"

text \<open>\<open>_Affinity\<close>: the core of a thread; the number of a thread is not negative.\<close>

definition Affinity :: "'n MinidaqNode_scheme \<Rightarrow> int \<Rightarrow> exn + int" where
  "Affinity nd executorId = (if nCores nd = 0 then Inl Undefined else Inr (baseCoreId nd + executorId mod abs (nCores nd)))"

text \<open>\<open>Run\<close>: the threads of a node, by the cores they run on.\<close>

definition run_cores :: "worker \<Rightarrow> (exn + int) list" where
  "run_cores w = map (\<lambda>e. Affinity (base w) (int e)) [0..<nat (nTh (base w))]"

definition make_readers :: "settings \<Rightarrow> ending + worker list" where
  "make_readers g =
     (if g_nRoTh g = 0 \<and> g_nAroTh g = 0 then Inr []
      else if g_nRoTh g \<noteq> 0 \<and> g_nAroTh g \<noteq> 0 then Inl (Exited 0)
      else case SetFragmentDistro (g_frDistro g) of
             Inl e \<Rightarrow> Inl (StoreError e)
           | Inr d \<Rightarrow>
              (if g_nRoTh g \<noteq> 0 then Inr [RoWorker (new_MinidaqRoNode\<lparr>ro_id := g_subId g, nTh := g_nRoTh g, fSize := g_fSize g\<rparr>) d]
               else Inr [AroWorker (new_MinidaqRoNode\<lparr>ro_id := g_subId g, nTh := g_nAroTh g, fSize := g_fSize g\<rparr>) d]))"

definition make_filters :: "settings \<Rightarrow> worker list" where
  "make_filters g =
     (if g_nFfTh g = 0 then []
      else let n = new_MinidaqFfNode\<lparr>baseId := g_startSubId g, nSubdetectors := g_nSub g, nTh := g_nFfTh g, acceptLevel := g_acceptLevel g,
                     delay_us := g_collectorDelay g\<rparr>
           in [if g_maxReadyKeys g \<noteq> 0 then FfWorker n else FfSeqWorker n])"

text \<open>The nodes that run at the same time, in order: readout before the filter, or all together.\<close>

definition main_phases :: "settings \<Rightarrow> bool \<Rightarrow> int \<Rightarrow> ending + worker list list" where
  "main_phases g single used =
     (case make_readers g of
        Inl e \<Rightarrow> Inl e
      | Inr ro \<Rightarrow>
         (if g_isParallel g then map_sum id (\<lambda>(ws, u). [ws]) (configure g single used (ro @ make_filters g))
          else case configure g single used ro of
                 Inl e \<Rightarrow> Inl e
               | Inr (ws, u) \<Rightarrow> map_sum id (\<lambda>(ws', u). [ws, ws']) (configure g single (u - (g_nRoTh g + g_nAroTh g)) (make_filters g))))"

definition minidaq_main :: "settings \<Rightarrow> cfg_file option \<Rightarrow> cfg_file option \<Rightarrow> ending + Options \<times> worker list list" where
  "minidaq_main g configFile spdk_conf =
     (if g_nEbTh g \<noteq> 0 then Inl (Exited (- 1))
      else case openKVS g configFile spdk_conf 0 of
             Inl e \<Rightarrow> Inl e
           | Inr (opts, single, used) \<Rightarrow> map_sum id (\<lambda>ps. (opts, ps)) (main_phases g single used))"

section \<open>Results\<close>

text \<open>\<open>Wait\<close>: with a time limit, a thread that is not ready makes it give up; \<open>ready\<close> says which are.\<close>

definition node_Wait :: "'h hdr \<Rightarrow> int \<Rightarrow> ('h MinidaqStats \<times> bool) list \<Rightarrow> 'h MinidaqStats list \<Rightarrow> 'h MinidaqStats \<Rightarrow> int + bool \<times> 'h MinidaqStats list \<times> 'h MinidaqStats" where
  "node_Wait lib ms futures statsVec statsAll =
     (if ms \<noteq> 0 \<and> (\<exists>f \<in> set futures. \<not> snd f) then Inr (False, statsVec, statsAll)
      else map_sum id (\<lambda>r. (True, r)) (collect lib (map fst futures) statsVec statsAll))"

fun dec :: "nat \<Rightarrow> string" where
  "dec n = (if n < 10 then [char_of (48 + n)] else dec (n div 10) @ [char_of (48 + n mod 10)])"

fun save_threads :: "'h hdr \<Rightarrow> (string \<Rightarrow> bool) \<Rightarrow> string \<Rightarrow> string \<Rightarrow> nat \<Rightarrow> 'h MinidaqStats list \<Rightarrow> file_system \<Rightarrow> exn + file_system" where
  "save_threads lib can_open fp type i [] fs = Inr fs"
| "save_threads lib can_open fp type i (s # ss) fs =
     (case stats_Dump lib can_open (fp @ ''-thread-'' @ dec i @ ''-'' @ type) s fs of
        Inl e \<Rightarrow> Inl e | Inr fs \<Rightarrow> save_threads lib can_open fp type (i + 1) ss fs)"

definition Save :: "'h hdr \<Rightarrow> (string \<Rightarrow> bool) \<Rightarrow> string \<Rightarrow> string \<Rightarrow> bool \<Rightarrow> 'h MinidaqStats list \<Rightarrow> 'h MinidaqStats \<Rightarrow> file_system \<Rightarrow> exn + file_system" where
  "Save lib can_open fp type statsReady statsVec statsAll fs =
     (if \<not> statsReady \<or> fp = [] then Inr fs
      else case save_threads lib can_open fp type 0 statsVec fs of
             Inl e \<Rightarrow> Inl e
           | Inr fs \<Rightarrow> stats_Dump lib can_open (fp @ ''-thread-all-'' @ type) statsAll fs)"

definition SaveSummary :: "'h hdr \<Rightarrow> (string \<Rightarrow> bool) \<Rightarrow> string \<Rightarrow> string \<Rightarrow> bool \<Rightarrow> 'h MinidaqStats \<Rightarrow> file_system \<Rightarrow> file_system" where
  "SaveSummary lib can_open file tname statsReady statsAll fs =
     (if \<not> statsReady \<or> file = [] then fs else DumpSummary lib can_open file tname statsAll fs)"

section \<open>The store of a single node\<close>

lemma read_file_None [simp]: "read_file None opts = Inr opts"
  by (simp add: read_file_def)

lemma minidaq_key_fields: "minidaq_key [] = [\<lparr>fsize = 5, isPrimary = True\<rparr>, \<lparr>fsize = 1, isPrimary = False\<rparr>, \<lparr>fsize = 2, isPrimary = False\<rparr>]"
  by (simp add: minidaq_key_def set_field_def nfields_def numeral_eq_Suc)

lemma openKVS_cases:
  assumes "openKVS g file spdk n = Inr (opts, single, used)"
  obtains o1 o2 off where "read_file file default_options = Inr o1" "kvs_mode g (kvs_options g o1) = (o2, single)" "opts = o2\<lparr>opt_offload := off\<rparr>"
    "used = n + g_nPoolers g + (if g_satellite g then 0 else g_nDhtThreads g)" "used \<le> g_nCores g"
proof -
  obtain o1 where o1: "read_file file default_options = Inr o1" using assms by (cases "read_file file default_options") (auto simp: openKVS_def)
  obtain o2 sg where o2: "kvs_mode g (kvs_options g o1) = (o2, sg)" by fastforce
  have "used = n + g_nPoolers g + (if g_satellite g then 0 else g_nDhtThreads g) \<and> used \<le> g_nCores g \<and> single = sg \<and> (\<exists>off. opts = o2\<lparr>opt_offload := off\<rparr>)"
  proof (cases spdk)
    case None
    then have "used = n + g_nPoolers g + (if g_satellite g then 0 else g_nDhtThreads g) \<and> used \<le> g_nCores g \<and> single = sg \<and> opts = o2"
      using assms o1 o2 by (simp add: openKVS_def Let_def split: if_splits)
    moreover have "o2 = o2\<lparr>opt_offload := opt_offload o2\<rparr>" by simp
    ultimately show ?thesis by blast
  next
    case (Some f)
    then show ?thesis using assms o1 o2 by (cases "read_file (Some f) default_options") (auto simp: openKVS_def Let_def split: if_splits)
  qed
  then show ?thesis using o1 o2 that by blast
qed

text \<open>Without a configuration file.\<close>

lemma openKVS_single:
  assumes "openKVS g None spdk n = Inr (opts, single, used)" "\<not> g_satellite g"
  shows "opt_key opts = minidaq_key []" "dht_neighbors (opt_dht opts) = [local_neighbor]" "dht_id (opt_dht opts) = 0"
    "maskLength (opt_dht opts) = 0" "maxReadyKeys (opt_runtime opts) = to_size (word_of_int (g_maxReadyKeys g))"
proof -
  obtain o2 off where "kvs_mode g (kvs_options g default_options) = (o2, single)" "opts = o2\<lparr>opt_offload := off\<rparr>"
    using assms(1) by (rule openKVS_cases) auto
  moreover have "o2 = fst (kvs_mode g (kvs_options g default_options))" using calculation(1) by simp
  ultimately show "opt_key opts = minidaq_key []" "dht_neighbors (opt_dht opts) = [local_neighbor]" "dht_id (opt_dht opts) = 0"
    "maskLength (opt_dht opts) = 0" "maxReadyKeys (opt_runtime opts) = to_size (word_of_int (g_maxReadyKeys g))"
    using assms(2) by (simp_all add: kvs_mode_def kvs_options_def default_options_def)
qed

lemma minidaq_main_cases:
  assumes "minidaq_main g file spdk = Inr (opts, phases)"
  obtains single used where "openKVS g file spdk 0 = Inr (opts, single, used)" "main_phases g single used = Inr phases"
proof -
  obtain os where os: "openKVS g file spdk 0 = Inr os" using assms by (cases "openKVS g file spdk 0") (auto simp: minidaq_main_def split: if_splits)
  obtain o1 sg u where o1: "os = (o1, sg, u)" by (cases os) simp
  obtain ps where "main_phases g sg u = Inr ps" using assms os o1 by (cases "main_phases g sg u") (auto simp: minidaq_main_def split: if_splits)
  then show ?thesis using assms os o1 by (intro that [of sg u]) (auto simp: minidaq_main_def split: if_splits)
qed

lemma new_DhtCore_mask: "new_DhtCore o1 = Inr c \<Longrightarrow> core_maskLength c = maskLength o1"
  by (auto simp: new_DhtCore_def split: if_splits sum.splits)

lemma isLocal_one:
  assumes "nNodes pk = 1" "localNodeId pk = 0" "pKeyOffset pk + pKeySize pk \<le> length key"
  shows "isLocal pk key = Inr True"
  using assms isLocal_modulo [of pk key] by simp


section \<open>Cores\<close>

lemma truncate_setup: "base (setup_worker g single used w) = setup_node g single used (base w)"
  by (cases w) (simp_all add: setup_node_def MinidaqNode.defs)

lemma run_cores_setup:
  assumes "0 \<le> nTh (base w)"
  shows "run_cores (setup_worker g single used w) = map (\<lambda>e. Inr (g_bCoreId g + used + int e)) [0..<nat (nTh (base w))]"
  using assms by (auto simp: run_cores_def truncate_setup Affinity_def setup_node_def)

lemma upt_shift: "[0..<a + b] = [0..<a] @ map (\<lambda>i. a + i) [0..<b]"
  by (simp add: upt_add_eq_append [OF zero_le] map_add_upt add.commute)

lemma configure_cores:
  assumes "configure g single used ws = Inr (ws', used')" "\<forall>w \<in> set ws. 0 \<le> nTh (base w)"
  shows "used' = used + sum_list (map (\<lambda>w. nTh (base w)) ws) \<and> used \<le> used' \<and> (used \<le> g_nCores g \<longrightarrow> used' \<le> g_nCores g) \<and>
    concat (map run_cores ws') = map (\<lambda>c. Inr (g_bCoreId g + used + int c)) [0..<nat (used' - used)]"
  using assms
proof (induction ws arbitrary: used ws')
  case (Cons w ws)
  let ?n = "nTh (base w)"
  obtain ws'' where c: "configure g single (used + ?n) ws = Inr (ws'', used')" "ws' = setup_worker g single used w # ws''" "used + ?n \<le> g_nCores g"
    using Cons.prems(1) by (cases "configure g single (used + ?n) ws") (auto simp: Let_def split: if_splits)
  have IH: "used' = used + ?n + sum_list (map (\<lambda>w. nTh (base w)) ws)" "used + ?n \<le> used'" "used' \<le> g_nCores g"
      "concat (map run_cores ws'') = map (\<lambda>c. Inr (g_bCoreId g + (used + ?n) + int c)) [0..<nat (used' - (used + ?n))]"
    using Cons.IH [OF c(1)] Cons.prems(2) c(3) by auto
  have n: "0 \<le> ?n" using Cons.prems(2) by simp
  then have "nat (used' - used) = nat ?n + nat (used' - (used + ?n))" using IH(2) by linarith
  then have "[0..<nat (used' - used)] = [0..<nat ?n] @ map (\<lambda>i. nat ?n + i) [0..<nat (used' - (used + ?n))]" by (simp only: upt_shift)
  then show ?case using IH n c(2) by (simp add: run_cores_setup [OF n] o_def algebra_simps)
qed simp

text \<open>What holds for the nodes of one phase.\<close>

definition cores_ok :: "settings \<Rightarrow> int \<Rightarrow> worker list \<Rightarrow> bool" where
  "cores_ok g used ws \<longleftrightarrow> distinct (concat (map run_cores ws)) \<and>
     (\<forall>c \<in> set (concat (map run_cores ws)). \<exists>i. c = Inr i \<and> g_bCoreId g + used \<le> i \<and> i < g_bCoreId g + g_nCores g)"

lemma configure_ok:
  assumes "configure g single used ws = Inr (ws', used')" "\<forall>w \<in> set ws. 0 \<le> nTh (base w)" "used \<le> g_nCores g"
  shows "cores_ok g used ws'"
  using configure_cores [OF assms(1,2)] assms(3) by (auto simp: cores_ok_def distinct_map inj_on_def)

lemma nTh_truncate [simp]: "nTh (MinidaqNode.truncate n) = nTh n"
  by (simp add: MinidaqNode.defs)

lemma make_readers_threads:
  assumes "make_readers g = Inr ro"
  shows "sum_list (map (\<lambda>w. nTh (base w)) ro) = g_nRoTh g + g_nAroTh g" "0 \<le> g_nRoTh g \<Longrightarrow> 0 \<le> g_nAroTh g \<Longrightarrow> \<forall>w \<in> set ro. 0 \<le> nTh (base w)"
  using assms by (auto simp: make_readers_def split: if_splits sum.splits)

lemma make_filters_threads: "0 \<le> g_nFfTh g \<Longrightarrow> \<forall>w \<in> set (make_filters g). 0 \<le> nTh (base w)"
  by (auto simp: make_filters_def Let_def split: if_splits)


section \<open>An example\<close>

definition ex_settings :: settings where
  "ex_settings = \<lparr>g_pmem_path = ''/mnt/pmem'', g_pmem_size = 2147483648, g_fSize = 1024, g_nPoolers = 1, g_nDhtThreads = 1, g_bDhtId = 0, g_bCoreId = 4,
     g_nCores = 6, g_maxReadyKeys = 16, g_satellite = False, g_tTest_ms = 5000, g_tRamp_ms = 500, g_tIter_ms = 10, g_delay = 0, g_tid_file = [],
     g_maxIters = 0, g_stopOnError = False, g_live = False, g_nRoTh = 3, g_nAroTh = 0, g_nFfTh = 1, g_nEbTh = 0, g_subId = 100, g_startSubId = 100,
     g_nSub = 1, g_acceptLevel = 1, g_collectorDelay = 100, g_frDistro = ''const'', g_isParallel = True\<rparr>"

definition ex_opts :: Options where
  "ex_opts = fst (kvs_mode ex_settings (kvs_options ex_settings default_options))"

lemma ex_main: "\<exists>w1 w2. minidaq_main ex_settings None None = Inr (ex_opts, [[w1, w2]])"
proof -
  have "openKVS ex_settings None None 0 = Inr (ex_opts, True, 2)"
  proof -
    have "kvs_mode ex_settings (kvs_options ex_settings default_options) = (ex_opts, True)"
      by (simp add: ex_opts_def kvs_mode_def kvs_options_def default_options_def ex_settings_def)
    then show ?thesis by (simp add: openKVS_def) (simp add: ex_settings_def)
  qed
  moreover have "\<exists>w1 w2. main_phases ex_settings True 2 = Inr [[w1, w2]]"
    by (simp add: main_phases_def make_readers_def make_filters_def SetFragmentDistro_def ex_settings_def Let_def del: setup_worker.simps)
  ultimately show ?thesis by (auto simp: minidaq_main_def ex_settings_def)
qed


lemma ex_opened: "\<exists>kv. kv_init ex_kvo ex_site ex_opts = Some (Inr kv)"
  by (auto simp: kv_init_simps ex_opts_def ex_settings_def kvs_mode_def kvs_options_def minidaq_key_fields
      local_neighbor_def set_range_def stoi_def)


end
