(* ===== verification/Node_Cli.thy ===== *)
theory Node_Cli
  imports Minidaq_Node
begin

text \<open>
  The interactive shell of a node, \<^verbatim>\<open>examples/clinode/nodeCli.cpp\<close>: it reads a line, splits it into words and runs a
  command on the store. Splitting, prefixes and the conversion of a word to a truth value are functions of Boost, arguments here; the words of a
  line are what the commands get. A command prints messages and may not return, which is \<open>None\<close>.
\<close>

section \<open>Words and messages\<close>

record boost =
  b_split :: "string \<Rightarrow> string list"
  b_starts_with :: "string \<Rightarrow> string \<Rightarrow> bool"
  b_bool :: "string \<Rightarrow> bool option"

text \<open>An exception of the store, or of a word that is no truth value.\<close>

datatype cli_exn = StoreExn exn | BadLexicalCast

datatype msg = ErrOneArgument | ErrAtLeastOne | ErrAtLeastTwo | ErrKeySize | ErrKeyBuffer | ErrValueBuffer | WarnKeyAttrs
  | PutDone string string PrimaryKeyAttribute | GotValue string string | NotFound string | RemoveDone string
  | ErrPut StatusCode | ErrGet StatusCode | ErrUpdate StatusCode | ErrRemove | ErrOffloadDisabled
  | NotImplementedMsg | HelpMsg | UnrecognizedMsg string | NodeStatus | AsyncMsg string | NeighborsMsg

text \<open>Only exceptions can be caught.\<close>

definition is_exception :: "exn \<Rightarrow> bool" where
  "is_exception e \<longleftrightarrow> e \<notin> {Undefined, NoReturn, Abort}"

definition byte_of_char :: "char \<Rightarrow> u8" where
  "byte_of_char c = of_nat (of_char c)"

definition char_of_byte :: "u8 \<Rightarrow> char" where
  "char_of_byte b = char_of (unat b)"

text \<open>A string made from a pointer to characters: up to the first zero.\<close>

definition c_string :: "bytes \<Rightarrow> exn + string" where
  "c_string bs = (if 0 \<in> set bs then Inr (map char_of_byte (takeWhile (\<lambda>b. b \<noteq> 0) bs)) else Inl Undefined)"

section \<open>Options of a command\<close>

definition NUM_ELEM_KEY_ATTRS :: nat where
  "NUM_ELEM_KEY_ATTRS = 3"

definition getKeyAttr :: "boost \<Rightarrow> u8 \<Rightarrow> string list \<Rightarrow> cli_exn + PrimaryKeyAttribute" where
  "getKeyAttr b start args =
     (let i = unat start
      in if length args < i + NUM_ELEM_KEY_ATTRS \<or> \<not> b_starts_with b (args ! i) ''-o'' then Inr attr_EMPTY
         else case b_bool b (args ! (i + 2)) of
                None \<Rightarrow> Inl BadLexicalCast
              | Some optVal \<Rightarrow>
                 (let optName = args ! (i + 1)
                  in Inr (if \<not> optVal then attr_EMPTY else if optName = ''lock'' then attr_EMPTY\<lparr>LOCKED := True\<rparr>
                          else if optName = ''ready'' then attr_EMPTY\<lparr>READY := True\<rparr>
                          else if optName = ''long_term'' then attr_EMPTY\<lparr>LONG_TERM := True\<rparr> else attr_EMPTY)))"

text \<open>The loop; the position is a byte, and wraps.\<close>

partial_function (option) attr_loop :: "boost \<Rightarrow> string list \<Rightarrow> u8 \<Rightarrow> PrimaryKeyAttribute \<Rightarrow> (cli_exn + PrimaryKeyAttribute) option" where
  "attr_loop b args pos acc =
     (if unat pos \<le> length args
      then case getKeyAttr b pos args of Inl e \<Rightarrow> Some (Inl e) | Inr a \<Rightarrow> attr_loop b args (pos + 3) (attr_or acc a)
      else Some (Inr acc))"

definition getKeyAttrs :: "boost \<Rightarrow> u8 \<Rightarrow> string list \<Rightarrow> (cli_exn + msg list \<times> PrimaryKeyAttribute) option" where
  "getKeyAttrs b start args =
     (if length args < unat start + NUM_ELEM_KEY_ATTRS then Some (Inr ([], attr_EMPTY))
      else if (length args - unat start) mod NUM_ELEM_KEY_ATTRS \<noteq> 0 then Some (Inr ([WarnKeyAttrs], attr_EMPTY))
      else map_option (map_sum id (\<lambda>a. ([], a))) (attr_loop b args start attr_EMPTY))"

section \<open>Keys and values\<close>

definition isInvalidKey :: "string \<Rightarrow> bool" where
  "isInvalidKey key \<longleftrightarrow> length key = 0 \<or> SIZEOF_eventId < length key"

definition strToKey :: "('q, 'r, 'k, 'p, 'c) kv_outside \<Rightarrow> string \<Rightarrow> ('q, 'r, 'k, 'p, 'c) KVStore \<Rightarrow> (exn + Key) \<times> ('q, 'r, 'k, 'p, 'c) KVStore" where
  "strToKey y key kv =
     (if isInvalidKey key then (Inl (OperationFailed BAD_KEY_FORMAT), kv)
      else case kv_AllocKey y NOT_BUFFERED kv of
             (Inl e, kv) \<Rightarrow> (Inl e, kv)
           | (Inr k, kv) \<Rightarrow>
              (if length (key_data k) < SIZEOF_MinidaqKey then (Inl Undefined, kv)
               else (Inr (k\<lparr>key_data := blit (map byte_of_char key) 0 (memset_prefix 0 SIZEOF_MinidaqKey (key_data k))\<rparr>), kv)))"

definition value_bytes :: "string \<Rightarrow> bytes" where
  "value_bytes valStr = map byte_of_char valStr @ [0]"

definition allocValue :: "('q, 'r, 'k, 'p, 'c) kv_outside \<Rightarrow> Key \<Rightarrow> string \<Rightarrow> ('q, 'r, 'k, 'p, 'c) KVStore \<Rightarrow> (exn + Value) \<times> ('q, 'r, 'k, 'p, 'c) KVStore" where
  "allocValue y k valStr kv =
     (case kv_Alloc y k (length valStr + 1) KVS_BUFFERED kv of
        (Inl e, kv) \<Rightarrow> (Inl e, kv)
      | (Inr v, kv) \<Rightarrow> (case write_value (value_bytes valStr) v kv of Inl e \<Rightarrow> (Inl e, kv) | Inr (v, kv) \<Rightarrow> (Inr v, kv)))"

section \<open>Commands\<close>

type_synonym ('q, 'r, 'k, 'p, 'c) cli_result = "((cli_exn + msg list) \<times> ('q, 'r, 'k, 'p, 'c) KVStore) option"

definition say :: "msg list \<Rightarrow> ('q, 'r, 'k, 'p, 'c) KVStore \<Rightarrow> ('q, 'r, 'k, 'p, 'c) cli_result" where
  "say ms kv = Some (Inr ms, kv)"

definition fails :: "exn \<Rightarrow> ('q, 'r, 'k, 'p, 'c) KVStore \<Rightarrow> ('q, 'r, 'k, 'p, 'c) cli_result" where
  "fails e kv = Some (Inl (StoreExn e), kv)"

text \<open>The key of a command and then the rest of it; \<open>all\<close> says whether every exception is caught, or a failed operation only.\<close>

definition with_key ::
  "('q, 'r, 'k, 'p, 'c) kv_outside \<Rightarrow> bool \<Rightarrow> string \<Rightarrow> (Key \<Rightarrow> ('q, 'r, 'k, 'p, 'c) KVStore \<Rightarrow> ('q, 'r, 'k, 'p, 'c) cli_result) \<Rightarrow>
    ('q, 'r, 'k, 'p, 'c) KVStore \<Rightarrow> ('q, 'r, 'k, 'p, 'c) cli_result" where
  "with_key y all key f kv =
     (if isInvalidKey key then say [ErrKeySize] kv
      else case strToKey y key kv of
             (Inl e, kv) \<Rightarrow> if (\<exists>st. e = OperationFailed st) \<or> all \<and> is_exception e then say [ErrKeyBuffer] kv else fails e kv
           | (Inr k, kv) \<Rightarrow> f k kv)"

definition with_attrs ::
  "boost \<Rightarrow> u8 \<Rightarrow> string list \<Rightarrow> (msg list \<Rightarrow> PrimaryKeyAttribute \<Rightarrow> ('q, 'r, 'k, 'p, 'c) KVStore \<Rightarrow> ('q, 'r, 'k, 'p, 'c) cli_result) \<Rightarrow>
    ('q, 'r, 'k, 'p, 'c) KVStore \<Rightarrow> ('q, 'r, 'k, 'p, 'c) cli_result" where
  "with_attrs b start args f kv =
     (case getKeyAttrs b start args of
        None \<Rightarrow> None
      | Some (Inl e) \<Rightarrow> Some (Inl e, kv)
      | Some (Inr (ws, a)) \<Rightarrow> f ws a kv)"

text \<open>The end of \<open>get\<close>: the value is freed if it is not empty, and the key.\<close>

definition get_cleanup :: "('q, 'r, 'k, 'p, 'c) kv_outside \<Rightarrow> Key \<Rightarrow> Value option \<Rightarrow> msg list \<Rightarrow> ('q, 'r, 'k, 'p, 'c) KVStore \<Rightarrow> ('q, 'r, 'k, 'p, 'c) cli_result" where
  "get_cleanup y k vo ms kv =
     (case (case vo of Some v \<Rightarrow> if 0 < val_size v then kv_Free y k v kv else (Inr (), kv) | None \<Rightarrow> (Inr (), kv)) of
        (Inl e, kv) \<Rightarrow> fails e kv
      | (Inr u, kv) \<Rightarrow> (case kv_FreeKey y k kv of (Inl e, kv) \<Rightarrow> fails e kv | (Inr u, kv) \<Rightarrow> say ms kv))"

definition cmdGet :: "boost \<Rightarrow> ('q, 'r, 'k, 'p, 'c) kv_outside \<Rightarrow> string list \<Rightarrow> ('q, 'r, 'k, 'p, 'c) KVStore \<Rightarrow> ('q, 'r, 'k, 'p, 'c) cli_result" where
  "cmdGet b y args kv =
     (if length args < 2 then say [ErrAtLeastOne] kv
      else let key = args ! 1
           in with_key y False key (\<lambda>k. with_attrs b 2 args (\<lambda>ws a kv.
                case kv_Get y k kv of
                  (Inr v, kv) \<Rightarrow>
                   (case read_value v kv of
                      Inl e \<Rightarrow> fails e kv
                    | Inr bs \<Rightarrow> (case c_string bs of Inl e \<Rightarrow> fails e kv | Inr s \<Rightarrow> get_cleanup y k (Some v) (ws @ [GotValue key s]) kv))
                | (Inl (OperationFailed st), kv) \<Rightarrow> get_cleanup y k None (ws @ [if st = KEY_NOT_FOUND then NotFound key else ErrGet st]) kv
                | (Inl e, kv) \<Rightarrow> fails e kv)) kv)"

definition offload_msg :: "StatusCode \<Rightarrow> msg \<Rightarrow> msg" where
  "offload_msg st m = (if st = OFFLOAD_DISABLED_ERROR then ErrOffloadDisabled else m)"

definition cmdGetAsync :: "boost \<Rightarrow> ('q, 'r, 'k, 'p, 'c) kv_outside \<Rightarrow> string list \<Rightarrow> ('q, 'r, 'k, 'p, 'c) KVStore \<Rightarrow> ('q, 'r, 'k, 'p, 'c) cli_result" where
  "cmdGetAsync b y args kv =
     (if length args < 2 then say [ErrAtLeastOne] kv
      else with_key y False (args ! 1) (\<lambda>k. with_attrs b 2 args (\<lambda>ws a kv.
             case kv_GetAsync y k (kv_next kv) (default_get\<lparr>get_attr := a\<rparr>) kv of
               (Inr u, kv) \<Rightarrow> say ws kv
             | (Inl (OperationFailed st), kv) \<Rightarrow> say (ws @ [offload_msg st (ErrGet st)]) kv
             | (Inl e, kv) \<Rightarrow> fails e kv)) kv)"

text \<open>\<open>put\<close> and \<open>aput\<close> begin alike: key, value, options.\<close>

definition with_new_value ::
  "boost \<Rightarrow> ('q, 'r, 'k, 'p, 'c) kv_outside \<Rightarrow> string list \<Rightarrow>
    (Key \<Rightarrow> Value \<Rightarrow> msg list \<Rightarrow> PrimaryKeyAttribute \<Rightarrow> ('q, 'r, 'k, 'p, 'c) KVStore \<Rightarrow> ('q, 'r, 'k, 'p, 'c) cli_result) \<Rightarrow>
    ('q, 'r, 'k, 'p, 'c) KVStore \<Rightarrow> ('q, 'r, 'k, 'p, 'c) cli_result" where
  "with_new_value b y args f kv =
     (if length args < 3 then say [ErrAtLeastTwo] kv
      else with_key y True (args ! 1) (\<lambda>k kv.
             case allocValue y k (args ! 2) kv of
               (Inl e, kv) \<Rightarrow>
                (if is_exception e
                 then case kv_FreeKey y k kv of (Inl e, kv) \<Rightarrow> fails e kv | (Inr u, kv) \<Rightarrow> say [ErrValueBuffer] kv
                 else fails e kv)
             | (Inr v, kv) \<Rightarrow> with_attrs b 3 args (f k v) kv) kv)"

definition cmdPut :: "boost \<Rightarrow> ('q, 'r, 'k, 'p, 'c) kv_outside \<Rightarrow> string list \<Rightarrow> ('q, 'r, 'k, 'p, 'c) KVStore \<Rightarrow> ('q, 'r, 'k, 'p, 'c) cli_result" where
  "cmdPut b y args kv = with_new_value b y args (\<lambda>k v ws a kv.
     case kv_Put y k v kv of
       (Inr u, kv) \<Rightarrow> say (ws @ [PutDone (args ! 1) (args ! 2) a]) kv
     | (Inl (OperationFailed st), kv) \<Rightarrow> say (ws @ [ErrPut st]) kv
     | (Inl e, kv) \<Rightarrow> fails e kv) kv"

definition cmdPutAsync :: "boost \<Rightarrow> ('q, 'r, 'k, 'p, 'c) kv_outside \<Rightarrow> string list \<Rightarrow> ('q, 'r, 'k, 'p, 'c) KVStore \<Rightarrow> ('q, 'r, 'k, 'p, 'c) cli_result" where
  "cmdPutAsync b y args kv = with_new_value b y args (\<lambda>k v ws a kv.
     case kv_PutAsync y k v (kv_next kv) (default_put\<lparr>put_attr := a\<rparr>) kv of
       (Inr u, kv) \<Rightarrow> say ws kv
     | (Inl (OperationFailed st), kv) \<Rightarrow> say (ws @ [ErrPut st]) kv
     | (Inl e, kv) \<Rightarrow> fails e kv) kv"

text \<open>
  An update may have a value, copied by \<open>_strToValue\<close>; where the options start depends on it. Both overloads of \<open>KVStore::Update\<close> replace the value they
  are given by the stored one before they use it, and are one operation \<open>kv_Update\<close>; so are those of \<open>UpdateAsync\<close>.
\<close>

definition update_start :: "boost \<Rightarrow> string list \<Rightarrow> u8" where
  "update_start b args = (if 2 < length args \<and> \<not> b_starts_with b (args ! 2) ''-o'' then 3 else 2)"

definition cmdUpdate :: "boost \<Rightarrow> ('q, 'r, 'k, 'p, 'c) kv_outside \<Rightarrow> string list \<Rightarrow> ('q, 'r, 'k, 'p, 'c) KVStore \<Rightarrow> ('q, 'r, 'k, 'p, 'c) cli_result" where
  "cmdUpdate b y args kv =
     (if length args < 2 then say [ErrAtLeastOne] kv
      else with_key y True (args ! 1) (\<lambda>k. with_attrs b (update_start b args) args (\<lambda>ws a kv.
             case kv_Update y k a kv of
               (Inr u, kv) \<Rightarrow> say ws kv
             | (Inl (OperationFailed st), kv) \<Rightarrow> say (ws @ [ErrUpdate st]) kv
             | (Inl e, kv) \<Rightarrow> fails e kv)) kv)"

definition cmdUpdateAsync :: "boost \<Rightarrow> ('q, 'r, 'k, 'p, 'c) kv_outside \<Rightarrow> string list \<Rightarrow> ('q, 'r, 'k, 'p, 'c) KVStore \<Rightarrow> ('q, 'r, 'k, 'p, 'c) cli_result" where
  "cmdUpdateAsync b y args kv =
     (if length args < 2 then say [ErrAtLeastOne] kv
      else with_key y True (args ! 1) (\<lambda>k. with_attrs b (update_start b args) args (\<lambda>ws a kv.
             case kv_UpdateAsync y k (kv_next kv) a kv of
               (Inr u, kv) \<Rightarrow> say ws kv
             | (Inl (OperationFailed st), kv) \<Rightarrow> say (ws @ [offload_msg st (ErrUpdate st)]) kv
             | (Inl e, kv) \<Rightarrow> fails e kv)) kv)"

definition cmdRemove :: "('q, 'r, 'k, 'p, 'c) kv_outside \<Rightarrow> string list \<Rightarrow> ('q, 'r, 'k, 'p, 'c) KVStore \<Rightarrow> ('q, 'r, 'k, 'p, 'c) cli_result" where
  "cmdRemove y args kv =
     (if length args \<noteq> 2 then say [ErrOneArgument] kv
      else with_key y True (args ! 1) (\<lambda>k kv.
             case kv_Remove y k kv of
               (Inr u, kv) \<Rightarrow> say [RemoveDone (args ! 1)] kv
             | (Inl (OperationFailed st), kv) \<Rightarrow> say [if st = KEY_NOT_FOUND then NotFound (args ! 1) else ErrRemove] kv
             | (Inl e, kv) \<Rightarrow> fails e kv) kv)"

text \<open>\<open>status\<close> prints the messages the callbacks left, and forgets them.\<close>

definition cmdStatus :: "string list \<Rightarrow> msg list \<times> string list" where
  "cmdStatus statusMsgs = (NodeStatus # map AsyncMsg statusMsgs, [])"

text \<open>One line. \<open>None\<close> as a line is the end of the input. The answer says whether to go on.\<close>

definition nodeCli_call ::
  "boost \<Rightarrow> ('q, 'r, 'k, 'p, 'c) kv_outside \<Rightarrow> string option \<Rightarrow> string list \<Rightarrow> ('q, 'r, 'k, 'p, 'c) KVStore \<Rightarrow>
    ((cli_exn + bool \<times> msg list) \<times> string list \<times> ('q, 'r, 'k, 'p, 'c) KVStore) option" where
  "nodeCli_call b y inLine statusMsgs kv =
     (case inLine of
        None \<Rightarrow> Some (Inr (False, []), statusMsgs, kv)
      | Some l \<Rightarrow>
         (let run = map_option (\<lambda>(r, kv).
                (case r of Inl (StoreExn NotImplemented) \<Rightarrow> Inr (True, [NotImplementedMsg]) | Inl e \<Rightarrow> Inl e | Inr ms \<Rightarrow> Inr (True, ms), statusMsgs, kv));
              starts = b_starts_with b l; args = b_split b l
          in if l = [] \<or> starts ''help'' then Some (Inr (True, [HelpMsg]), statusMsgs, kv)
             else if starts ''g'' then run (cmdGet b y args kv)
             else if starts ''p'' then run (cmdPut b y args kv)
             else if starts ''u'' then run (cmdUpdate b y args kv)
             else if starts ''ap'' then run (cmdPutAsync b y args kv)
             else if starts ''ag'' then run (cmdGetAsync b y args kv)
             else if starts ''au'' then run (cmdUpdateAsync b y args kv)
             else if starts ''r'' then run (cmdRemove y args kv)
             else if starts ''s'' then (case cmdStatus statusMsgs of (ms, sm) \<Rightarrow> Some (Inr (True, ms), sm, kv))
             else if starts ''n'' then Some (Inr (True, [NeighborsMsg]), statusMsgs, kv)
             else if starts ''q'' then Some (Inr (False, []), statusMsgs, kv)
             else Some (Inr (True, [UnrecognizedMsg l]), statusMsgs, kv)))"

text \<open>Completion of a first letter, or two.\<close>

definition completion :: "string \<Rightarrow> string option" where
  "completion buf =
     (case buf of
        [] \<Rightarrow> None
      | c # s \<Rightarrow>
         (if c = CHR ''h'' then Some ''help'' else if c = CHR ''q'' then Some ''quit'' else if c = CHR ''g'' then Some ''get''
          else if c = CHR ''u'' then Some ''update'' else if c = CHR ''p'' then Some ''put'' else if c = CHR ''s'' then Some ''status''
          else if c = CHR ''n'' then Some ''neighbors'' else if c = CHR ''r'' then Some ''remove''
          else if c = CHR ''a''
          then case s of
                 [] \<Rightarrow> None
               | d # t \<Rightarrow> if d = CHR ''g'' then Some ''aget'' else if d = CHR ''p'' then Some ''aput'' else if d = CHR ''u'' then Some ''aupdate'' else None
          else None))"

section \<open>The options of a command\<close>

text \<open>Three is a unit modulo 256, so the loop reaches every position from everywhere, unless it ends before.\<close>

lemma reaches_position: "\<exists>k. pos + of_nat k * 3 = (e :: u8)"
proof
  have "171 * (e - pos) * 3 = (e - pos) * (171 * 3)" by (simp only: mult.commute mult.left_commute)
  also have "(171 :: u8) * 3 = 1" by simp
  finally have "171 * (e - pos) * 3 = e - pos" by (simp only: mult_1_right)
  then show "pos + of_nat (unat (171 * (e - pos))) * 3 = e" by simp
qed

lemma attr_loop_ends:
  assumes "length args < unat e \<or> isl (getKeyAttr b e args)" "pos + of_nat k * 3 = (e :: u8)"
  shows "\<exists>r. attr_loop b args pos acc = Some r"
  using assms(2)
proof (induction k arbitrary: pos acc)
  case 0
  then show ?case using assms(1) by (subst attr_loop.simps) (auto split: sum.splits)
next
  case (Suc k)
  have "\<exists>r. attr_loop b args (pos + 3) (attr_or acc a) = Some r" for a using Suc by (intro Suc.IH) (simp add: algebra_simps)
  then show ?case by (subst attr_loop.simps) (auto split: sum.splits)
qed

lemma attr_loop_forever:
  "attr_loop b args pos acc = Some r \<Longrightarrow> 255 \<le> length args \<longrightarrow> (\<forall>p. \<not> isl (getKeyAttr b p args)) \<longrightarrow> False"
proof (erule attr_loop.raw_induct [rotated], intro impI)
  fix f b args pos acc r
  assume IH: "\<And>b args pos acc r. f b args pos acc = Some r \<Longrightarrow> 255 \<le> length args \<longrightarrow> (\<forall>p. \<not> isl (getKeyAttr b p args)) \<longrightarrow> False"
    and r: "(if unat pos \<le> length args then case getKeyAttr b pos args of Inl e \<Rightarrow> Some (Inl e) | Inr a \<Rightarrow> f b args (pos + 3) (attr_or acc a)
      else Some (Inr acc)) = Some r"
    and len: "255 \<le> length args" and b: "\<forall>p. \<not> isl (getKeyAttr b p args)"
  obtain a where "getKeyAttr b pos args = Inr a" using b by (cases "getKeyAttr b pos args") (auto dest: spec [of _ pos])
  moreover have "unat pos \<le> length args" using len unsigned_less [of pos, where ?'a = nat] by simp
  ultimately have "f b args (pos + 3) (attr_or acc a) = Some r" using r by simp
  from IH [OF this] len b show False by blast
qed


text \<open>Words with the truth values of Boost, \<open>0\<close> and \<open>1\<close>, and a line with 84 options.\<close>

definition ex_boost :: boost where
  "ex_boost = \<lparr>b_split = (\<lambda>s. [s]), b_starts_with = (\<lambda>s p. take (length p) s = p),
     b_bool = (\<lambda>s. if s = ''1'' then Some True else if s = ''0'' then Some False else None)\<rparr>"

definition ex_line :: "string list" where
  "ex_line = [''put'', ''k'', ''v''] @ concat (replicate 84 [''-o'', ''lock'', ''1''])"

lemma nth_threes: "i < 3 * n \<Longrightarrow> concat (replicate n [x, y, z]) ! i = [x, y, z] ! (i mod 3)"
proof (induction n arbitrary: i)
  case (Suc n)
  consider "i = 0" | "i = Suc 0" | "i = Suc (Suc 0)" | j where "i = Suc (Suc (Suc j))" by (metis not0_implies_Suc)
  then show ?case
  proof cases
    case (4 j)
    have "Suc (Suc (Suc j)) mod 3 = j mod 3" by presburger
    then show ?thesis using Suc 4 by simp
  qed simp_all
qed simp

lemma length_ex_line: "length ex_line = 255"
proof -
  have "length (concat (replicate n [x, y, z])) = 3 * n" for n and x y z :: string by (induction n) simp_all
  then show ?thesis by (simp add: ex_line_def)
qed

lemma nth_ex_line: "3 \<le> i \<Longrightarrow> i < 255 \<Longrightarrow> ex_line ! i = [''-o'', ''lock'', ''1''] ! (i mod 3)"
proof -
  assume i: "3 \<le> i" "i < 255"
  then obtain j where "i = j + 3" by (metis add.commute le_Suc_ex)
  then show ?thesis using i nth_threes [of j 84 "''-o''" "''lock''" "''1''"] by (simp add: ex_line_def nth_append)
qed

lemma ex_line_parses: "\<not> isl (getKeyAttr ex_boost pos ex_line)"
proof -
  let ?i = "unat pos"
  have "b_bool ex_boost (ex_line ! (?i + 2)) = Some True" if "?i + 3 \<le> 255" "b_starts_with ex_boost (ex_line ! ?i) ''-o''"
  proof (cases "3 \<le> ?i")
    case True
    have m: "?i mod 3 = 0 \<or> ?i mod 3 = 1 \<or> ?i mod 3 = 2" by linarith
    then have z: "?i mod 3 = 0" using that nth_ex_line [of ?i] True by (auto simp: ex_boost_def)
    then have "(?i + 2) mod 3 = 2" by presburger
    then show ?thesis using nth_ex_line [of "?i + 2"] that True by (simp add: ex_boost_def numeral_2_eq_2)
  next
    case False
    then have "?i = 0 \<or> ?i = 1 \<or> ?i = 2" by linarith
    then show ?thesis using that(2) by (auto simp: ex_line_def ex_boost_def)
  qed
  then show ?thesis by (auto simp: getKeyAttr_def NUM_ELEM_KEY_ATTRS_def length_ex_line Let_def)
qed


section \<open>Putting and getting\<close>

lemma char_byte [simp]: "char_of_byte (byte_of_char c) = c"
proof -
  have "of_char c < (2 ^ 8 :: nat)" by simp
  then have "unat (byte_of_char c) = of_char c" unfolding byte_of_char_def by (simp add: unat_of_nat take_bit_nat_eq_self)
  then show ?thesis by (simp add: char_of_byte_def)
qed

text \<open>A word as it is stored: its characters and a zero.\<close>

definition plain_word :: "string \<Rightarrow> bool" where
  "plain_word v \<longleftrightarrow> (\<forall>c \<in> set v. byte_of_char c \<noteq> 0)"

lemma c_string_value: "plain_word v \<Longrightarrow> c_string (value_bytes v) = Inr v"
proof -
  assume "plain_word v"
  then have "takeWhile (\<lambda>b. b \<noteq> 0) (map byte_of_char v @ [0]) = map byte_of_char v" by (induction v) (simp_all add: plain_word_def)
  then show ?thesis by (simp add: c_string_def value_bytes_def o_def)
qed

definition cli_key :: "string \<Rightarrow> bytes" where
  "cli_key key = map byte_of_char key @ replicate (8 - length key) 0"

lemma strToKey_local:
  assumes "\<not> isInvalidKey key" "kv_keySize kv = 8"
  shows "strToKey y key kv = (Inr \<lparr>key_data = cli_key key, key_attr = NOT_BUFFERED\<rparr>, kv)"
  using assms by (simp add: strToKey_def kv_AllocKey_def SIZEOF_MinidaqKey_def memset_prefix_def blit_def cli_key_def isInvalidKey_def SIZEOF_eventId_def)

lemma length_cli_key: "\<not> isInvalidKey key \<Longrightarrow> length (cli_key key) = 8"
  by (simp add: cli_key_def isInvalidKey_def SIZEOF_eventId_def)

text \<open>C29. What is put in the shell is what \<open>get\<close> prints. For a key of one to five characters, on a node that serves all keys, \<open>put\<close> either says that
  there is no memory for the value, as for a key that has one, and changes no key, or it says that the value was put, and
  then \<open>get\<close> of this key prints exactly the word that was put. This holds whatever options the two commands are
  given: they are parsed and printed, and have no effect.\<close>

theorem cli_put_get:
  assumes "art_inv (kv_tree kv)" "fresh_reserve (reserve (kv_off y))" "kv_keySize kv = 8" "core_maskLength (kv_dht kv) = 0"
    and "\<forall>key. takes_key y key kv" "\<not> isInvalidKey key" "plain_word v"
    and "getKeyAttrs b 3 (cmd # key # v # opts) = Some (Inr (ws, a))" "getKeyAttrs b 2 (cmd' # key # opts') = Some (Inr (ws', a'))"
  shows "\<exists>kv1. (cmdPut b y (cmd # key # v # opts) kv = Some (Inr [ErrValueBuffer], kv1) \<and> art_map (kv_tree kv1) = art_map (kv_tree kv)) \<or>
    (cmdPut b y (cmd # key # v # opts) kv = Some (Inr (ws @ [PutDone key v a]), kv1) \<and>
     cmdGet b y (cmd' # key # opts') kv1 = Some (Inr (ws' @ [GotValue key v]), kv1))"
proof -
  let ?k = "\<lparr>key_data = cli_key key, key_attr = NOT_BUFFERED\<rparr>" and ?n = "length v + 1"
  note key = strToKey_local [OF assms(6)] and len = length_cli_key [OF assms(6)]
  have lcl: "kv_isLocalKey ?k kv' = Inr True" if "kv_dht kv' = kv_dht kv" for kv' :: "('a, 'b, 'c, 'd, 'e) KVStore"
    using assms(4) that by (simp add: kv_isLocalKey_def isLocalKey_def)
  have n: "length (value_bytes v) = ?n" by (simp add: value_bytes_def)
  from assms(1) len assms(2) assms(5) [rule_format]
  show ?thesis
  proof (cases rule: kv_store_raw [where v = "value_bytes v"])
    case (fail t1)
    have "cmdPut b y (cmd # key # v # opts) kv = Some (Inr [ErrValueBuffer], set_tree t1 kv)"
      using fail(1) assms(6) n lcl [of kv]
      by (simp add: cmdPut_def with_new_value_def with_key_def key [OF assms(3)] allocValue_def kv_Alloc_def is_exception_def kv_FreeKey_def key_isKvsBuffered_def say_def)
    then show ?thesis using fail(3) by (intro exI [of _ "set_tree t1 kv"]) simp
  next
    case (ok bl t1 t2 q)
    let ?val = "\<lparr>val_data = PmemPtr bl, val_size = ?n, val_attr = KVS_BUFFERED\<rparr>" and ?kv1 = "(set_tree t2 kv)\<lparr>kv_readyKeys := q\<rparr>"
    have al: "allocValue y ?k v kv = (Inr ?val, fill bl (value_bytes v) (set_tree t1 kv))"
      using ok(1) n lcl [of kv] by (simp add: allocValue_def kv_Alloc_def write_value_def)
    have p: "kv_Put y ?k ?val (fill bl (value_bytes v) (set_tree t1 kv)) = (Inr (), ?kv1)"
      using ok(2) lcl by (simp add: kv_Put_def fill_def kv_free_both_def kv_Free_def kv_FreeKey_def val_isKvsBuffered_def key_isKvsBuffered_def)
    have put: "cmdPut b y (cmd # key # v # opts) kv = Some (Inr (ws @ [PutDone key v a]), ?kv1)"
      using al p assms(6,8) by (simp add: cmdPut_def with_new_value_def with_key_def key [OF assms(3)] with_attrs_def say_def)
    have g: "kv_Get y ?k ?kv1 = (Inr \<lparr>val_data = HeapPtr (value_bytes v), val_size = ?n, val_attr = NOT_BUFFERED\<rparr>, ?kv1)"
      using kv_GetRaw_pmem [of ?kv1 "cli_key key" "value_bytes v" y] len ok(3,4) lcl [of ?kv1] n by (simp add: kv_Get_def)
    have "kv_keySize ?kv1 = 8" using assms(3) by (simp add: set_tree_def)
    then have "cmdGet b y (cmd' # key # opts') ?kv1 = Some (Inr (ws' @ [GotValue key v]), ?kv1)"
      using g assms(6,9) n c_string_value [OF assms(7)]
      by (simp add: cmdGet_def with_key_def key with_attrs_def read_value_def val_bytes_def get_cleanup_def kv_Free_def kv_FreeKey_def val_isKvsBuffered_def
          key_isKvsBuffered_def say_def)
    with put show ?thesis by blast
  qed
qed

theorem cli_put_get_witness:
  "\<exists>kv1. cmdPut ex_boost ex_kvo [''put'', ''k'', ''hi'', ''-o'', ''lock'', ''1''] ex_kv = Some (Inr [PutDone ''k'' ''hi'' (attr_EMPTY\<lparr>LOCKED := True\<rparr>)], kv1) \<and>
    cmdGet ex_boost ex_kvo [''get'', ''k''] kv1 = Some (Inr [GotValue ''k'' ''hi''], kv1)"
proof -
  have a: "getKeyAttrs ex_boost 3 [''put'', ''k'', ''hi'', ''-o'', ''lock'', ''1''] = Some (Inr ([], attr_EMPTY\<lparr>LOCKED := True\<rparr>))"
    "getKeyAttrs ex_boost 2 [''get'', ''k''] = Some (Inr ([], attr_EMPTY))"
    by (simp_all add: getKeyAttrs_def NUM_ELEM_KEY_ATTRS_def attr_loop.simps getKeyAttr_def Let_def ex_boost_def attr_or_def attr_EMPTY_def)
  have k: "\<not> isInvalidKey ''k''" "plain_word ''hi''" by (simp_all add: isInvalidKey_def SIZEOF_eventId_def plain_word_def byte_of_char_def)
  have ck: "cli_key ''k'' = [107, 0, 0, 0, 0, 0, 0, 0]" by (simp add: cli_key_def byte_of_char_def numeral_eq_Suc)
  have "\<exists>bl t. AllocValueForKey small_reserve (cli_key ''k'') 3 empty_tree = (Inr bl, t)" unfolding ck
    by (simp add: AllocValueForKey_def empty_tree_def LEAF_DEPTH_8 numeral_eq_Suc fresh_wrapper_def
      allocateFullLevels_def new_child_def LEVEL_TYPE_def child_class_def small_reserve_def empty_mem_def Let_def set_wrapper_def)
  then obtain bl t where "AllocValueForKey small_reserve (cli_key ''k'') 3 empty_tree = (Inr bl, t)" by blast
  then have al: "kv_Alloc ex_kvo \<lparr>key_data = cli_key ''k'', key_attr = NOT_BUFFERED\<rparr> 3 KVS_BUFFERED ex_kv =
      (Inr \<lparr>val_data = PmemPtr bl, val_size = 3, val_attr = KVS_BUFFERED\<rparr>, set_tree t ex_kv)"
    by (simp add: kv_Alloc_def kv_AllocRaw_def kv_isLocalKey_def isLocalKey_def ex_kv_fields ex_kvo_def ex_outside_def)
  have no: "cmdPut ex_boost ex_kvo [''put'', ''k'', ''hi'', ''-o'', ''lock'', ''1''] ex_kv \<noteq> Some (Inr [ErrValueBuffer], kv1)" for kv1
    using al a(1) k(1)
    by (auto simp: cmdPut_def with_new_value_def with_key_def strToKey_local [OF k(1) ex_kv_keySize] allocValue_def write_value_def with_attrs_def say_def fails_def
        eval_nat_numeral split: prod.splits sum.splits exn.splits)
  have s: "art_inv (kv_tree ex_kv)" "fresh_reserve (reserve (kv_off ex_kvo))" "core_maskLength (kv_dht ex_kv) = 0" "\<forall>key. takes_key ex_kvo key ex_kv"
    by (simp_all add: ex_kv_fields empty_tree_inv ex_kvo_def ex_outside_def small_reserve_fresh takes_key_def pKey_enqueueNext_def ex_options_def
        default_options_def base_enqueueNext_def)
  show ?thesis using cli_put_get [OF s(1,2) ex_kv_keySize s(3,4) k a] no by auto
qed

end
