(* ===== verification/Spec2Isabelle.thy ===== *)
theory Spec2Isabelle
  imports Mem_Mgr Offload_Quiesce Kv_Thin Minidaq_Main Node_Cli
begin

text \<open>
  A verification development of DAQDB, a distributed key-value store for data acquisition. Paths are under
  \<^verbatim>\<open>src/\<close>.

  \<^bold>\<open>The program.\<close> A node keeps an index in persistent memory (\<^verbatim>\<open>lib/pmem\<close>) that maps keys of eight bytes to
  values. Values can be moved to a block device: requests go through a queue to a polling thread
  (\<^verbatim>\<open>lib/offload\<close>), from there as device tasks to the thread of the device (\<^verbatim>\<open>lib/spdk\<close>), and after the transfer to
  a finalizing thread, which updates the index and calls the user back. Blocks of the device come from an
  allocator over a persistent free list; requests, buffers and memory come from object pools (\<^verbatim>\<open>lib/common\<close>). A key
  is served by the node whose range holds its hash (\<^verbatim>\<open>lib/dht\<close>); other nodes reach it through a client that sends
  messages. The queue of ready keys (\<^verbatim>\<open>lib/primary\<close>) hands out keys that were stored. \<^verbatim>\<open>lib/core/KVStore.cpp\<close>
  puts these together, and \<^verbatim>\<open>lib/thin/KVStoreThin.cpp\<close> is the store of a node without data. Two programs use the store:
  the benchmark \<^verbatim>\<open>apps/minidaq\<close>, whose readout workers store the fragments of events and whose filtering workers fetch
  them and send them to disk or drop them, and the shell of a node, \<^verbatim>\<open>examples/clinode\<close>.

  \<^bold>\<open>Conventions.\<close> A class is a record, an enumeration a datatype, a fixed-width integer a word. An operation that
  may throw has a result \<open>exn + 'a\<close>, together with the state where a state survives the exception; \<open>Undefined\<close> is
  behaviour C++ does not define, \<open>NoReturn\<close> a call that never returns, \<open>Abort\<close> the end of the process. Memory that
  pointers share is a heap: a map from addresses to contents. Threads are functions of one turn of their loop,
  and their interleavings are inductive relations. Code of other libraries is an argument: the reservation
  functions of libpmemobj (\<open>fresh_reserve\<close>, \<open>fresh_allocator\<close> say that they give unused objects), the rings of SPDK
  (\<open>ring_ok\<close>: a bounded queue), DMA memory, what SPDK answers to calls, the circular buffer of Boost, the transport
  of eRPC (\<open>delivers\<close>: requests reach the handler and responses come back), libconfig, the histograms of HdrHistogram
  (\<open>hdr_ok\<close>: a histogram is the multiset of the values recorded), the string functions of Boost. Each contract is used as a named
  hypothesis, and the examples instantiate it.

  \<^bold>\<open>Base.\<close> \<open>Daqdb_Prelude\<close> has machine integers, block moves and the arithmetic of circular buffers; \<open>Daqdb_Types\<close> the status
  codes, exceptions and addresses; \<open>Key_Options\<close> the options. \<open>Fifo_Spec\<close> and \<open>Resource_Spec\<close> are contracts as locales:
  \<open>bounded_fifo\<close>, a bounded queue, and \<open>resource_supply\<close>, a supply that never gives a resource twice.

  \<^bold>\<open>Pools.\<close> \<open>Pool_Bucket\<close> models \<^verbatim>\<open>GeneralPoolBucket.h\<close> and \<^verbatim>\<open>GeneralPoolBuffer.h\<close>: a growing ring of arrays of slots. It
  interprets \<open>bounded_fifo\<close>, so a bucket behaves as a queue while it grows, and it shows when a put can fail.
  \<open>General_Pool\<close> models \<^verbatim>\<open>GeneralPool.h\<close> with the stamps of objects and the registry; it interprets \<open>resource_supply\<close>: no
  object is handed out twice. \<open>Mem_Mgr\<close> models \<^verbatim>\<open>MemMgr.cpp\<close>: a chunk returns to the size class it came from.
  \<open>Io_Buf\<close> models \<^verbatim>\<open>SpdkIoBuf.cpp\<close>: a buffer has the memory its size asks for and is not shared.

  \<^bold>\<open>Blocks.\<close> \<open>Free_List\<close> models \<^verbatim>\<open>OffloadFreeList.cpp\<close> and shows that it is a \<open>resource_supply\<close> of single blocks. \<open>Lba_Alloc\<close> models
  \<^verbatim>\<open>OffloadLbaAlloc.cpp\<close>: blocks of one size bracket are distinct until one is put back; then, and between brackets,
  blocks are given out twice, which its theorems show.

  \<^bold>\<open>Index.\<close> \<open>ART_Tree\<close> models \<^verbatim>\<open>ARTree.cpp\<close>. \<open>art_inv\<close> says that the tree is well-formed, that leaves do not share wrappers and
  wrappers do not share blocks; \<open>art_map\<close> is the map the tree stands for. Every operation is shown to act on
  that map; histories of operations refine it; removal of a value in memory leaves a dangling pointer.

  \<^bold>\<open>Device and threads.\<close> \<open>Request_Queues\<close> models \<^verbatim>\<open>Poller.h\<close> and \<^verbatim>\<open>BlockingPoller.h\<close>, \<open>Device_Task\<close> the requests, tasks and sizes of
  transfers, \<open>Bdev\<close> one device (\<^verbatim>\<open>SpdkBdev.cpp\<close>), \<open>Jbod\<close> several (\<^verbatim>\<open>SpdkJBODBdev.cpp\<close>), \<open>Spdk_Core\<close> their start
  (\<^verbatim>\<open>SpdkCore.cpp\<close>, \<^verbatim>\<open>SpdkConf.cpp\<close>), \<open>Offload_Engine\<close> the three threads (\<^verbatim>\<open>OffloadPoller.cpp\<close>, \<^verbatim>\<open>SpdkIoEngine.cpp\<close>,
  \<^verbatim>\<open>FinalizePoller.cpp\<close>), \<open>Pmem_Poller\<close> the asynchronous requests to the index (\<^verbatim>\<open>PmemPoller.cpp\<close>). \<open>Offload_Account\<close> counts
  requests: with the locale \<open>request_account\<close>, interpreted for request numbers and for callbacks, it shows that in
  every interleaving each request is answered and returned to its pool exactly once. \<open>Offload_Roundtrip\<close> follows one
  value to disk and back; \<open>Offload_Quiesce\<close> shows that stopping the offload waits forever unless it aborts.

  \<^bold>\<open>Store and network.\<close> \<open>Primary_Key\<close> models the home of a key and the queue of ready keys, \<open>Dht_Core\<close> the routing of keys
  (\<^verbatim>\<open>DhtCore.cpp\<close>). \<open>Kv_Store\<close> models \<^verbatim>\<open>KVStore.cpp\<close> from \<open>init\<close> to the asynchronous operations; \<open>Kv_Props\<close> shows that what is
  put is got, with which options a store opens, and that a failed read from disk is not reported. \<open>Dht_Rpc\<close>
  models \<^verbatim>\<open>DhtClient.cpp\<close> and the handlers of \<^verbatim>\<open>DhtServer.cpp\<close>: a value put through the client is found on the node it is
  routed to. Its locale \<open>typed_client\<close> is what a store expects of a client, interpreted for this one.
  \<open>Kv_Thin\<close> models \<^verbatim>\<open>KVStoreThin.cpp\<close> and \<open>Config_File\<close> the reading of options, \<^verbatim>\<open>Configuration.cpp\<close>.

  \<^bold>\<open>Benchmark.\<close> \<open>Minidaq_Stats\<close> models \<^verbatim>\<open>MinidaqStats.cpp\<close>: statistics combined over threads are those of all samples, less the
  overflows. \<open>Minidaq_Node\<close> models the workers (\<^verbatim>\<open>MinidaqRoNode.cpp\<close>, \<^verbatim>\<open>MinidaqAroNode.cpp\<close>, \<^verbatim>\<open>MinidaqFfNode.cpp\<close>,
  \<^verbatim>\<open>MinidaqFfNodeSeq.cpp\<close>) as functions on the store of \<open>Kv_Store\<close>, and shows how long their keys are different.
  \<open>Minidaq_Event\<close> joins them: the fragments readout workers store are those a filtering worker hands to the offload
  thread. \<open>Minidaq_Exec\<close> models the timers and the loop of a worker thread (\<open>MinidaqNode::_Execute\<close>) as a step relation
  with callbacks and other threads in between, and shows that its books balance. \<open>Minidaq_Main\<close> models \<^verbatim>\<open>minidaq.cpp\<close>:
  the store it opens fits its workers, and workers have cores of their own.

  \<^bold>\<open>Shell.\<close> \<open>Node_Cli\<close> models the commands of \<^verbatim>\<open>nodeCli.cpp\<close>: what \<open>put\<close> stores \<open>get\<close> prints, and the parsing of options ends
  exactly for lines of fewer than 255 words.

  \<^bold>\<open>Bounds and fuel.\<close> Loops over batches, fields and neighbours are recursions over lists. The search of the tree
  descends \<open>LEAF_DEPTH\<close> levels, the depth of the tree; buckets grow by the constants of the code; \<open>clear\<close> of the free
  list takes the number of nodes as fuel, and it is shown that this is enough. The wait in \<open>QuiesceOffload\<close> is a
  recursion over the states of the device that it sees, with \<open>None\<close> for a wait that has not ended. The loop over the
  options of a shell command is a \<open>partial_function\<close>, since it may not end. Filtering workers repeat a refused update
  without a limit; \<open>a_patience\<close> bounds the tries, and a call that exceeds it is \<open>NoReturn\<close>. Sizes of fragments that are drawn
  until they are not zero come from a list of draws, with \<open>None\<close> when all of them are zero.

  \<^bold>\<open>Not modelled.\<close> Creation, names and affinity of threads, condition variables and signals, and the destructors that join
  threads: they act on the operating system only. Opening of an existing pool file and the allocation classes
  of libpmemobj: they are inside that library. The RAID0 device, whose operations are stubs; the older tree
  \<^verbatim>\<open>RTree.cpp\<close>, which is not used; printing of logs, statistics and properties; the search for a free port
  in \<^verbatim>\<open>DhtUtils.cpp\<close>; the parsing of command lines, the tables printed by the benchmark, the help texts of the shell; the
  programs \<^verbatim>\<open>apps/daqdb-top\<close>, \<^verbatim>\<open>apps/mist\<close> and \<^verbatim>\<open>examples/basic\<close>; the tests. Operations that only throw that they are not implemented
  have no definition.
\<close>

end
